(* ===== verification/Rust_Prelude.thy ===== *)
theory Rust_Prelude
  imports Main
    "HOL-Library.Word"
    "HOL-Library.Char_ord"
    "HOL-Library.List_Lexorder"
    "HOL-Library.Product_Lexorder"
    "HOL-Library.Monad_Syntax"
begin

section \<open>What the components share of Rust\<close>

text \<open>
  The parts of the Rust language and of its standard library that every component uses:
  fixed-width integers, \<^verbatim>\<open>Result\<close>, and the iterator adaptors \<^verbatim>\<open>max_by_key\<close>,
  \<^verbatim>\<open>min_by_key\<close> and \<^verbatim>\<open>try_for_each\<close>.

  Integers. A \<^verbatim>\<open>uN\<close> is an \<open>N word\<close>. The workspace's release profile (src/v3/Cargo.toml)
  leaves overflow checks off, so \<open>+\<close>, \<open>-\<close> and \<open>*\<close> wrap, as they do on words; the
  saturating and checked operations the sources call are the definitions below. A product of
  two \<^verbatim>\<open>u64\<close>s in \<^verbatim>\<open>u128\<close> never overflows, so it is written on \<open>nat\<close>. A
  \<^verbatim>\<open>usize\<close> that counts elements of a list is a \<open>nat\<close>, and an \<^verbatim>\<open>i64\<close> time in
  seconds or milliseconds is an \<open>int\<close>.

  Panics. A failed \<^verbatim>\<open>assert!\<close> or \<^verbatim>\<open>expect\<close>, or a division by zero, is the value
  \<open>None\<close> of an option type; an \<^verbatim>\<open>Err\<close> is \<open>Inl\<close>.
\<close>

named_theorems unat_ops \<open>what a Rust integer operation computes on natural numbers\<close>
named_theorems result_ops \<open>case analysis of fallible operations\<close>

type_synonym u8 = "8 word"
type_synonym u16 = "16 word"
type_synonym u32 = "32 word"
type_synonym u64 = "64 word"
type_synonym uuid = "128 word"

type_synonym ('e, 'a) result = "'e + 'a"

abbreviation Err :: "'e \<Rightarrow> ('e, 'a) result" where
  "Err \<equiv> Inl"

abbreviation Ok :: "'a \<Rightarrow> ('e, 'a) result" where
  "Ok \<equiv> Inr"

definition is_ok :: "('e, 'a) result \<Rightarrow> bool" where
  "is_ok r = (case r of Err _ \<Rightarrow> False | Ok _ \<Rightarrow> True)"

definition and_then :: "('e, 'a) result \<Rightarrow> ('a \<Rightarrow> ('e, 'b) result) \<Rightarrow> ('e, 'b) result" where
  \<comment> \<open>the \<open>?\<close> operator: an error leaves the function at once\<close>
  "and_then r f = (case r of Err e \<Rightarrow> Err e | Ok v \<Rightarrow> f v)"

definition map_err :: "('e \<Rightarrow> 'f) \<Rightarrow> ('e, 'a) result \<Rightarrow> ('f, 'a) result" where
  "map_err h r = (case r of Err e \<Rightarrow> Err (h e) | Ok v \<Rightarrow> Ok v)"

definition ok_or :: "'e \<Rightarrow> 'a option \<Rightarrow> ('e, 'a) result" where
  "ok_or e x = (case x of None \<Rightarrow> Err e | Some v \<Rightarrow> Ok v)"

fun try_for_each :: "('a \<Rightarrow> ('e, unit) result) \<Rightarrow> 'a list \<Rightarrow> ('e, unit) result" where
  "try_for_each f [] = Ok ()"
| "try_for_each f (x # xs) = and_then (f x) (\<lambda>_. try_for_each f xs)"

fun try_fold :: "('a \<Rightarrow> 's \<Rightarrow> ('e, 's) result) \<Rightarrow> 'a list \<Rightarrow> 's \<Rightarrow> ('e, 's) result" where
  "try_fold f [] s = Ok s"
| "try_fold f (x # xs) s = and_then (f x s) (try_fold f xs)"

subsection \<open>Fixed-width integers\<close>

definition saturating_add :: "'a::len word \<Rightarrow> 'a word \<Rightarrow> 'a word" where
  "saturating_add a b = (if unat a + unat b < 2 ^ LENGTH('a) then a + b else - 1)"

definition saturating_sub :: "'a::len word \<Rightarrow> 'a word \<Rightarrow> 'a word" where
  "saturating_sub a b = (if b \<le> a then a - b else 0)"

definition saturating_mul :: "'a::len word \<Rightarrow> 'a word \<Rightarrow> 'a word" where
  "saturating_mul a b = (if unat a * unat b < 2 ^ LENGTH('a) then a * b else - 1)"

definition checked_sub :: "'a::len word \<Rightarrow> 'a word \<Rightarrow> 'a word option" where
  "checked_sub a b = (if b \<le> a then Some (a - b) else None)"

definition div_ceil :: "'a::len word \<Rightarrow> 'a word \<Rightarrow> 'a word" where
  \<comment> \<open>for a divisor that is not zero; callers that may pass zero test it first\<close>
  "div_ceil a b = (if a mod b = 0 then a div b else a div b + 1)"

definition try_from_or_max :: "nat \<Rightarrow> 'a::len word" where
  \<comment> \<open>\<open>T::try_from(n).unwrap_or(T::MAX)\<close>\<close>
  "try_from_or_max n = (if n < 2 ^ LENGTH('a) then of_nat n else - 1)"

definition try_from_nat :: "nat \<Rightarrow> 'a::len word option" where
  "try_from_nat n = (if n < 2 ^ LENGTH('a) then Some (of_nat n) else None)"

definition nat_div_ceil :: "nat \<Rightarrow> nat \<Rightarrow> nat" where
  "nat_div_ceil n d = (if n mod d = 0 then n div d else n div d + 1)"

definition is_power_of_two :: "'a::len word \<Rightarrow> bool" where
  "is_power_of_two w = (\<exists>k\<in>set [0..<LENGTH('a)]. w = 2 ^ k)"

subsection \<open>Iterators\<close>

definition max_by :: "('a \<Rightarrow> 'a \<Rightarrow> bool) \<Rightarrow> 'a list \<Rightarrow> 'a option" where
  \<comment> \<open>the last of several maximal elements, as \<open>Iterator::max\<close> returns\<close>
  "max_by le xs =
     (case xs of [] \<Rightarrow> None | x # ys \<Rightarrow> Some (fold (\<lambda>y m. if le m y then y else m) ys x))"

definition min_by :: "('a \<Rightarrow> 'a \<Rightarrow> bool) \<Rightarrow> 'a list \<Rightarrow> 'a option" where
  \<comment> \<open>the first of several minimal elements, as \<open>Iterator::min\<close> returns\<close>
  "min_by le xs =
     (case xs of [] \<Rightarrow> None | x # ys \<Rightarrow> Some (fold (\<lambda>y m. if le m y then m else y) ys x))"

definition max_by_key :: "('a \<Rightarrow> 'k::linorder) \<Rightarrow> 'a list \<Rightarrow> 'a option" where
  "max_by_key f = max_by (\<lambda>a b. f a \<le> f b)"

definition i64_min :: int where
  "i64_min = - (2 ^ 63)"

definition i64_div :: "int \<Rightarrow> int \<Rightarrow> int" where
  \<comment> \<open>division that rounds towards zero\<close>
  "i64_div a b = sgn a * sgn b * (\<bar>a\<bar> div \<bar>b\<bar>)"

definition list_max :: "'a::linorder list \<Rightarrow> 'a option" where
  "list_max = max_by (\<le>)"

definition list_min :: "'a::linorder list \<Rightarrow> 'a option" where
  "list_min = min_by (\<le>)"

definition unwrap_or :: "'a \<Rightarrow> 'a option \<Rightarrow> 'a" where
  "unwrap_or d x = (case x of None \<Rightarrow> d | Some v \<Rightarrow> v)"

definition or_else :: "'a option \<Rightarrow> 'a option \<Rightarrow> 'a option" where
  "or_else x y = (case x of None \<Rightarrow> y | Some v \<Rightarrow> Some v)"

definition option_filter :: "('a \<Rightarrow> bool) \<Rightarrow> 'a option \<Rightarrow> 'a option" where
  "option_filter p x = (case x of None \<Rightarrow> None | Some v \<Rightarrow> if p v then Some v else None)"

definition is_some_and :: "('a \<Rightarrow> bool) \<Rightarrow> 'a option \<Rightarrow> bool" where
  "is_some_and p x = (case x of None \<Rightarrow> False | Some v \<Rightarrow> p v)"

fun filter_map :: "('a \<Rightarrow> 'b option) \<Rightarrow> 'a list \<Rightarrow> 'b list" where
  "filter_map f [] = []"
| "filter_map f (x # xs) = (case f x of None \<Rightarrow> filter_map f xs | Some y \<Rightarrow> y # filter_map f xs)"

fun update_first :: "('a \<Rightarrow> bool) \<Rightarrow> ('a \<Rightarrow> 'a) \<Rightarrow> 'a list \<Rightarrow> 'a list" where
  \<comment> \<open>\<open>iter_mut().find(..)\<close>: the first match is changed in place\<close>
  "update_first p f [] = []"
| "update_first p f (x # xs) = (if p x then f x # xs else x # update_first p f xs)"

subsection \<open>Results and options\<close>

lemma is_ok_simps [simp]: "is_ok (Ok v)" "\<not> is_ok (Err e)"
  by (simp_all add: is_ok_def)

lemma is_ok_iff: "is_ok r \<longleftrightarrow> (\<exists>v. r = Ok v)"
  by (cases r) simp_all

lemma find_SomeD: "find P xs = Some x \<Longrightarrow> x \<in> set xs \<and> P x"
  by (auto simp: find_Some_iff)

lemma and_then_simps [simp]: "and_then (Ok v) f = f v" "and_then (Err e) f = Err e"
  by (simp_all add: and_then_def)

lemma and_then_Ok_iff [result_ops]:
  "and_then r f = Ok w \<longleftrightarrow> (\<exists>v. r = Ok v \<and> f v = Ok w)"
  by (cases r) auto

lemma and_then_Err_iff [result_ops]:
  "and_then r f = Err e \<longleftrightarrow> r = Err e \<or> (\<exists>v. r = Ok v \<and> f v = Err e)"
  by (cases r) auto

lemma map_err_simps [simp]: "map_err h (Ok v) = Ok v" "map_err h (Err e) = Err (h e)"
  by (simp_all add: map_err_def)

lemma map_err_Ok_iff [result_ops]: "map_err h r = Ok w \<longleftrightarrow> r = Ok w"
  by (cases r) auto

lemma ok_or_simps [simp]: "ok_or e None = Err e" "ok_or e (Some v) = Ok v"
  by (simp_all add: ok_or_def)

lemma ok_or_Ok_iff [result_ops]: "ok_or e x = Ok v \<longleftrightarrow> x = Some v"
  by (cases x) auto

lemma try_for_each_Ok_iff [result_ops]:
  "try_for_each f xs = Ok () \<longleftrightarrow> (\<forall>x\<in>set xs. f x = Ok ())"
  by (induction xs) (auto simp: and_then_Ok_iff)

lemma try_fold_inv:
  assumes "try_fold f xs s = Ok t" and "I s"
    and "\<And>x s t. x \<in> set xs \<Longrightarrow> I s \<Longrightarrow> f x s = Ok t \<Longrightarrow> I t"
  shows "I t"
  using assms by (induction xs arbitrary: s) (auto simp: and_then_Ok_iff)

lemma try_fold_all:
  assumes "try_fold f xs s = Ok t" and "\<And>x s t. f x s = Ok t \<Longrightarrow> P x"
  shows "\<forall>x\<in>set xs. P x"
  using assms by (induction xs arbitrary: s) (auto simp: and_then_Ok_iff)

lemma try_fold_distinct:
  \<comment> \<open>a fold that refuses a key it has seen\<close>
  assumes "try_fold f xs s = Ok t"
    and "\<And>x s t. f x s = Ok t \<Longrightarrow> key x \<notin> set (seen s) \<and> seen t = key x # seen s"
  shows "distinct (map key xs) \<and> set (map key xs) \<inter> set (seen s) = {}"
  using assms
proof (induction xs arbitrary: s)
  case (Cons x xs)
  then obtain u where u: "f x s = Ok u" "try_fold f xs u = Ok t" by (auto simp: and_then_Ok_iff)
  with Cons.IH [OF u(2)] Cons.prems(2) [OF u(1)] Cons.prems(2) show ?case by auto
qed simp

lemma unwrap_or_simps [simp]: "unwrap_or d None = d" "unwrap_or d (Some v) = v"
  by (simp_all add: unwrap_or_def)

lemma or_else_simps [simp]: "or_else None y = y" "or_else (Some v) y = Some v"
  by (simp_all add: or_else_def)

lemma option_filter_Some_iff [simp]: "option_filter p x = Some v \<longleftrightarrow> x = Some v \<and> p v"
  by (auto simp: option_filter_def split: option.splits if_splits)

lemma option_filter_simps [simp]: "option_filter p None = None"
  "option_filter p (Some v) = (if p v then Some v else None)"
  by (simp_all add: option_filter_def)

lemma is_some_and_simps [simp]: "\<not> is_some_and p None" "is_some_and p (Some v) = p v"
  by (simp_all add: is_some_and_def)

lemma is_some_and_iff: "is_some_and p x \<longleftrightarrow> (\<exists>v. x = Some v \<and> p v)"
  by (cases x) auto

lemma set_filter_map [simp]: "set (filter_map f xs) = {y. \<exists>x\<in>set xs. f x = Some y}"
  by (induction xs) (auto split: option.splits)

lemma filter_map_map: "filter_map f (map g xs) = filter_map (\<lambda>x. f (g x)) xs"
  by (induction xs) (auto split: option.splits)

lemma filter_map_append [simp]: "filter_map f (xs @ ys) = filter_map f xs @ filter_map f ys"
  by (induction xs) (auto split: option.splits)

lemma list_all2_left: "list_all2 P xs ys \<Longrightarrow> x \<in> set xs \<Longrightarrow> \<exists>y\<in>set ys. P x y"
  by (induction rule: list_all2_induct) auto

lemma list_all2_right: "list_all2 P xs ys \<Longrightarrow> y \<in> set ys \<Longrightarrow> \<exists>x\<in>set xs. P x y"
  by (induction rule: list_all2_induct) auto

lemma those_map_Some_iff:
  "those (map f xs) = Some ys \<longleftrightarrow> (\<forall>x\<in>set xs. f x \<noteq> None) \<and> ys = map (\<lambda>x. the (f x)) xs"
  by (induction xs arbitrary: ys) (auto split: option.splits)

lemma those_map_Some_ex: "(\<exists>ys. those (map f xs) = Some ys) \<longleftrightarrow> (\<forall>x\<in>set xs. f x \<noteq> None)"
  by (simp add: those_map_Some_iff)

subsection \<open>Finding and changing the first match\<close>

lemma find_append: "find P (xs @ ys) = (case find P xs of None \<Rightarrow> find P ys | Some x \<Rightarrow> Some x)"
  by (induction xs) auto

lemma find_update_same:
  assumes "\<And>x. p (f x) = p x"
  shows "find p (update_first p f xs) = map_option f (find p xs)"
  using assms by (induction xs) auto

lemma find_update_other:
  assumes "\<And>x. q x \<Longrightarrow> \<not> p x \<and> \<not> p (f x)"
  shows "find p (update_first q f xs) = find p xs"
  using assms by (induction xs) auto

lemma find_map_same:
  assumes "\<And>x. p (f x) = p x"
  shows "find p (map f xs) = map_option f (find p xs)"
  using assms by (induction xs) auto

lemma map_update_first:
  assumes "\<And>x. g (f x) = g x"
  shows "map g (update_first p f xs) = map g xs"
  using assms by (induction xs) auto

lemma set_update_first: "x \<in> set (update_first p f xs) \<Longrightarrow> x \<in> set xs \<or> (\<exists>y\<in>set xs. p y \<and> x = f y)"
  by (induction xs) (auto split: if_splits)

lemma find_distinct:
  assumes "distinct (map g xs)" and "x \<in> set xs"
  shows "find (\<lambda>y. g y = g x) xs = Some x"
  using assms by (induction xs) auto

lemma find_filter_distinct:
  assumes "distinct (map g xs)"
  shows "find (\<lambda>x. g x = k) (filter q xs) = option_filter q (find (\<lambda>x. g x = k) xs)"
  using assms
proof (induction xs)
  case (Cons x xs)
  show ?case
  proof (cases "g x = k")
    case True
    with Cons.prems have "\<forall>y\<in>set xs. g y \<noteq> k" by (metis distinct.simps(2) image_eqI list.set_map list.simps(9))
    then have "find (\<lambda>x. g x = k) (filter q xs) = None" by (auto simp: find_None_iff)
    with True show ?thesis by simp
  qed (use Cons in simp)
qed simp

lemma update_first_all:
  assumes "list_all P xs" and "\<And>x. find p xs = Some x \<Longrightarrow> P x \<Longrightarrow> P (f x)"
  shows "list_all P (update_first p f xs)"
  using assms by (induction xs) auto

lemma update_first_found: "find p xs = Some x \<Longrightarrow> f x \<in> set (update_first p f xs)"
  by (induction xs) (auto split: if_splits)

lemma update_first_kept: "x \<in> set xs \<Longrightarrow> find p xs \<noteq> Some x \<Longrightarrow> x \<in> set (update_first p f xs)"
  by (induction xs) (auto split: if_splits)

lemma update_first_preserves:
  "(\<And>x. x \<in> set xs \<Longrightarrow> P x \<Longrightarrow> P (f x)) \<Longrightarrow> \<forall>x\<in>set xs. P x \<Longrightarrow> \<forall>x\<in>set (update_first p f xs). P x"
  by (induction xs) auto

lemma length_update_first [simp]: "length (update_first p f xs) = length xs"
  by (induction xs) auto

subsection \<open>Integer operations on natural numbers\<close>

lemma unat_minus_one_word: "unat (- 1 :: 'a::len word) = 2 ^ LENGTH('a) - 1"
  by transfer (simp add: mask_eq_exp_minus_1 nat_diff_distrib nat_power_eq)

lemma unat_less_power: "unat (w::'a::len word) < 2 ^ LENGTH('a)"
  by simp

lemma unat_ucast_up:
  "LENGTH('a) \<le> LENGTH('b) \<Longrightarrow> unat (ucast (w::'a::len word) :: 'b::len word) = unat w"
  by (simp add: unsigned_ucast_eq take_bit_nat_eq_self_iff
      order_less_le_trans [OF unat_less_power])

lemma unat_saturating_add [unat_ops]:
  "unat (saturating_add (a::'a::len word) b) = min (unat a + unat b) (2 ^ LENGTH('a) - 1)"
  by (auto simp: saturating_add_def unat_word_ariths unat_minus_one_word)

lemma unat_saturating_sub [unat_ops]: "unat (saturating_sub a b) = unat a - unat b"
  by (auto simp: saturating_sub_def unat_sub word_le_nat_alt)

lemma unat_saturating_mul [unat_ops]:
  "unat (saturating_mul (a::'a::len word) b) = min (unat a * unat b) (2 ^ LENGTH('a) - 1)"
  by (auto simp: saturating_mul_def unat_word_ariths unat_minus_one_word)

lemma unat_try_from_or_max [unat_ops]:
  "unat (try_from_or_max n :: 'a::len word) = min n (2 ^ LENGTH('a) - 1)"
  by (auto simp: try_from_or_max_def unat_of_nat unat_minus_one_word)

lemma try_from_nat_Some_iff:
  "try_from_nat n = Some (w::'a::len word) \<longleftrightarrow> unat w = n"
  by (auto simp: try_from_nat_def unat_of_nat)

lemma checked_sub_Some_iff:
  "checked_sub a b = Some (c::'a::len word) \<longleftrightarrow> unat b \<le> unat a \<and> unat c = unat a - unat b"
  by (auto simp: checked_sub_def word_le_nat_alt unat_sub word_unat_eq_iff)

lemma less_eq_mult_div:
  assumes d: "0 < (d::nat)"
  shows "n \<le> k * d \<longleftrightarrow> n div d < k \<or> (n div d = k \<and> n mod d = 0)"
proof -
  have eq: "n = n div d * d + n mod d" by simp
  consider "n div d < k" | "n div d = k" | "k < n div d" by linarith
  then show ?thesis
  proof cases
    case 1
    then have "(n div d + 1) * d \<le> k * d" by (intro mult_le_mono1) simp
    moreover have "n < (n div d + 1) * d"
      using mod_less_divisor [OF d, of n] div_mod_decomp [of n d] unfolding distrib_right by linarith
    ultimately show ?thesis using 1 by linarith
  next
    case 2
    then have "n = k * d + n mod d" using eq by simp
    then have "n \<le> k * d \<longleftrightarrow> n mod d = 0" by linarith
    with 2 show ?thesis by simp
  next
    case 3
    then have "(k + 1) * d \<le> n div d * d" by (intro mult_le_mono1) simp
    then have "k * d < n" using eq d unfolding distrib_right by linarith
    then show ?thesis using 3 by linarith
  qed
qed

lemma nat_div_ceil_le_iff: "0 < d \<Longrightarrow> nat_div_ceil n d \<le> k \<longleftrightarrow> n \<le> k * d"
  by (auto simp: less_eq_mult_div nat_div_ceil_def)

lemma nat_div_ceil_mult_ge: "0 < d \<Longrightarrow> n \<le> nat_div_ceil n d * d"
  using nat_div_ceil_le_iff [of d n "nat_div_ceil n d"] by simp

lemma nat_div_ceil_mono: "0 < d \<Longrightarrow> m \<le> n \<Longrightarrow> nat_div_ceil m d \<le> nat_div_ceil n d"
  using nat_div_ceil_mult_ge [of d n] by (simp add: nat_div_ceil_le_iff)

lemma nat_div_ceil_pos: "0 < d \<Longrightarrow> 0 < n \<Longrightarrow> 0 < nat_div_ceil n d"
  using nat_div_ceil_mult_ge [of d n] by (intro Nat.gr0I) auto

lemma nat_div_ceil_le_self: "0 < d \<Longrightarrow> nat_div_ceil n d \<le> n"
  by (simp add: nat_div_ceil_le_iff)

lemma div_mult_floor: "0 < (d::nat) \<Longrightarrow> k \<le> n div d \<longleftrightarrow> k * d \<le> n"
  by (simp add: less_eq_div_iff_mult_less_eq)

lemma unat_div_ceil [unat_ops]:
  assumes "b \<noteq> 0"
  shows "unat (div_ceil (a::'a::len word) b) = nat_div_ceil (unat a) (unat b)"
proof (cases "a mod b = 0")
  case True
  then have "unat a mod unat b = 0" by (metis unat_mod unat_eq_zero)
  with True show ?thesis
    by (simp add: div_ceil_def nat_div_ceil_def unat_div)
next
  case False
  then have m: "unat a mod unat b \<noteq> 0" by (metis unat_eq_zero unat_mod)
  then have "unat b \<noteq> 1" "0 < unat a" by (auto intro: Nat.gr0I)
  moreover have "0 < unat b" using assms by (simp add: unat_gt_0)
  ultimately have "unat a div unat b < unat a" by (intro div_less_dividend) auto
  then have "Suc (unat a div unat b) < 2 ^ LENGTH('a)"
    using unat_less_power [of a] by linarith
  then show ?thesis
    using False m by (simp add: div_ceil_def nat_div_ceil_def unat_word_ariths unat_div)
qed

subsection \<open>Extremal elements\<close>

text \<open>
  The iterator adaptors only compare elements, so their laws are stated once for any
  comparison that is total and transitive; the components' comparisons are interpretations.
\<close>

locale total_preorder =
  fixes le :: "'a \<Rightarrow> 'a \<Rightarrow> bool"
  assumes total: "le x y \<or> le y x"
    and trans: "le x y \<Longrightarrow> le y z \<Longrightarrow> le x z"
begin

lemma refl: "le x x"
  using total by blast

lemma fold_max:
  "fold (\<lambda>y m. if le m y then y else m) ys x \<in> insert x (set ys)
   \<and> (\<forall>z\<in>insert x (set ys). le z (fold (\<lambda>y m. if le m y then y else m) ys x))"
proof (induction ys arbitrary: x)
  case Nil
  then show ?case by (simp add: refl)
next
  case (Cons y ys)
  let ?m = "fold (\<lambda>y m. if le m y then y else m) ys (if le x y then y else x)"
  have "le (if le x y then y else x) ?m" using Cons.IH by blast
  moreover have "le x (if le x y then y else x)" "le y (if le x y then y else x)"
    using total refl by auto
  ultimately have "le x ?m" "le y ?m" using trans by blast+
  then show ?case using Cons.IH [of "if le x y then y else x"] by auto
qed

lemma fold_min:
  "fold (\<lambda>y m. if le m y then m else y) ys x \<in> insert x (set ys)
   \<and> (\<forall>z\<in>insert x (set ys). le (fold (\<lambda>y m. if le m y then m else y) ys x) z)"
proof (induction ys arbitrary: x)
  case Nil
  then show ?case by (simp add: refl)
next
  case (Cons y ys)
  let ?m = "fold (\<lambda>y m. if le m y then m else y) ys (if le x y then x else y)"
  have "le ?m (if le x y then x else y)" using Cons.IH by blast
  moreover have "le (if le x y then x else y) x" "le (if le x y then x else y) y"
    using total refl by auto
  ultimately have "le ?m x" "le ?m y" using trans by blast+
  then show ?case using Cons.IH [of "if le x y then x else y"] by auto
qed

lemma max_by_in: "max_by le xs = Some m \<Longrightarrow> m \<in> set xs"
  using fold_max by (auto simp: max_by_def split: list.splits)

lemma max_by_ge: "max_by le xs = Some m \<Longrightarrow> x \<in> set xs \<Longrightarrow> le x m"
  using fold_max by (auto simp: max_by_def split: list.splits)

lemma min_by_in: "min_by le xs = Some m \<Longrightarrow> m \<in> set xs"
  using fold_min by (auto simp: min_by_def split: list.splits)

lemma min_by_le: "min_by le xs = Some m \<Longrightarrow> x \<in> set xs \<Longrightarrow> le m x"
  using fold_min by (auto simp: min_by_def split: list.splits)

end

lemma max_by_None_iff [simp]: "max_by le xs = None \<longleftrightarrow> xs = []"
  by (simp add: max_by_def split: list.splits)

lemma min_by_None_iff [simp]: "min_by le xs = None \<longleftrightarrow> xs = []"
  by (simp add: min_by_def split: list.splits)

lemma fold_cong_on:
  assumes "\<And>x y. x \<in> A \<Longrightarrow> y \<in> A \<Longrightarrow> f x y = g x y" and "\<And>x y. x \<in> A \<Longrightarrow> y \<in> A \<Longrightarrow> g x y \<in> A"
    and "set xs \<subseteq> A" and "a \<in> A"
  shows "fold f xs a = fold g xs a"
  using assms(3,4) by (induction xs arbitrary: a) (simp_all add: assms(1,2))

lemma max_by_cong:
  assumes "\<And>x y. x \<in> set xs \<Longrightarrow> y \<in> set xs \<Longrightarrow> le x y = le' x y"
  shows "max_by le xs = max_by le' xs"
proof (cases xs)
  case (Cons a ys)
  have "fold (\<lambda>y m. if le m y then y else m) ys a = fold (\<lambda>y m. if le' m y then y else m) ys a"
    by (rule fold_cong_on [where A = "set xs"]) (use assms Cons in auto)
  with Cons show ?thesis by (simp add: max_by_def)
qed (simp add: max_by_def)

lemma min_by_cong:
  assumes "\<And>x y. x \<in> set xs \<Longrightarrow> y \<in> set xs \<Longrightarrow> le x y = le' x y"
  shows "min_by le xs = min_by le' xs"
proof (cases xs)
  case (Cons a ys)
  have "fold (\<lambda>y m. if le m y then m else y) ys a = fold (\<lambda>y m. if le' m y then m else y) ys a"
    by (rule fold_cong_on [where A = "set xs"]) (use assms Cons in auto)
  with Cons show ?thesis by (simp add: min_by_def)
qed (simp add: min_by_def)

interpretation lin: total_preorder "(\<le>) :: 'k::linorder \<Rightarrow> 'k \<Rightarrow> bool"
  by unfold_locales auto

interpretation key: total_preorder "\<lambda>a b. f a \<le> (f b :: 'k::linorder)" for f
  by unfold_locales auto

lemma list_min_Some:
  "list_min xs = Some m \<longleftrightarrow> m \<in> set xs \<and> (\<forall>x\<in>set xs. m \<le> x)"
proof (cases "list_min xs")
  case None
  then show ?thesis by (simp add: list_min_def min_by_def split: list.splits)
next
  case (Some a)
  then have "a \<in> set xs" "\<forall>x\<in>set xs. a \<le> x"
    unfolding list_min_def by (auto dest: lin.min_by_in lin.min_by_le)
  with Some show ?thesis by (auto intro: antisym)
qed

lemma list_max_Some:
  "list_max xs = Some m \<longleftrightarrow> m \<in> set xs \<and> (\<forall>x\<in>set xs. x \<le> m)"
proof (cases "list_max xs")
  case None
  then show ?thesis by (simp add: list_max_def max_by_def split: list.splits)
next
  case (Some a)
  then have "a \<in> set xs" "\<forall>x\<in>set xs. x \<le> a"
    unfolding list_max_def by (auto dest: lin.max_by_in lin.max_by_ge)
  with Some show ?thesis by (auto intro: antisym)
qed

lemma list_min_None [simp]: "list_min xs = None \<longleftrightarrow> xs = []"
  by (simp add: list_min_def)

lemma list_max_None [simp]: "list_max xs = None \<longleftrightarrow> xs = []"
  by (simp add: list_max_def)

lemma max_by_key_ex:
  \<comment> \<open>what holds of the key of the maximum holds of the key of any maximal element\<close>
  "(\<exists>m. max_by_key f xs = Some m \<and> P (f m)) \<longleftrightarrow> (\<exists>m\<in>set xs. P (f m) \<and> (\<forall>x\<in>set xs. f x \<le> f m))"
proof (cases "max_by_key f xs")
  case None
  then show ?thesis by (simp add: max_by_key_def) (simp add: max_by_def)
next
  case (Some a)
  then have a: "a \<in> set xs" "\<forall>x\<in>set xs. f x \<le> f a"
    unfolding max_by_key_def using key.max_by_in [of f] key.max_by_ge [of f] by blast+
  have "f m = f a" if "m \<in> set xs" "\<forall>x\<in>set xs. f x \<le> f m" for m
    using a that by (blast intro: order.antisym)
  with a Some show ?thesis by (metis option.inject)
qed

subsection \<open>State machines\<close>

text \<open>
  The contract of a component with a state: an invariant that the initial state has and every
  step keeps. What it promises of every state the component can reach is proved once.
\<close>

locale state_machine =
  fixes init :: 's
    and step :: "'s \<Rightarrow> 's \<Rightarrow> bool"
    and inv :: "'s \<Rightarrow> bool"
  assumes init_inv: "inv init"
    and step_inv: "inv s \<Longrightarrow> step s t \<Longrightarrow> inv t"
begin

lemma steps_inv: "step\<^sup>*\<^sup>* s t \<Longrightarrow> inv s \<Longrightarrow> inv t"
  by (induction rule: rtranclp_induct) (auto intro: step_inv)

lemma reachable_inv: "step\<^sup>*\<^sup>* init t \<Longrightarrow> inv t"
  by (rule steps_inv [OF _ init_inv])

lemma steps_mono:
  \<comment> \<open>what no step decreases in a good state never decreases\<close>
  assumes "\<And>s t. inv s \<Longrightarrow> step s t \<Longrightarrow> (f s :: 'k::preorder) \<le> f t" and "inv s"
  shows "step\<^sup>*\<^sup>* s t \<Longrightarrow> f s \<le> f t"
proof (induction rule: rtranclp_induct)
  case (step y z)
  then have "f y \<le> f z" using assms steps_inv by blast
  with step.IH show ?case by (rule order_trans)
qed simp

end

end
