(* ===== verification/Rust_Text.thy ===== *)
theory Rust_Text
  imports Rust_Prelude
begin

section \<open>Rust strings\<close>

text \<open>
  A \<^verbatim>\<open>str\<close> is the list of its UTF-8 bytes, a \<open>string\<close> of HOL, so \<open>length\<close> is
  \<^verbatim>\<open>str::len\<close>. The byte classes are \<^verbatim>\<open>u8::is_ascii_*\<close>; a test over
  \<^verbatim>\<open>chars()\<close> with an ASCII class refuses every byte of a longer character, so it is the same test
  over bytes. Decimal numbers are read as \<^verbatim>\<open>str::parse\<close> reads an unsigned integer, leading
  \<^verbatim>\<open>+\<close> included, and written as \<^verbatim>\<open>Display\<close> writes them. The locales at the end are
  the contract of a type that has \<^verbatim>\<open>FromStr\<close> and \<^verbatim>\<open>Display\<close>.
\<close>

named_theorems text_ops \<open>how the string functions compute\<close>

definition is_ascii_digit :: "char \<Rightarrow> bool" where
  "is_ascii_digit c = (CHR ''0'' \<le> c \<and> c \<le> CHR ''9'')"

definition is_ascii_lowercase :: "char \<Rightarrow> bool" where
  "is_ascii_lowercase c = (CHR ''a'' \<le> c \<and> c \<le> CHR ''z'')"

definition is_ascii_uppercase :: "char \<Rightarrow> bool" where
  "is_ascii_uppercase c = (CHR ''A'' \<le> c \<and> c \<le> CHR ''Z'')"

definition is_ascii_alphabetic :: "char \<Rightarrow> bool" where
  "is_ascii_alphabetic c = (is_ascii_lowercase c \<or> is_ascii_uppercase c)"

definition is_ascii_alphanumeric :: "char \<Rightarrow> bool" where
  "is_ascii_alphanumeric c = (is_ascii_alphabetic c \<or> is_ascii_digit c)"

definition is_ascii_graphic :: "char \<Rightarrow> bool" where
  "is_ascii_graphic c = (CHR 0x21 \<le> c \<and> c \<le> CHR 0x7E)"

definition to_ascii_lowercase_char :: "char \<Rightarrow> char" where
  "to_ascii_lowercase_char c = (if is_ascii_uppercase c then char_of (of_char c + 32 :: nat) else c)"

definition to_ascii_lowercase :: "string \<Rightarrow> string" where
  "to_ascii_lowercase s = map to_ascii_lowercase_char s"

definition starts_with :: "string \<Rightarrow> string \<Rightarrow> bool" where
  "starts_with p s = (take (length p) s = p)"

definition ends_with :: "string \<Rightarrow> string \<Rightarrow> bool" where
  "ends_with p s = (length p \<le> length s \<and> drop (length s - length p) s = p)"

definition strip_prefix :: "string \<Rightarrow> string \<Rightarrow> string option" where
  "strip_prefix p s = (if starts_with p s then Some (drop (length p) s) else None)"

fun find_str :: "string \<Rightarrow> string \<Rightarrow> nat option" where
  \<comment> \<open>the byte index of the first match, \<open>str::find\<close>\<close>
  "find_str p [] = (if p = [] then Some 0 else None)"
| "find_str p (c # s) =
     (if starts_with p (c # s) then Some 0 else map_option Suc (find_str p s))"

definition contains_str :: "string \<Rightarrow> string \<Rightarrow> bool" where
  "contains_str p s = (find_str p s \<noteq> None)"

fun split_on :: "char \<Rightarrow> string \<Rightarrow> string list" where
  \<comment> \<open>\<open>str::split\<close> at a character: never empty\<close>
  "split_on c [] = [[]]"
| "split_on c (x # s) =
     (if x = c then [] # split_on c s
      else (case split_on c s of [] \<Rightarrow> [[x]] | w # ws \<Rightarrow> (x # w) # ws))"

fun join_with :: "string \<Rightarrow> string list \<Rightarrow> string" where
  "join_with sep [] = []"
| "join_with sep [w] = w"
| "join_with sep (w # ws) = w @ sep @ join_with sep ws"

definition split_once :: "char \<Rightarrow> string \<Rightarrow> (string \<times> string) option" where
  "split_once c s =
     (if c \<in> set s then Some (takeWhile (\<lambda>x. x \<noteq> c) s, tl (dropWhile (\<lambda>x. x \<noteq> c) s)) else None)"

definition strip_cr :: "string \<Rightarrow> string" where
  "strip_cr s = (if s \<noteq> [] \<and> last s = CHR 0x0D then butlast s else s)"

definition text_lines :: "string \<Rightarrow> string list" where
  \<comment> \<open>\<open>str::lines\<close>: a line ends at a line feed, with the carriage return right before it;
    no line follows a final line feed\<close>
  "text_lines s =
     (let ws = split_on (CHR 0x0A) s
      in map strip_cr (butlast ws) @ (if last ws = [] then [] else [last ws]))"

subsection \<open>Trimming\<close>

definition white_space :: "string list" where
  \<comment> \<open>the UTF-8 forms of the characters with Unicode's \<open>White_Space\<close> property\<close>
  "white_space = map (map (char_of :: nat \<Rightarrow> char))
     ([[9], [10], [11], [12], [13], [32], [0xC2, 0x85], [0xC2, 0xA0], [0xE1, 0x9A, 0x80]]
      @ map (\<lambda>k. [0xE2, 0x80, k]) [0x80..<0x8B]
      @ [[0xE2, 0x80, 0xA8], [0xE2, 0x80, 0xA9], [0xE2, 0x80, 0xAF], [0xE2, 0x81, 0x9F],
         [0xE3, 0x80, 0x80]])"

function trim_while :: "string list \<Rightarrow> string \<Rightarrow> string" where
  "trim_while ws s =
     (case find (\<lambda>w. w \<noteq> [] \<and> starts_with w s) ws of
        None \<Rightarrow> s
      | Some w \<Rightarrow> trim_while ws (drop (length w) s))"
  by pat_completeness auto
termination
proof (relation "measure (\<lambda>(ws, s). length s)")
  fix ws s and w :: string
  assume "find (\<lambda>w. w \<noteq> [] \<and> starts_with w s) ws = Some w"
  then have "w \<noteq> [] \<and> take (length w) s = w"
    by (auto simp: find_Some_iff starts_with_def)
  then have "0 < length w" and "0 < length s" by auto
  then show "((ws, drop (length w) s), (ws, s)) \<in> measure (\<lambda>(ws, s). length s)" by simp
qed simp

declare trim_while.simps [simp del]

definition trim_start :: "string \<Rightarrow> string" where
  "trim_start s = trim_while white_space s"

definition trim_end :: "string \<Rightarrow> string" where
  "trim_end s = rev (trim_while (map rev white_space) (rev s))"

definition trim :: "string \<Rightarrow> string" where
  "trim s = trim_end (trim_start s)"

subsection \<open>Decimal numbers\<close>

definition digit_char :: "nat \<Rightarrow> char" where
  "digit_char d = char_of (48 + d)"

definition digit_value :: "char \<Rightarrow> nat" where
  "digit_value c = of_char c - 48"

fun show_nat :: "nat \<Rightarrow> string" where
  "show_nat n = (if n < 10 then [digit_char n] else show_nat (n div 10) @ [digit_char (n mod 10)])"

declare show_nat.simps [simp del]

definition dec_value :: "string \<Rightarrow> nat" where
  "dec_value s = foldl (\<lambda>v c. 10 * v + digit_value c) 0 s"

definition parse_uint :: "string \<Rightarrow> 'a::len word option" where
  \<comment> \<open>\<open>from_str\<close> of an unsigned integer: one leading \<open>+\<close> is accepted\<close>
  "parse_uint s =
     (let ds = (case s of [] \<Rightarrow> [] | c # cs \<Rightarrow> if c = CHR ''+'' then cs else s)
      in if ds \<noteq> [] \<and> list_all is_ascii_digit ds then try_from_nat (dec_value ds) else None)"

definition show_uint :: "'a::len word \<Rightarrow> string" where
  "show_uint w = show_nat (unat w)"

definition show_int :: "int \<Rightarrow> string" where
  "show_int n = (if n < 0 then CHR ''-'' # show_nat (nat (- n)) else show_nat (nat n))"

definition parse_i64 :: "string \<Rightarrow> int option" where
  \<comment> \<open>\<open>from_str\<close> of a signed integer: one leading \<open>+\<close> or \<open>-\<close> is accepted\<close>
  "parse_i64 s =
     (let (negative, ds) = (case s of [] \<Rightarrow> (False, []) | c # cs \<Rightarrow>
            if c = CHR ''+'' then (False, cs) else if c = CHR ''-'' then (True, cs) else (False, s));
          v = (if negative then - int (dec_value ds) else int (dec_value ds))
      in if ds \<noteq> [] \<and> list_all is_ascii_digit ds \<and> i64_min \<le> v \<and> v < 2 ^ 63 then Some v else None)"

subsection \<open>Lemmas on prefixes and splits\<close>

lemma starts_with_iff: "starts_with p s \<longleftrightarrow> (\<exists>t. s = p @ t)"
  unfolding starts_with_def by (metis append_eq_conv_conj append_take_drop_id)

lemma starts_with_append [simp]: "starts_with p (p @ t)"
  by (simp add: starts_with_iff)

lemma strip_prefix_Some_iff: "strip_prefix p s = Some t \<longleftrightarrow> s = p @ t"
  by (auto simp: strip_prefix_def starts_with_iff)

lemma strip_prefix_append [simp]: "strip_prefix p (p @ t) = Some t"
  by (simp add: strip_prefix_Some_iff)

lemma split_on_not_Nil [simp]: "split_on c s \<noteq> []"
  by (induction s) (auto split: list.splits)

lemma join_with_Cons: "ws \<noteq> [] \<Longrightarrow> join_with sep (w # ws) = w @ sep @ join_with sep ws"
  by (cases ws) auto

lemma join_with_Cons_char: "join_with sep ((x # w) # ws) = x # join_with sep (w # ws)"
  by (cases ws) auto

lemma join_split: "join_with [c] (split_on c s) = s"
proof (induction s)
  case Nil
  then show ?case by simp
next
  case (Cons x s)
  then show ?case
    by (cases "split_on c s") (auto simp: join_with_Cons join_with_Cons_char)
qed

lemma split_on_no_sep: "c \<notin> set s \<Longrightarrow> split_on c s = [s]"
  by (induction s) auto

lemma split_on_append_sep: "split_on c (s @ c # t) = split_on c s @ split_on c t"
proof (induction s)
  case Nil
  then show ?case by simp
next
  case (Cons x s)
  then show ?case by (cases "split_on c s") auto
qed

lemma split_on_no_sep_in: "w \<in> set (split_on c s) \<Longrightarrow> c \<notin> set w"
  by (induction s arbitrary: w) (fastforce split: list.splits if_splits)+

lemma hd_split_on: "hd (split_on c s) = takeWhile (\<lambda>x. x \<noteq> c) s"
  by (induction s) (auto split: list.splits)

lemma upto_first:
  "c \<notin> set u \<Longrightarrow> takeWhile (\<lambda>x. x \<noteq> c) (u @ c # v) = u"
  "c \<notin> set u \<Longrightarrow> dropWhile (\<lambda>x. x \<noteq> c) (u @ c # v) = c # v"
  by (induction u) auto

lemma split_once_Some_iff:
  "split_once c s = Some (a, b) \<longleftrightarrow> s = a @ c # b \<and> c \<notin> set a"
proof
  assume "split_once c s = Some (a, b)"
  then have "c \<in> set s" and ab: "a = takeWhile (\<lambda>x. x \<noteq> c) s" "b = tl (dropWhile (\<lambda>x. x \<noteq> c) s)"
    by (auto simp: split_once_def split: if_splits)
  then obtain u v where "s = u @ c # v" "c \<notin> set u" by (meson split_list_first)
  with ab show "s = a @ c # b \<and> c \<notin> set a" by (simp add: upto_first)
next
  assume "s = a @ c # b \<and> c \<notin> set a"
  then show "split_once c s = Some (a, b)" by (simp add: split_once_def upto_first)
qed

lemma split_once_None_iff: "split_once c s = None \<longleftrightarrow> c \<notin> set s"
  by (simp add: split_once_def)

lemma split_on_join:
  \<comment> \<open>splitting a joined list at its separator gives the list back\<close>
  "ws \<noteq> [] \<Longrightarrow> \<forall>w\<in>set ws. c \<notin> set w \<Longrightarrow> split_on c (join_with [c] ws) = ws"
proof (induction ws)
  case (Cons w ws)
  then show ?case
    by (cases "ws = []") (simp_all add: split_on_no_sep join_with_Cons split_on_append_sep)
qed simp

lemma text_lines_part:
  assumes "w \<in> set (text_lines s)"
  shows "\<exists>u\<in>set (split_on (CHR 0x0A) s). set w \<subseteq> set u"
proof -
  have strip: "set (strip_cr u) \<subseteq> set u" for u
    by (auto simp: strip_cr_def dest: in_set_butlastD)
  from assms consider u where "u \<in> set (butlast (split_on (CHR 0x0A) s))" "w = strip_cr u"
    | "w = last (split_on (CHR 0x0A) s)"
    by (auto simp: text_lines_def Let_def split: if_splits)
  then show ?thesis
    by cases (metis strip in_set_butlastD, metis last_in_set split_on_not_Nil order.refl)
qed

lemma text_lines_no_feed: "w \<in> set (text_lines s) \<Longrightarrow> CHR 0x0A \<notin> set w"
  using text_lines_part split_on_no_sep_in by blast

lemma split_on_subset: "w \<in> set (split_on c s) \<Longrightarrow> set w \<subseteq> set s"
  by (induction s arbitrary: w) (force split: list.splits if_splits)+

lemma text_lines_subset: "w \<in> set (text_lines s) \<Longrightarrow> set w \<subseteq> set s"
  using text_lines_part split_on_subset by blast

lemma text_lines_unlines:
  \<comment> \<open>lines without carriage returns, each followed by a line feed, are read back\<close>
  assumes "ws \<noteq> []" and "\<forall>w\<in>set ws. CHR 0x0A \<notin> set w \<and> CHR 0x0D \<notin> set w"
  shows "text_lines (join_with [CHR 0x0A] ws @ [CHR 0x0A]) = ws"
proof -
  have "split_on (CHR 0x0A) (join_with [CHR 0x0A] ws @ [CHR 0x0A]) = ws @ [[]]"
    using split_on_append_sep [of "CHR 0x0A" "join_with [CHR 0x0A] ws" "[]"] assms
    by (simp add: split_on_join)
  moreover have "map strip_cr ws = ws"
    using assms(2) last_in_set by (intro map_idI) (fastforce simp: strip_cr_def)
  ultimately show ?thesis by (simp add: text_lines_def Let_def)
qed

lemma find_str_Some:
  "find_str p s = Some i \<Longrightarrow> starts_with p (drop i s) \<and> i \<le> length s
     \<and> (\<forall>j<i. \<not> starts_with p (drop j s))"
proof (induction s arbitrary: i)
  case Nil
  then show ?case by (simp add: starts_with_def split: if_splits)
next
  case (Cons c s)
  show ?case
  proof (cases "starts_with p (c # s)")
    case True
    with Cons.prems show ?thesis by simp
  next
    case False
    with Cons.prems obtain k where "find_str p s = Some k" "i = Suc k" by auto
    with Cons.IH [of k] False show ?thesis by (auto simp: less_Suc_eq_0_disj)
  qed
qed

lemma find_str_None: "find_str p s = None \<Longrightarrow> \<not> starts_with p (drop j s)"
proof (induction s arbitrary: j)
  case Nil
  then show ?case by (auto simp: starts_with_def split: if_splits)
next
  case (Cons c s)
  then show ?case by (cases j) (auto split: if_splits)
qed

subsection \<open>Lemmas on trimming\<close>

definition no_prefix :: "string list \<Rightarrow> string \<Rightarrow> bool" where
  "no_prefix ws s = (\<forall>w\<in>set ws. w \<noteq> [] \<longrightarrow> \<not> starts_with w s)"

lemma find_no_prefix: "find (\<lambda>w. w \<noteq> [] \<and> starts_with w s) ws = None \<longleftrightarrow> no_prefix ws s"
  by (auto simp: find_None_iff no_prefix_def)

lemma trim_while_no_prefix: "no_prefix ws (trim_while ws s)"
proof (induction ws s rule: trim_while.induct)
  case (1 ws s)
  show ?case
  proof (cases "find (\<lambda>w. w \<noteq> [] \<and> starts_with w s) ws")
    case None
    then show ?thesis by (simp add: trim_while.simps [of ws s] find_no_prefix [symmetric])
  next
    case (Some w)
    then show ?thesis using "1.IH" by (simp add: trim_while.simps [of ws s])
  qed
qed

lemma trim_while_id: "no_prefix ws s \<Longrightarrow> trim_while ws s = s"
  by (simp add: trim_while.simps [of ws s] find_no_prefix [symmetric])

lemma trim_while_suffix: "\<exists>p. s = p @ trim_while ws s"
proof (induction ws s rule: trim_while.induct)
  case (1 ws s)
  show ?case
  proof (cases "find (\<lambda>w. w \<noteq> [] \<and> starts_with w s) ws")
    case None
    then show ?thesis by (simp add: trim_while.simps [of ws s])
  next
    case (Some w)
    then obtain p where "drop (length w) s = p @ trim_while ws (drop (length w) s)" using "1.IH" by blast
    then have "s = (take (length w) s @ p) @ trim_while ws (drop (length w) s)"
      by (metis append.assoc append_take_drop_id)
    moreover have "trim_while ws s = trim_while ws (drop (length w) s)"
      using Some by (simp add: trim_while.simps [of ws s])
    ultimately show ?thesis by metis
  qed
qed

definition trimmed :: "string \<Rightarrow> bool" where
  "trimmed s = (no_prefix white_space s \<and> no_prefix (map rev white_space) (rev s))"

lemma starts_with_extend: "starts_with w u \<Longrightarrow> starts_with w (u @ v)"
  by (metis append.assoc append_take_drop_id append_eq_conv_conj starts_with_def)

lemma trimmed_trim: "trimmed (trim s)"
proof -
  let ?t = "trim_start s"
  obtain p where "rev ?t = p @ trim_while (map rev white_space) (rev ?t)" using trim_while_suffix by blast
  then have "?t = trim s @ rev p" by (metis rev_append rev_rev_ident trim_def trim_end_def)
  moreover have "no_prefix white_space ?t" by (simp add: trim_start_def trim_while_no_prefix)
  ultimately have "no_prefix white_space (trim s)"
    by (metis no_prefix_def starts_with_extend)
  moreover have "no_prefix (map rev white_space) (rev (trim s))"
    by (simp add: trim_def trim_end_def trim_while_no_prefix)
  ultimately show ?thesis by (simp add: trimmed_def)
qed

lemma trim_trimmed: "trimmed s \<Longrightarrow> trim s = s"
  by (simp add: trimmed_def trim_def trim_start_def trim_end_def trim_while_id)

lemma trim_graphic:
  \<comment> \<open>a text with a visible ASCII character at both ends is its own trimmed form\<close>
  assumes "s = [] \<or> is_ascii_graphic (hd s) \<and> is_ascii_graphic (last s)"
  shows "trim s = s"
proof (rule trim_trimmed)
  have "list_all (\<lambda>w. w \<noteq> [] \<and> \<not> is_ascii_graphic (hd w) \<and> \<not> is_ascii_graphic (last w)) white_space"
    by code_simp
  then have ws: "w \<in> set white_space \<Longrightarrow> w \<noteq> [] \<and> \<not> is_ascii_graphic (hd w) \<and> \<not> is_ascii_graphic (last w)" for w
    by (simp add: list_all_iff)
  have "starts_with w u \<Longrightarrow> w \<noteq> [] \<Longrightarrow> u \<noteq> [] \<and> hd u = hd w" for w u
    by (cases w; cases u) (auto simp: starts_with_def)
  then show "trimmed s"
    using assms ws unfolding trimmed_def no_prefix_def
    by (fastforce simp: hd_rev)
qed

subsection \<open>Lemmas on decimal numbers\<close>

lemma digit_value_char [simp]: "d < 10 \<Longrightarrow> digit_value (digit_char d) = d"
  by (simp add: digit_value_def digit_char_def of_char_of)

lemma digit_char_value [simp]: "is_ascii_digit c \<Longrightarrow> digit_char (digit_value c) = c"
  by (simp add: is_ascii_digit_def digit_char_def digit_value_def less_eq_char_def)

lemma is_ascii_digit_char [simp]: "d < 10 \<Longrightarrow> is_ascii_digit (digit_char d)"
  by (simp add: is_ascii_digit_def digit_char_def less_eq_char_def of_char_of)

lemma digit_value_less: "is_ascii_digit c \<Longrightarrow> digit_value c < 10"
  by (simp add: is_ascii_digit_def digit_value_def less_eq_char_def) arith

lemma digit_char_0 [simp]: "digit_char 0 = CHR ''0''"
  using char_of_char [where 'a = nat and c = "CHR ''0''"] by (simp add: digit_char_def del: char_of_char)

lemma digit_char_eq_0_iff: "d < 10 \<Longrightarrow> digit_char d = CHR ''0'' \<longleftrightarrow> d = 0"
  by (metis digit_char_0 digit_value_char zero_less_numeral)

lemma dec_value_snoc [simp]: "dec_value (s @ [c]) = 10 * dec_value s + digit_value c"
  by (simp add: dec_value_def)

lemma dec_value_Nil [simp]: "dec_value [] = 0"
  by (simp add: dec_value_def)

lemma dec_value_show_nat [simp]: "dec_value (show_nat n) = n"
proof (induction n rule: show_nat.induct)
  case (1 n)
  then show ?case
    using dec_value_snoc [of "[]" "digit_char n"]
    by (auto simp: show_nat.simps [of n])
qed

lemma show_nat_digits [simp]: "list_all is_ascii_digit (show_nat n)"
  by (induction n rule: show_nat.induct) (subst show_nat.simps, auto)

lemma show_nat_not_Nil [simp]: "show_nat n \<noteq> []"
  by (subst show_nat.simps) simp

lemma show_nat_inj [simp]: "show_nat m = show_nat n \<longleftrightarrow> m = n"
  by (metis dec_value_show_nat)

lemma hd_show_nat: "0 < n \<Longrightarrow> hd (show_nat n) \<noteq> CHR ''0''"
proof (induction n rule: show_nat.induct)
  case (1 n)
  show ?case
  proof (cases "n < 10")
    case True
    with "1.prems" show ?thesis by (subst show_nat.simps) (simp add: digit_char_eq_0_iff)
  next
    case False
    then have "0 < n div 10" by simp
    with "1.IH" False show ?thesis by (subst show_nat.simps) simp
  qed
qed

lemma show_dec_value:
  assumes "s \<noteq> []" and "list_all is_ascii_digit s" and "hd s \<noteq> CHR ''0''"
  shows "show_nat (dec_value s) = s \<and> 0 < dec_value s"
  using assms
proof (induction s rule: rev_induct)
  case Nil
  then show ?case by simp
next
  case (snoc c s)
  then have c: "is_ascii_digit c" by simp
  show ?case
  proof (cases "s = []")
    case True
    with snoc.prems have "0 < digit_value c" using digit_char_value [OF c]
      by (intro Nat.gr0I) auto
    with True c digit_value_less [OF c] show ?thesis
      using dec_value_snoc [of "[]" c] by (subst show_nat.simps) auto
  next
    case False
    with snoc have IH: "show_nat (dec_value s) = s" "0 < dec_value s" by auto
    have "(10 * dec_value s + digit_value c) div 10 = dec_value s"
      "(10 * dec_value s + digit_value c) mod 10 = digit_value c"
      using digit_value_less [OF c] by auto
    with IH c show ?thesis by (subst show_nat.simps) auto
  qed
qed

lemma show_nat_no_plus: "show_nat n = c # cs \<Longrightarrow> c \<noteq> CHR ''+''"
  using show_nat_digits [of n] by (auto simp: is_ascii_digit_def)

lemma parse_show_uint [simp]: "parse_uint (show_uint w) = Some w"
proof -
  have "(case show_nat (unat w) of [] \<Rightarrow> [] | c # cs \<Rightarrow> if c = CHR ''+'' then cs else show_nat (unat w))
      = show_nat (unat w)"
    using show_nat_no_plus by (cases "show_nat (unat w)") auto
  then show ?thesis
    by (simp add: parse_uint_def show_uint_def Let_def try_from_nat_Some_iff)
qed

lemma parse_uint_digits:
  assumes "s \<noteq> []" and "list_all is_ascii_digit s"
  shows "parse_uint s = (try_from_nat (dec_value s) :: 'a::len word option)"
  using assms by (cases s) (auto simp: parse_uint_def is_ascii_digit_def Let_def)

lemma parse_uint_Some_show:
  assumes "s \<noteq> []" and "list_all is_ascii_digit s" and "hd s \<noteq> CHR ''0''"
    and "parse_uint s = Some (w::'a::len word)"
  shows "show_uint w = s \<and> 0 < w"
  using assms show_dec_value [OF assms(1-3)]
  by (auto simp: parse_uint_digits try_from_nat_Some_iff show_uint_def word_gt_0 unat_gt_0)

subsection \<open>Hexadecimal digits\<close>

definition hex_char :: "nat \<Rightarrow> char" where
  "hex_char d = (if d < 10 then char_of (48 + d) else char_of (87 + d))"

definition hex_digit_value :: "char \<Rightarrow> nat" where
  \<comment> \<open>of a digit \<open>0\<close> to \<open>9\<close> or \<open>a\<close> to \<open>f\<close>\<close>
  "hex_digit_value c = (if is_ascii_digit c then of_char c - 48 else of_char c - 87)"

definition is_lower_hex :: "char \<Rightarrow> bool" where
  "is_lower_hex c = (is_ascii_digit c \<or> (CHR ''a'' \<le> c \<and> c \<le> CHR ''f''))"

fun hex_fixed :: "nat \<Rightarrow> nat \<Rightarrow> string" where
  \<comment> \<open>\<open>{:0kx}\<close> of a number of at most \<open>k\<close> digits\<close>
  "hex_fixed 0 n = []"
| "hex_fixed (Suc k) n = hex_fixed k (n div 16) @ [hex_char (n mod 16)]"

definition hex_value :: "string \<Rightarrow> nat" where
  "hex_value s = foldl (\<lambda>v c. 16 * v + hex_digit_value c) 0 s"

lemma hex_digit_value_char: "d < 16 \<Longrightarrow> hex_digit_value (hex_char d) = d"
  by (auto simp: hex_digit_value_def hex_char_def is_ascii_digit_def less_eq_char_def of_char_of)

lemma hex_char_value: "is_lower_hex c \<Longrightarrow> hex_char (hex_digit_value c) = c"
  by (auto simp: is_lower_hex_def hex_char_def hex_digit_value_def is_ascii_digit_def
      less_eq_char_def)

lemma is_lower_hex_char: "d < 16 \<Longrightarrow> is_lower_hex (hex_char d)"
  by (auto simp: is_lower_hex_def hex_char_def is_ascii_digit_def less_eq_char_def of_char_of)

lemma hex_digit_value_less: "is_lower_hex c \<Longrightarrow> hex_digit_value c < 16"
  by (auto simp: is_lower_hex_def hex_digit_value_def is_ascii_digit_def less_eq_char_def)

lemma length_hex_fixed [simp]: "length (hex_fixed k n) = k"
  by (induction k arbitrary: n) auto

lemma hex_fixed_hex: "list_all is_lower_hex (hex_fixed k n)"
  by (induction k arbitrary: n) (auto simp: is_lower_hex_char)

lemma hex_value_fixed: "n < 16 ^ k \<Longrightarrow> hex_value (hex_fixed k n) = n"
proof (induction k arbitrary: n)
  case 0
  then show ?case by (simp add: hex_value_def)
next
  case (Suc k)
  then have "n div 16 < 16 ^ k" by (simp add: less_mult_imp_div_less mult.commute)
  from Suc.IH [OF this] show ?case by (simp add: hex_value_def hex_digit_value_char)
qed

lemma hex_fixed_value:
  "list_all is_lower_hex s \<Longrightarrow> hex_fixed (length s) (hex_value s) = s \<and> hex_value s < 16 ^ length s"
proof (induction s rule: rev_induct)
  case Nil
  then show ?case by (simp add: hex_value_def)
next
  case (snoc c s)
  then have c: "hex_digit_value c < 16" "hex_char (hex_digit_value c) = c"
    by (simp_all add: hex_digit_value_less hex_char_value)
  moreover have "hex_value (s @ [c]) = 16 * hex_value s + hex_digit_value c"
    by (simp add: hex_value_def)
  ultimately show ?case using snoc by auto
qed

subsection \<open>The contract of a text form\<close>

text \<open>
  A type with \<^verbatim>\<open>FromStr\<close> and \<^verbatim>\<open>Display\<close>, which serde also uses: every value that can
  be made displays as a text that parses to the same value. In an exact form the accepted text is
  moreover the displayed one, so a value has one text only.
\<close>

locale text_form =
  fixes parse :: "string \<Rightarrow> ('e, 'a) result"
    and display :: "'a \<Rightarrow> string"
    and valid :: "'a \<Rightarrow> bool"
  assumes parse_display: "valid v \<Longrightarrow> parse (display v) = Ok v"
    and parse_valid: "parse s = Ok v \<Longrightarrow> valid v"
begin

lemma display_inj: "valid v \<Longrightarrow> valid w \<Longrightarrow> display v = display w \<Longrightarrow> v = w"
  by (metis parse_display sum.inject(2))

lemma reparse: "parse s = Ok v \<Longrightarrow> parse (display v) = Ok v"
  by (blast intro: parse_display parse_valid)

lemma valid_iff_parsed: "valid v \<longleftrightarrow> (\<exists>s. parse s = Ok v)"
  by (blast intro: parse_display parse_valid)

end

locale exact_text_form = text_form +
  assumes display_parse: "parse s = Ok v \<Longrightarrow> display v = s"
begin

lemma parse_inj: "parse s = Ok v \<Longrightarrow> parse t = Ok v \<Longrightarrow> s = t"
  by (metis display_parse)

lemma accepts_iff_displayed: "is_ok (parse s) \<longleftrightarrow> (\<exists>v. valid v \<and> display v = s)"
  by (cases "parse s") (auto dest: display_parse parse_valid simp: parse_display)

lemma parse_Ok_iff: "parse s = Ok v \<longleftrightarrow> valid v \<and> display v = s"
  by (auto dest: display_parse parse_valid simp: parse_display)

end

end
