(* ===== verification/Core_Ids.thy ===== *)
theory Core_Ids
  imports Rust_Text
begin

section \<open>Validated identifiers\<close>

text \<open>
  Models src/v3/crates/bmac-core/src/ids.rs (and \<^verbatim>\<open>InvalidValue\<close> of lib.rs): host slots,
  VMIDs, guest names, snapshot GUIDs, and the newtypes the \<^verbatim>\<open>text_id!\<close> macro makes. A
  newtype over \<^verbatim>\<open>String\<close> is its string. An \<^verbatim>\<open>InvalidValue\<close> keeps the three
  arguments its message is formatted from. \<^verbatim>\<open>JobId\<close> wraps the uuid crate's type and is
  left out; where a job's identifier is only compared it is a 128-bit word.
\<close>

datatype invalid_value = InvalidValue (iv_kind: string) (iv_text: string) (iv_why: string)

definition text_id_from_str ::
    "string \<Rightarrow> (string \<Rightarrow> (string, unit) result) \<Rightarrow> string \<Rightarrow> (invalid_value, string) result" where
  "text_id_from_str kind check text =
     and_then (map_err (InvalidValue kind text) (check text)) (\<lambda>_. Ok text)"

definition positive_decimal :: "string \<Rightarrow> bool" where
  "positive_decimal text =
     (text \<noteq> [] \<and> text ! 0 \<noteq> CHR ''0'' \<and> list_all is_ascii_digit text)"

definition lower_hex :: "string \<Rightarrow> nat \<Rightarrow> (string, unit) result" where
  "lower_hex text len =
     (if length text \<noteq> len then Err ''wrong length''
      else if \<not> list_all (\<lambda>b. is_ascii_digit b \<or> (CHR ''a'' \<le> b \<and> b \<le> CHR ''f'')) text
      then Err ''only lowercase hex digits are allowed''
      else Ok ())"

subsection \<open>Host slots\<close>

datatype host_slot = HostSlot (host_slot_number: u8)

instantiation host_slot :: linorder
begin

definition less_eq_host_slot :: "host_slot \<Rightarrow> host_slot \<Rightarrow> bool" where
  "less_eq_host_slot a b = (host_slot_number a \<le> host_slot_number b)"

definition less_host_slot :: "host_slot \<Rightarrow> host_slot \<Rightarrow> bool" where
  "less_host_slot a b = (host_slot_number a < host_slot_number b)"

instance
  by standard (auto simp: less_eq_host_slot_def less_host_slot_def host_slot.expand)

end

definition HOST_SLOT_MAX :: u8 where
  "HOST_SLOT_MAX = 32"

definition host_slot_new :: "u8 \<Rightarrow> (invalid_value, host_slot) result" where
  "host_slot_new number =
     (if 1 \<le> number \<and> number \<le> HOST_SLOT_MAX then Ok (HostSlot number)
      else Err (InvalidValue ''host slot'' (show_uint number) ''must be 1 to 32''))"

definition host_slot_all :: "host_slot list" where
  "host_slot_all = map (\<lambda>n. HostSlot (of_nat n)) [1..<unat HOST_SLOT_MAX + 1]"

definition host_slot_from_str :: "string \<Rightarrow> (invalid_value, host_slot) result" where
  "host_slot_from_str text =
     (let invalid = InvalidValue ''host name'' text ''expected mox1 to mox32'' in
      and_then (ok_or invalid (strip_prefix ''mox'' text)) (\<lambda>digits.
        if \<not> positive_decimal digits \<or> 2 < length digits then Err invalid
        else and_then (ok_or invalid (parse_uint digits))
               (\<lambda>n. map_err (\<lambda>_. invalid) (host_slot_new n))))"

definition host_slot_display :: "host_slot \<Rightarrow> string" where
  "host_slot_display h = ''mox'' @ show_uint (host_slot_number h)"

definition host_slot_valid :: "host_slot \<Rightarrow> bool" where
  "host_slot_valid h = (1 \<le> host_slot_number h \<and> host_slot_number h \<le> HOST_SLOT_MAX)"

subsection \<open>VMIDs\<close>

datatype vmid = Vmid (vmid_get: u32)

definition vmid_new :: "u32 \<Rightarrow> (invalid_value, vmid) result" where
  "vmid_new number =
     (if number = 0 then Err (InvalidValue ''VMID'' ''0'' ''must be positive'')
      else Ok (Vmid number))"

definition vmid_from_str :: "string \<Rightarrow> (invalid_value, vmid) result" where
  "vmid_from_str text =
     (if \<not> positive_decimal text
      then Err (InvalidValue ''VMID'' text ''expected a positive whole number'')
      else and_then (ok_or (InvalidValue ''VMID'' text ''too large'') (parse_uint text))
             (\<lambda>number. Ok (Vmid number)))"

definition vmid_try_from_u64 :: "u64 \<Rightarrow> (invalid_value, vmid) result" where
  "vmid_try_from_u64 number =
     and_then (ok_or (InvalidValue ''VMID'' (show_uint number) ''too large'')
                (try_from_nat (unat number)))
       vmid_new"

definition vmid_into_u64 :: "vmid \<Rightarrow> u64" where
  "vmid_into_u64 v = ucast (vmid_get v)"

definition vmid_display :: "vmid \<Rightarrow> string" where
  "vmid_display v = show_uint (vmid_get v)"

definition vmid_valid :: "vmid \<Rightarrow> bool" where
  "vmid_valid v = (0 < vmid_get v)"

subsection \<open>Guest names\<close>

datatype guest_name = Production u32 | Staging u32 u32

fun is_production :: "guest_name \<Rightarrow> bool" where
  "is_production (Production _) = True"
| "is_production (Staging _ _) = False"

fun production :: "guest_name \<Rightarrow> guest_name" where
  "production (Production n) = Production n"
| "production (Staging _ source) = Production source"

definition parse_prod :: "string \<Rightarrow> u32 option" where
  "parse_prod text =
     Option.bind (strip_prefix ''prod'' text)
       (\<lambda>digits. if positive_decimal digits then parse_uint digits else None)"

definition guest_name_from_str :: "string \<Rightarrow> (invalid_value, guest_name) result" where
  "guest_name_from_str text =
     (let invalid = InvalidValue ''guest name'' text ''expected prodN or stageMprodN'' in
      case parse_prod text of
        Some number \<Rightarrow> Ok (Production number)
      | None \<Rightarrow>
          and_then (ok_or invalid (strip_prefix ''stage'' text)) (\<lambda>rest.
          and_then (ok_or invalid (find_str ''prod'' rest)) (\<lambda>split.
            let digits = take split rest; source = drop split rest in
            if \<not> positive_decimal digits then Err invalid
            else and_then (ok_or invalid (parse_uint digits)) (\<lambda>number.
                 and_then (ok_or invalid (parse_prod source)) (\<lambda>source.
                   Ok (Staging number source))))))"

fun guest_name_display :: "guest_name \<Rightarrow> string" where
  "guest_name_display (Production number) = ''prod'' @ show_uint number"
| "guest_name_display (Staging number source) =
     ''stage'' @ show_uint number @ ''prod'' @ show_uint source"

fun guest_name_valid :: "guest_name \<Rightarrow> bool" where
  "guest_name_valid (Production number) = (0 < number)"
| "guest_name_valid (Staging number source) = (0 < number \<and> 0 < source)"

fun guest_name_key :: "guest_name \<Rightarrow> nat \<times> u32 \<times> u32" where
  \<comment> \<open>the derived \<open>Ord\<close> compares the variant, then the fields in order\<close>
  "guest_name_key (Production number) = (0, number, 0)"
| "guest_name_key (Staging number source) = (1, number, source)"

instantiation guest_name :: linorder
begin

definition less_eq_guest_name :: "guest_name \<Rightarrow> guest_name \<Rightarrow> bool" where
  "less_eq_guest_name a b = (guest_name_key a \<le> guest_name_key b)"

definition less_guest_name :: "guest_name \<Rightarrow> guest_name \<Rightarrow> bool" where
  "less_guest_name a b = (guest_name_key a < guest_name_key b)"

instance
proof
  fix x y :: guest_name
  assume "x \<le> y" "y \<le> x"
  then have "guest_name_key x = guest_name_key y"
    unfolding less_eq_guest_name_def by (rule order.antisym)
  then show "x = y" by (cases x; cases y) simp_all
qed (auto simp: less_eq_guest_name_def less_guest_name_def)

end

subsection \<open>Snapshot GUIDs\<close>

datatype snapshot_guid = SnapshotGuid (snapshot_guid_get: u64)

definition snapshot_guid_from_str :: "string \<Rightarrow> (invalid_value, snapshot_guid) result" where
  "snapshot_guid_from_str text =
     (if text = [] \<or> 20 < length text \<or> \<not> list_all is_ascii_digit text
      then Err (InvalidValue ''snapshot GUID'' text ''expected 1 to 20 decimal digits'')
      else and_then (ok_or (InvalidValue ''snapshot GUID'' text ''larger than 64 bits'')
                       (parse_uint text))
             (\<lambda>value. Ok (SnapshotGuid value)))"

definition snapshot_guid_display :: "snapshot_guid \<Rightarrow> string" where
  "snapshot_guid_display g = show_uint (snapshot_guid_get g)"

subsection \<open>The identifiers made by \<^verbatim>\<open>text_id!\<close>\<close>

definition first_byte :: "(char \<Rightarrow> bool) \<Rightarrow> string \<Rightarrow> bool" where
  "first_byte p text = (case text of [] \<Rightarrow> False | b # _ \<Rightarrow> p b)"

definition operation_id_word :: "string \<Rightarrow> (string, unit) result" where
  "operation_id_word word =
     (if \<not> first_byte is_ascii_lowercase word
      then Err ''each dot-separated word must start with a lowercase letter''
      else if \<not> list_all (\<lambda>b. is_ascii_lowercase b \<or> is_ascii_digit b \<or> b = CHR ''_'') (tl word)
      then Err ''only lowercase letters, digits, underscores, and dots are allowed''
      else Ok ())"

definition operation_id_check :: "string \<Rightarrow> (string, unit) result" where
  "operation_id_check text =
     (if text = [] \<or> 64 < length text then Err ''must be 1 to 64 characters''
      else try_for_each operation_id_word (split_on CHR ''.'' text))"

definition purpose_check :: "string \<Rightarrow> (string, unit) result" where
  "purpose_check text =
     (if \<not> first_byte is_ascii_lowercase text then Err ''must start with a lowercase letter''
      else if list_ex (\<lambda>word. word = []
                 \<or> \<not> list_all (\<lambda>b. is_ascii_lowercase b \<or> is_ascii_digit b) word)
              (split_on CHR ''-'' text)
      then Err ''only lowercase letters and digits, in words joined by single hyphens''
      else Ok ())"

definition safe_id_check :: "string \<Rightarrow> (string, unit) result" where
  "safe_id_check text =
     (if \<not> first_byte is_ascii_alphanumeric text then Err ''must start with a letter or digit''
      else if 256 < length text then Err ''longer than 256 characters''
      else if \<not> list_all (\<lambda>b. is_ascii_alphanumeric b \<or> b \<in> set ''_.:/@+-'') (tl text)
      then Err ''only letters, digits, and _.:/@+- are allowed''
      else Ok ())"

definition sha256_hex_check :: "string \<Rightarrow> (string, unit) result" where
  "sha256_hex_check text = lower_hex text 64"

definition snapshot_name_check :: "string \<Rightarrow> (string, unit) result" where
  "snapshot_name_check text =
     (if \<not> first_byte is_ascii_alphabetic text then Err ''must start with a letter''
      else if 40 < length text then Err ''longer than 40 characters''
      else if \<not> list_all (\<lambda>b. is_ascii_alphanumeric b \<or> b \<in> set ''._-'') (tl text)
      then Err ''only letters, digits, and ._- are allowed''
      else Ok ())"

definition mac_address_check :: "string \<Rightarrow> (string, unit) result" where
  "mac_address_check text =
     (let parts = split_on CHR '':'' text in
      if length parts \<noteq> 6 \<or> list_ex (\<lambda>p. \<not> is_ok (lower_hex p 2)) parts
      then Err ''expected six lowercase hex pairs separated by colons''
      else Ok ())"

definition domain_label_check :: "string \<Rightarrow> (string, unit) result" where
  "domain_label_check text =
     (if text = [] \<or> 63 < length text then Err ''must be 1 to 63 characters''
      else if starts_with ''-'' text \<or> ends_with ''-'' text
      then Err ''must not start or end with a hyphen''
      else if \<not> list_all (\<lambda>b. is_ascii_lowercase b \<or> is_ascii_digit b \<or> b = CHR ''-'') text
      then Err ''only lowercase letters, digits, and hyphens are allowed''
      else Ok ())"

definition ZFS_NAME_MAX :: nat where
  "ZFS_NAME_MAX = 255"

definition zfs_component :: "string \<Rightarrow> (string, unit) result" where
  "zfs_component text =
     (if text = [] then Err ''has an empty component''
      else if \<not> list_all (\<lambda>b. is_ascii_alphanumeric b \<or> b \<in> set ''_-.:'') text
      then Err ''only letters, digits, and _-.: are allowed''
      else if text = ''.'' \<or> text = ''..'' then Err ''a component must not be . or ..''
      else Ok ())"

definition pool_name_check :: "string \<Rightarrow> (string, unit) result" where
  "pool_name_check text =
     and_then (zfs_component text) (\<lambda>_.
       if \<not> first_byte is_ascii_alphabetic text then Err ''must start with a letter''
       else if ZFS_NAME_MAX < length text then Err ''longer than 255 characters''
       else if list_ex (\<lambda>r. starts_with r text) [''mirror'', ''raidz'', ''draid'', ''spare'']
               \<or> text = ''log''
       then Err ''is reserved by ZFS''
       else if text ! 0 = CHR ''c'' \<and> 1 < length text \<and> is_ascii_digit (text ! 1)
       then Err ''is reserved by ZFS''
       else Ok ())"

definition pool_name_from_str :: "string \<Rightarrow> (invalid_value, string) result" where
  "pool_name_from_str = text_id_from_str ''pool name'' pool_name_check"

definition dataset_name_check :: "string \<Rightarrow> (string, unit) result" where
  "dataset_name_check text =
     (if ZFS_NAME_MAX < length text then Err ''longer than 255 characters''
      else and_then (map_err (\<lambda>_. ''does not start with a valid pool name'')
                       (pool_name_from_str (hd (split_on CHR ''/'' text))))
             (\<lambda>_. try_for_each zfs_component (tl (split_on CHR ''/'' text))))"

definition dataset_name_from_str :: "string \<Rightarrow> (invalid_value, string) result" where
  "dataset_name_from_str = text_id_from_str ''dataset name'' dataset_name_check"

definition dataset_pool :: "string \<Rightarrow> string" where
  "dataset_pool dataset = hd (split_on CHR ''/'' dataset)"

definition dataset_child :: "string \<Rightarrow> string \<Rightarrow> (invalid_value, string) result" where
  "dataset_child dataset component = dataset_name_from_str (dataset @ ''/'' @ component)"

subsection \<open>Every identifier keeps the contract of a text form\<close>

lemma text_id_Ok_iff [result_ops]:
  "text_id_from_str kind check text = Ok v \<longleftrightarrow> check text = Ok () \<and> v = text"
  by (cases "check text") (auto simp: text_id_from_str_def)

interpretation text_id: exact_text_form "text_id_from_str kind check" "\<lambda>v. v"
    "\<lambda>v. check v = Ok ()" for kind check
  by unfold_locales (auto simp: text_id_Ok_iff)

lemma positive_decimal_iff:
  "positive_decimal s \<longleftrightarrow> s \<noteq> [] \<and> list_all is_ascii_digit s \<and> hd s \<noteq> CHR ''0''"
  by (auto simp: positive_decimal_def hd_conv_nth)

lemma positive_decimal_show: "0 < w \<Longrightarrow> positive_decimal (show_uint w)"
  by (simp add: positive_decimal_iff show_uint_def hd_show_nat unat_gt_0 word_gt_0)

lemma parse_positive_decimal:
  "positive_decimal s \<Longrightarrow> parse_uint s = Some w \<longleftrightarrow> s = show_uint w \<and> 0 < w"
  using parse_uint_Some_show [of s w] by (auto simp: positive_decimal_iff)

lemma length_show_nat_le: "n < 100 \<Longrightarrow> length (show_nat n) \<le> 2"
  by (subst show_nat.simps, subst show_nat.simps) auto

lemma host_slot_from_str_Ok_iff:
  "host_slot_from_str text = Ok h \<longleftrightarrow> host_slot_valid h \<and> text = host_slot_display h"
proof
  assume "host_slot_from_str text = Ok h"
  then obtain digits n where d: "text = ''mox'' @ digits" "positive_decimal digits"
      "parse_uint digits = Some n" "host_slot_new n = Ok h"
    by (auto simp: host_slot_from_str_def Let_def result_ops strip_prefix_Some_iff
        split: if_splits)
  then show "host_slot_valid h \<and> text = host_slot_display h"
    by (auto simp: parse_positive_decimal host_slot_new_def host_slot_valid_def
        host_slot_display_def split: if_splits)
next
  assume v: "host_slot_valid h \<and> text = host_slot_display h"
  let ?n = "host_slot_number h"
  have "unat ?n \<le> 32" using v by (simp add: host_slot_valid_def HOST_SLOT_MAX_def word_le_nat_alt)
  then have "length (show_uint ?n) \<le> 2"
    using length_show_nat_le [of "unat ?n"] by (simp add: show_uint_def)
  moreover have "0 < ?n" using v by (auto simp: host_slot_valid_def word_gt_0 word_le_nat_alt)
  ultimately show "host_slot_from_str text = Ok h"
    using v strip_prefix_append [of "''mox''" "show_uint ?n"]
    by (simp add: host_slot_from_str_def host_slot_display_def positive_decimal_show
        host_slot_new_def host_slot_valid_def del: strip_prefix_append)
qed

interpretation host_slot: exact_text_form host_slot_from_str host_slot_display host_slot_valid
  by unfold_locales (auto simp: host_slot_from_str_Ok_iff)

lemma vmid_from_str_Ok_iff: "vmid_from_str text = Ok v \<longleftrightarrow> vmid_valid v \<and> text = vmid_display v"
  by (cases v) (auto simp: vmid_from_str_def result_ops parse_positive_decimal vmid_valid_def
      vmid_display_def positive_decimal_show split: if_splits)

interpretation vmid: exact_text_form vmid_from_str vmid_display vmid_valid
  by unfold_locales (auto simp: vmid_from_str_Ok_iff)

lemma vmid_u64_round_trip: "vmid_valid v \<Longrightarrow> vmid_try_from_u64 (vmid_into_u64 v) = Ok v"
proof -
  assume v: "vmid_valid v"
  have "(try_from_nat (unat (vmid_into_u64 v)) :: u32 option) = Some (vmid_get v)"
    by (simp add: try_from_nat_Some_iff vmid_into_u64_def unat_ucast_up)
  with v show ?thesis by (simp add: vmid_try_from_u64_def vmid_new_def vmid_valid_def word_gt_0)
qed

lemma parse_prod_Some_iff: "parse_prod text = Some n \<longleftrightarrow> 0 < n \<and> text = ''prod'' @ show_uint n"
proof
  assume "parse_prod text = Some n"
  then obtain digits where "strip_prefix ''prod'' text = Some digits" "positive_decimal digits"
      "parse_uint digits = Some n"
    by (auto simp: parse_prod_def bind_eq_Some_conv split: if_splits)
  then show "0 < n \<and> text = ''prod'' @ show_uint n"
    by (simp add: strip_prefix_Some_iff parse_positive_decimal)
next
  assume "0 < n \<and> text = ''prod'' @ show_uint n"
  then show "parse_prod text = Some n"
    using strip_prefix_append [of "''prod''" "show_uint n"]
    by (simp add: parse_prod_def positive_decimal_show del: strip_prefix_append)
qed

lemma find_str_after_digits:
  "list_all is_ascii_digit ds \<Longrightarrow> find_str ''prod'' (ds @ ''prod'' @ t) = Some (length ds)"
proof (induction ds)
  case Nil
  then show ?case by (simp add: starts_with_def)
next
  case (Cons d ds)
  then have "d \<noteq> CHR ''p''" by (auto simp: is_ascii_digit_def)
  with Cons show ?case by (simp add: starts_with_def)
qed

lemma guest_name_from_str_Ok_iff:
  "guest_name_from_str text = Ok g \<longleftrightarrow> guest_name_valid g \<and> text = guest_name_display g"
proof
  assume ok: "guest_name_from_str text = Ok g"
  show "guest_name_valid g \<and> text = guest_name_display g"
  proof (cases "parse_prod text")
    case (Some number)
    with ok show ?thesis by (auto simp: guest_name_from_str_def parse_prod_Some_iff)
  next
    case None
    with ok obtain rest i n m where "text = ''stage'' @ rest" "find_str ''prod'' rest = Some i"
        "positive_decimal (take i rest)" "parse_uint (take i rest) = Some n"
        "parse_prod (drop i rest) = Some m" "g = Staging n m"
      by (auto simp: guest_name_from_str_def Let_def result_ops strip_prefix_Some_iff
          split: if_splits)
    then show ?thesis
      using append_take_drop_id [of i rest]
      by (auto simp: parse_positive_decimal parse_prod_Some_iff)
  qed
next
  assume g: "guest_name_valid g \<and> text = guest_name_display g"
  show "guest_name_from_str text = Ok g"
  proof (cases g)
    case (Production n)
    with g have "parse_prod text = Some n" by (simp add: parse_prod_Some_iff)
    with Production show ?thesis by (simp add: guest_name_from_str_def)
  next
    case (Staging n m)
    let ?rest = "show_uint n @ ''prod'' @ show_uint m"
    have "parse_prod text = None"
      using g Staging by (cases "parse_prod text") (auto simp: parse_prod_Some_iff)
    moreover have "strip_prefix ''stage'' text = Some ?rest"
      using g Staging by (simp add: strip_prefix_Some_iff)
    moreover have "find_str ''prod'' ?rest = Some (length (show_uint n))"
      by (rule find_str_after_digits) (simp add: show_uint_def)
    moreover have "parse_prod (''prod'' @ show_uint m) = Some m"
      using g Staging by (simp add: parse_prod_Some_iff)
    ultimately show ?thesis
      using g Staging by (simp add: guest_name_from_str_def positive_decimal_show)
  qed
qed

interpretation guest_name: exact_text_form guest_name_from_str guest_name_display guest_name_valid
  by unfold_locales (auto simp: guest_name_from_str_Ok_iff)

lemma length_show_nat_bound: "n < 10 ^ k \<Longrightarrow> 0 < k \<Longrightarrow> length (show_nat n) \<le> k"
proof (induction k arbitrary: n)
  case 0
  then show ?case by simp
next
  case (Suc k)
  show ?case
  proof (cases "n < 10")
    case True
    then show ?thesis by (subst show_nat.simps) simp
  next
    case False
    with Suc.prems have "n div 10 < 10 ^ k" "0 < k" by (auto intro: Nat.gr0I simp: less_mult_imp_div_less mult.commute)
    with Suc.IH False show ?thesis by (subst show_nat.simps) simp
  qed
qed

interpretation snapshot_guid: text_form snapshot_guid_from_str snapshot_guid_display "\<lambda>g. True"
proof unfold_locales
  fix g :: snapshot_guid
  have "unat (snapshot_guid_get g) < 10 ^ 20"
    using unat_less_power [of "snapshot_guid_get g"] by simp
  then have "length (show_uint (snapshot_guid_get g)) \<le> 20"
    unfolding show_uint_def by (rule length_show_nat_bound) simp
  then show "snapshot_guid_from_str (snapshot_guid_display g) = Ok g"
    by (simp add: snapshot_guid_from_str_def snapshot_guid_display_def)
      (simp add: show_uint_def)
qed simp

subsection \<open>Properties\<close>

text \<open>
  The accepted host names are exactly \<^verbatim>\<open>mox1\<close> to \<^verbatim>\<open>mox32\<close>, without
  leading zeros, signs or trailing text.
\<close>

lemma host_slot_language:
  "is_ok (host_slot_from_str s) \<longleftrightarrow> (\<exists>n. 1 \<le> n \<and> n \<le> 32 \<and> s = ''mox'' @ show_nat n)"
proof -
  have "is_ok (host_slot_from_str s) \<longleftrightarrow>
      (\<exists>w::u8. 1 \<le> w \<and> w \<le> 32 \<and> s = ''mox'' @ show_nat (unat w))"
    by (auto simp: host_slot.accepts_iff_displayed host_slot_valid_def HOST_SLOT_MAX_def
        host_slot_display_def show_uint_def) (metis host_slot.sel)
  also have "\<dots> \<longleftrightarrow> (\<exists>n. 1 \<le> n \<and> n \<le> 32 \<and> s = ''mox'' @ show_nat n)"
  proof
    assume "\<exists>n. 1 \<le> n \<and> n \<le> 32 \<and> s = ''mox'' @ show_nat n"
    then obtain n where n: "1 \<le> n" "n \<le> 32" "s = ''mox'' @ show_nat n" by blast
    then have "unat (of_nat n :: u8) = n" by (simp add: unat_of_nat)
    with n show "\<exists>w::u8. 1 \<le> w \<and> w \<le> 32 \<and> s = ''mox'' @ show_nat (unat w)"
      by (intro exI [of _ "of_nat n"]) (simp add: word_le_nat_alt)
  qed (auto simp: word_le_nat_alt)
  finally show ?thesis .
qed

text \<open>
  A text parses to a guest name exactly when it is what that guest name displays as and its
  numbers are positive, so a guest has one name only and serde's round trip loses nothing.
\<close>

lemma guest_name_text_form:
  "guest_name_from_str text = Ok g \<longleftrightarrow> guest_name_valid g \<and> guest_name_display g = text"
  by (rule guest_name.parse_Ok_iff)

text \<open>
  A child of a dataset stays in the dataset's pool, which is a valid pool name, and no
  component of the result is empty, \<^verbatim>\<open>.\<close> or \<^verbatim>\<open>..\<close>: a component given by a
  caller cannot climb out of the dataset.
\<close>

lemma dataset_child_confined:
  assumes "dataset_child dataset component = Ok child"
  shows "child = dataset @ ''/'' @ component
    \<and> dataset_pool child = dataset_pool dataset
    \<and> pool_name_check (dataset_pool child) = Ok ()
    \<and> {[], ''.'', ''..''} \<inter> set (split_on CHR ''/'' child) = {}"
proof -
  have child: "child = dataset @ ''/'' @ component" and check: "dataset_name_check child = Ok ()"
    using assms by (auto simp: dataset_child_def dataset_name_from_str_def result_ops)
  have split: "split_on CHR ''/'' child = split_on CHR ''/'' dataset @ split_on CHR ''/'' component"
    using child split_on_append_sep by simp
  have pool: "pool_name_check (dataset_pool child) = Ok ()"
    and rest: "\<forall>w\<in>set (tl (split_on CHR ''/'' child)). zfs_component w = Ok ()"
    using check by (auto simp: dataset_name_check_def pool_name_from_str_def dataset_pool_def
        result_ops split: if_splits)
  have "zfs_component (hd (split_on CHR ''/'' child)) = Ok ()"
    using pool by (auto simp: pool_name_check_def dataset_pool_def result_ops)
  with rest have "\<forall>w\<in>set (split_on CHR ''/'' child). zfs_component w = Ok ()"
    by (metis list.collapse set_ConsD split_on_not_Nil)
  then have "{[], ''.'', ''..''} \<inter> set (split_on CHR ''/'' child) = {}"
    by (auto simp: zfs_component_def split: if_splits)
  with child pool split show ?thesis by (simp add: dataset_pool_def hd_append)
qed

lemma dataset_child_confined_witness:
  "dataset_pool ''tank/data/vm-100-disk-0'' = ''tank''"
proof -
  have "dataset_child ''tank/data'' ''vm-100-disk-0'' = Ok ''tank/data/vm-100-disk-0''"
    by code_simp
  from dataset_child_confined [OF this] show ?thesis by code_simp
qed

text \<open>
  Every snapshot GUID displays as a text that parses back to it, but the parser also takes
  leading zeros, which the display drops: the accepted text is not always the displayed one.
\<close>

lemma snapshot_guid_leading_zeros:
  "snapshot_guid_from_str (snapshot_guid_display g) = Ok g
   \<and> snapshot_guid_from_str ''007'' = Ok (SnapshotGuid 7)
   \<and> snapshot_guid_display (SnapshotGuid 7) = ''7''"
proof (intro conjI)
  show "snapshot_guid_from_str (snapshot_guid_display g) = Ok g"
    by (rule snapshot_guid.parse_display) simp
  show "snapshot_guid_from_str ''007'' = Ok (SnapshotGuid 7)"
    by (simp add: snapshot_guid_from_str_def parse_uint_def try_from_nat_def dec_value_def
        digit_value_def is_ascii_digit_def less_eq_char_def of_char_def ok_or_def and_then_def)
  show "snapshot_guid_display (SnapshotGuid 7) = ''7''"
    by (simp add: snapshot_guid_display_def show_uint_def show_nat.simps [of 7] digit_char_def
        char_of_def bit_Suc_0_iff)
qed

end
