(* ===== verification/Storage_Layout.thy ===== *)
theory Storage_Layout
  imports Core_Ids
begin

section \<open>Pool layouts\<close>

text \<open>
  The model of src/v3/crates/bmac-storage/src/layout.rs: disks named under
  \<^verbatim>\<open>/dev/disk/by-id/\<close>, vdev classes and types with their structural limits, and the stored
  pool layout with its validation. serde's JSON reader is a parameter of \<open>layout_from_json\<close>.
\<close>

definition SCHEMA_VERSION :: u32 where
  "SCHEMA_VERSION = 1"

definition DEFAULT_ASHIFT :: u8 where
  "DEFAULT_ASHIFT = 12"

definition MIN_ASHIFT :: u8 where
  "MIN_ASHIFT = 9"

definition MAX_ASHIFT :: u8 where
  "MAX_ASHIFT = 16"

subsection \<open>Classes and types\<close>

datatype vdev_class = Data | Special | Log | Cache | Spare

datatype vdev_type = Single | Mirror | Raidz1 | Raidz2 | Raidz3

definition VDEV_CLASS_ALL :: "vdev_class list" where
  "VDEV_CLASS_ALL = [Data, Special, Log, Cache, Spare]"

fun class_as_str :: "vdev_class \<Rightarrow> string" where
  "class_as_str Data = ''data''"
| "class_as_str Special = ''special''"
| "class_as_str Log = ''log''"
| "class_as_str Cache = ''cache''"
| "class_as_str Spare = ''spare''"

fun allowed_types :: "vdev_class \<Rightarrow> vdev_type list" where
  "allowed_types Data = [Single, Mirror, Raidz1, Raidz2, Raidz3]"
| "allowed_types Special = [Single, Mirror]"
| "allowed_types Log = [Single, Mirror]"
| "allowed_types Cache = [Single]"
| "allowed_types Spare = [Single]"

fun class_zpool_keyword :: "vdev_class \<Rightarrow> string option" where
  "class_zpool_keyword Data = None"
| "class_zpool_keyword Special = Some ''special''"
| "class_zpool_keyword Log = Some ''log''"
| "class_zpool_keyword Cache = Some ''cache''"
| "class_zpool_keyword Spare = Some ''spare''"

fun type_as_str :: "vdev_type \<Rightarrow> string" where
  "type_as_str Single = ''single''"
| "type_as_str Mirror = ''mirror''"
| "type_as_str Raidz1 = ''raidz1''"
| "type_as_str Raidz2 = ''raidz2''"
| "type_as_str Raidz3 = ''raidz3''"

fun parity :: "vdev_type \<Rightarrow> u32 option" where
  "parity Raidz1 = Some 1"
| "parity Raidz2 = Some 2"
| "parity Raidz3 = Some 3"
| "parity Single = None"
| "parity Mirror = None"

definition is_raidz :: "vdev_type \<Rightarrow> bool" where
  "is_raidz k = (parity k \<noteq> None)"

definition min_members :: "vdev_type \<Rightarrow> nat" where
  "min_members k =
     (case k of Single \<Rightarrow> 1 | Mirror \<Rightarrow> 2 | _ \<Rightarrow> unat (unwrap_or 0 (parity k)) + 2)"

definition max_members :: "vdev_type \<Rightarrow> nat option" where
  "max_members k = (if k = Single then Some 1 else None)"

definition failures_tolerated :: "vdev_type \<Rightarrow> nat \<Rightarrow> nat" where
  "failures_tolerated k members =
     (case k of Single \<Rightarrow> 0 | Mirror \<Rightarrow> members - 1 | _ \<Rightarrow> unat (unwrap_or 0 (parity k)))"

definition type_zpool_keyword :: "vdev_type \<Rightarrow> string option" where
  "type_zpool_keyword k = (case k of Single \<Rightarrow> None | other \<Rightarrow> Some (type_as_str other))"

datatype encryption = EncryptionNone | Luks2

subsection \<open>Disk names\<close>

datatype layout_error =
    LayoutJson string
  | LayoutSchemaVersion u32
  | LayoutById string string
  | LayoutAshift u8
  | NoDataVdev
  | TypeNotAllowed nat vdev_class vdev_type string
  | Members nat string
  | BootNotData nat

definition rsplit_once :: "string \<Rightarrow> string \<Rightarrow> (string \<times> string) option" where
  \<comment> \<open>\<open>str::rsplit_once\<close>: around the last match\<close>
  "rsplit_once p s =
     (case filter (\<lambda>i. starts_with p (drop i s)) (rev [0..<Suc (length s)]) of
        [] \<Rightarrow> None
      | i # _ \<Rightarrow> Some (take i s, drop (i + length p) s))"

definition by_id_char :: "char \<Rightarrow> bool" where
  "by_id_char c = (is_ascii_alphanumeric c \<or> c \<in> set ''._:+@,=-'')"

definition by_id_from_str :: "string \<Rightarrow> (layout_error, string) result" where
  "by_id_from_str text =
     (let bad = (\<lambda>why. Err (LayoutById text why)) in
      if text = [] \<or> 255 < length text then bad ''it must be 1 to 255 characters''
      else if starts_with ''.'' text \<or> starts_with ''-'' text then bad ''it must not start with . or -''
      else if \<not> list_all by_id_char text then bad ''it may use only letters, digits, and ._:+@,=-''
      else if (case rsplit_once ''-part'' text of
                 Some (_, n) \<Rightarrow> n \<noteq> [] \<and> list_all is_ascii_digit n
               | None \<Rightarrow> False) then bad ''it names a partition''
      else Ok text)"

definition by_id_path :: "string \<Rightarrow> string" where
  "by_id_path b = ''/dev/disk/by-id/'' @ b"

subsection \<open>Vdevs and layouts\<close>

record vdev =
  vdev_class :: vdev_class
  vdev_kind :: vdev_type
  vdev_boot :: bool
  vdev_members :: "string list"

definition vdev_new :: "vdev_class \<Rightarrow> vdev_type \<Rightarrow> string list \<Rightarrow> vdev" where
  "vdev_new c k ms = \<lparr> vdev_class = c, vdev_kind = k, vdev_boot = False, vdev_members = ms \<rparr>"

definition vdev_set_boot :: "vdev \<Rightarrow> vdev" where
  "vdev_set_boot v = v\<lparr> vdev_boot := True \<rparr>"

definition vdev_failures_tolerated :: "vdev \<Rightarrow> nat" where
  "vdev_failures_tolerated v = failures_tolerated (vdev_kind v) (length (vdev_members v))"

definition vdev_describe :: "vdev \<Rightarrow> string" where
  "vdev_describe v =
     (let width = show_nat (length (vdev_members v)); c = class_as_str (vdev_class v) in
      case vdev_kind v of
        Single \<Rightarrow> ''single-disk '' @ c @ '' vdev''
      | Mirror \<Rightarrow> width @ ''-way '' @ c @ '' mirror''
      | kind \<Rightarrow> c @ '' '' @ type_as_str kind @ '' of '' @ width @ '' disks'')"

record pool_layout =
  schema_version :: u32
  layout_pool :: string
  layout_ashift :: u8
  layout_encryption :: encryption
  layout_vdevs :: "vdev list"

definition layout_new :: "string \<Rightarrow> encryption \<Rightarrow> vdev list \<Rightarrow> pool_layout" where
  "layout_new pool enc vdevs =
     \<lparr> schema_version = SCHEMA_VERSION, layout_pool = pool, layout_ashift = DEFAULT_ASHIFT,
       layout_encryption = enc, layout_vdevs = vdevs \<rparr>"

definition validate_vdev :: "nat \<times> vdev \<Rightarrow> (layout_error, unit) result" where
  \<comment> \<open>one turn of the loop over the vdevs\<close>
  "validate_vdev = (\<lambda>(i, v).
     let allowed = allowed_types (vdev_class v); count = length (vdev_members v) in
     if vdev_kind v \<notin> set allowed
     then Err (TypeNotAllowed i (vdev_class v) (vdev_kind v) (join_with '', '' (map type_as_str allowed)))
     else if count < min_members (vdev_kind v)
     then Err (Members i (case vdev_kind v of
            Single \<Rightarrow> ''a single-disk vdev needs one disk''
          | kind \<Rightarrow> type_as_str kind @ '' needs at least '' @ show_nat (min_members kind) @ '' disks''))
     else if is_some_and (\<lambda>max. max < count) (max_members (vdev_kind v))
     then Err (Members i (''a single-disk vdev has exactly one disk, not '' @ show_nat count))
     else if vdev_boot v \<and> vdev_class v \<noteq> Data then Err (BootNotData i)
     else Ok ())"

definition layout_validate :: "pool_layout \<Rightarrow> (layout_error, unit) result" where
  "layout_validate l =
     (if schema_version l \<noteq> SCHEMA_VERSION then Err (LayoutSchemaVersion (schema_version l))
      else if \<not> (MIN_ASHIFT \<le> layout_ashift l \<and> layout_ashift l \<le> MAX_ASHIFT)
      then Err (LayoutAshift (layout_ashift l))
      else if \<not> list_ex (\<lambda>v. vdev_class v = Data) (layout_vdevs l) then Err NoDataVdev
      else try_for_each validate_vdev (List.enumerate 0 (layout_vdevs l)))"

definition layout_from_json ::
    "(string \<Rightarrow> (string, u32) result) \<Rightarrow> (string \<Rightarrow> (string, pool_layout) result)
     \<Rightarrow> string \<Rightarrow> (layout_error, pool_layout) result" where
  "layout_from_json read_version read_layout text =
     and_then (map_err LayoutJson (read_version text)) (\<lambda>version.
       if version \<noteq> SCHEMA_VERSION then Err (LayoutSchemaVersion version)
       else and_then (map_err LayoutJson (read_layout text)) (\<lambda>layout.
            and_then (layout_validate layout) (\<lambda>_. Ok layout)))"

definition data_vdevs :: "pool_layout \<Rightarrow> vdev list" where
  "data_vdevs l = filter (\<lambda>v. vdev_class v = Data) (layout_vdevs l)"

definition boot_vdevs :: "pool_layout \<Rightarrow> (nat \<times> vdev) list" where
  "boot_vdevs l = filter (\<lambda>(_, v). vdev_boot v) (List.enumerate 0 (layout_vdevs l))"

definition layout_members :: "pool_layout \<Rightarrow> string list" where
  "layout_members l = concat (map vdev_members (layout_vdevs l))"

definition has_raidz :: "pool_layout \<Rightarrow> bool" where
  "has_raidz l = list_ex (\<lambda>v. is_raidz (vdev_kind v)) (layout_vdevs l)"

definition allows_vdev_removal :: "pool_layout \<Rightarrow> bool" where
  "allows_vdev_removal l = (\<not> has_raidz l)"

definition data_redundancy :: "pool_layout \<Rightarrow> nat" where
  "data_redundancy l = unwrap_or 0 (list_min (map vdev_failures_tolerated (data_vdevs l)))"

subsection \<open>Correctness\<close>

definition vdev_ok :: "vdev \<Rightarrow> bool" where
  \<comment> \<open>the structural rules of one vdev\<close>
  "vdev_ok v =
     (vdev_kind v \<in> set (allowed_types (vdev_class v))
      \<and> min_members (vdev_kind v) \<le> length (vdev_members v)
      \<and> (vdev_kind v = Single \<longrightarrow> length (vdev_members v) = 1)
      \<and> (vdev_boot v \<longrightarrow> vdev_class v = Data))"

lemma validate_vdev_Ok_iff: "validate_vdev (i, v) = Ok () \<longleftrightarrow> vdev_ok v"
  by (cases "vdev_kind v"; cases "vdev_members v")
    (auto simp: validate_vdev_def vdev_ok_def max_members_def min_members_def Let_def Suc_le_eq)

lemma layout_validate_Ok_iff:
  "layout_validate l = Ok ()
   \<longleftrightarrow> schema_version l = SCHEMA_VERSION \<and> MIN_ASHIFT \<le> layout_ashift l
     \<and> layout_ashift l \<le> MAX_ASHIFT \<and> data_vdevs l \<noteq> [] \<and> list_all vdev_ok (layout_vdevs l)"
proof -
  have "(\<forall>p\<in>set (List.enumerate 0 vs). validate_vdev p = Ok ()) \<longleftrightarrow> list_all vdev_ok vs" for vs
    by (auto simp: list_all_iff in_set_enumerate_eq validate_vdev_Ok_iff all_set_conv_all_nth
        nth_enumerate_eq)
  moreover have "list_ex (\<lambda>v. vdev_class v = Data) (layout_vdevs l) \<longleftrightarrow> data_vdevs l \<noteq> []"
    by (auto simp: data_vdevs_def list_ex_iff filter_empty_conv)
  ultimately show ?thesis
    by (auto simp: layout_validate_def try_for_each_Ok_iff)
qed

lemma vdev_ok_tolerates:
  assumes "vdev_ok v"
  shows "vdev_failures_tolerated v < length (vdev_members v)"
    and "vdev_kind v \<noteq> Single \<Longrightarrow> 0 < vdev_failures_tolerated v"
    and "unat (unwrap_or 0 (parity (vdev_kind v))) < length (vdev_members v)"
  using assms
  by (cases "vdev_kind v"; auto simp: vdev_ok_def vdev_failures_tolerated_def failures_tolerated_def min_members_def)+

text \<open>
  A layout that validates has a data vdev, and every vdev has a type its class allows, enough
  members (one for a single disk) and boots only as data; so every vdev survives fewer failures than it has members, all but single disks
  survive one, and the pool survives on every data vdev the failures it reports.
\<close>

lemma layout_validate_sound:
  assumes "layout_validate l = Ok ()"
  shows "list_all vdev_ok (layout_vdevs l) \<and> data_vdevs l \<noteq> []
    \<and> (\<forall>v\<in>set (layout_vdevs l). vdev_failures_tolerated v < length (vdev_members v)
        \<and> (vdev_kind v \<noteq> Single \<longrightarrow> 0 < vdev_failures_tolerated v))
    \<and> (\<forall>v\<in>set (data_vdevs l). data_redundancy l \<le> vdev_failures_tolerated v)
    \<and> (\<exists>v\<in>set (data_vdevs l). data_redundancy l = vdev_failures_tolerated v)"
proof -
  from assms have ok: "list_all vdev_ok (layout_vdevs l)" and data: "data_vdevs l \<noteq> []"
    by (simp_all add: layout_validate_Ok_iff)
  then obtain m where m: "list_min (map vdev_failures_tolerated (data_vdevs l)) = Some m"
    by (cases "list_min (map vdev_failures_tolerated (data_vdevs l))") auto
  then have "m \<in> set (map vdev_failures_tolerated (data_vdevs l))
      \<and> (\<forall>x\<in>set (map vdev_failures_tolerated (data_vdevs l)). m \<le> x)"
    by (rule list_min_Some [THEN iffD1])
  then show ?thesis
    using ok data m vdev_ok_tolerates by (auto simp: data_redundancy_def list_all_iff)
qed

definition sample_layout :: pool_layout where
  "sample_layout = layout_new ''rpool'' EncryptionNone
     [vdev_set_boot (vdev_new Data Mirror [''ata-A'', ''ata-B'']), vdev_new Spare Single [''ata-C'']]"

lemma sample_layout_valid: "layout_validate sample_layout = Ok ()"
  by (simp add: sample_layout_def layout_new_def vdev_new_def vdev_set_boot_def
      layout_validate_Ok_iff vdev_ok_def data_vdevs_def min_members_def
      MIN_ASHIFT_def MAX_ASHIFT_def DEFAULT_ASHIFT_def)

lemma layout_validate_sound_witness: "0 < data_redundancy sample_layout"
  using layout_validate_sound [OF sample_layout_valid]
  by (auto simp: sample_layout_def layout_new_def vdev_new_def vdev_set_boot_def data_vdevs_def
      vdev_failures_tolerated_def failures_tolerated_def)

text \<open>
  A by-id name is accepted only as it is written, and the path it makes stays in
  \<^verbatim>\<open>/dev/disk/by-id\<close>: the name has no slash, is not hidden and is no option.
\<close>

lemma by_id_confined:
  assumes "by_id_from_str text = Ok b"
  shows "b = text \<and> CHR ''/'' \<notin> set b \<and> b \<noteq> [] \<and> length b \<le> 255
    \<and> hd b \<notin> {CHR ''.'', CHR ''-''} \<and> by_id_path b = ''/dev/disk/by-id/'' @ text"
proof -
  have b: "b = text" "text \<noteq> []" "length text \<le> 255" "list_all by_id_char text"
    "\<not> starts_with ''.'' text" "\<not> starts_with ''-'' text"
    using assms by (auto simp: by_id_from_str_def Let_def split: if_splits)
  have "\<not> by_id_char CHR ''/''" by code_simp
  then have "CHR ''/'' \<notin> set text" using b(4) by (auto simp: list_all_iff)
  moreover have "hd text \<notin> {CHR ''.'', CHR ''-''}"
    using b(2) b(5) b(6) by (cases "text") (auto simp: starts_with_def)
  ultimately show ?thesis using b by (simp add: by_id_path_def)
qed

lemma by_id_confined_witness: "CHR ''/'' \<notin> set ''wwn-0x5000c500a1b2c3d4''"
proof -
  have "by_id_from_str ''wwn-0x5000c500a1b2c3d4'' = Ok ''wwn-0x5000c500a1b2c3d4''" by code_simp
  from by_id_confined [OF this] show ?thesis by blast
qed

end
