(* ===== verification/Storage_Geometry.thy ===== *)
theory Storage_Geometry
  imports Complex_Main Storage_Layout
begin

section \<open>How much raw space a block takes\<close>

text \<open>
  The model of src/v3/crates/bmac-storage/src/geometry.rs: exact ratios of 64-bit integers, zvol
  block sizes, the allocation shape of a vdev and the inflation of a block size on a pool.

  A panic (a zero denominator, a ratio that does not fit after reduction, a vdev with no more
  disks than parity, a division by zero) is \<open>None\<close>. Products in \<^verbatim>\<open>u128\<close> are natural
  numbers; 64-bit products wrap. The abstract value of a ratio is a rational number, and the
  operations are shown to compute with it.
\<close>

unbundle bit_operations_syntax

subsection \<open>Ratios\<close>

record ratio =
  num :: u64
  den :: u64

definition ratio_ONE :: ratio where
  "ratio_ONE = \<lparr> num = 1, den = 1 \<rparr>"

fun gcd_loop :: "nat \<Rightarrow> nat \<Rightarrow> nat" where
  "gcd_loop a b = (if b = 0 then a else gcd_loop b (a mod b))"

declare gcd_loop.simps [simp del]

definition ratio_new :: "u64 \<Rightarrow> u64 \<Rightarrow> ratio option" where
  "ratio_new n d =
     (if d = 0 then None
      else let g = max (gcd_loop (unat n) (unat d)) 1
           in Some \<lparr> num = of_nat (unat n div g), den = of_nat (unat d div g) \<rparr>)"

definition mul_ceil :: "ratio \<Rightarrow> u64 \<Rightarrow> u64 option" where
  "mul_ceil r v =
     (if den r = 0 then None
      else Some (try_from_or_max (nat_div_ceil (unat v * unat (num r)) (unat (den r)))))"

definition mul_floor :: "ratio \<Rightarrow> u64 \<Rightarrow> u64 option" where
  "mul_floor r v =
     (if den r = 0 then None
      else Some (try_from_or_max (unat v * unat (num r) div unat (den r))))"

definition div_floor :: "ratio \<Rightarrow> u64 \<Rightarrow> u64" where
  "div_floor r v =
     (if num r = 0 then 0 else try_from_or_max (unat v * unat (den r) div unat (num r)))"

definition ratio_wide :: "nat \<Rightarrow> nat \<Rightarrow> ratio option" where
  "ratio_wide n d =
     (if d = 0 then None
      else let g = max (gcd_loop n d) 1 in do {
        n' \<leftarrow> try_from_nat (n div g);
        d' \<leftarrow> try_from_nat (d div g);
        Some \<lparr> num = n', den = d' \<rparr>
      })"

definition ratio_times :: "ratio \<Rightarrow> ratio \<Rightarrow> ratio option" where
  "ratio_times a b =
     ratio_wide (unat (num a) * unat (num b)) (unat (den a) * unat (den b))"

definition ratio_over :: "ratio \<Rightarrow> ratio \<Rightarrow> ratio option" where
  "ratio_over a b =
     ratio_wide (unat (num a) * unat (den b)) (unat (den a) * unat (num b))"

definition ratio_le :: "ratio \<Rightarrow> ratio \<Rightarrow> bool" where
  "ratio_le a b = (unat (num a) * unat (den b) \<le> unat (num b) * unat (den a))"

definition ratio_eq :: "ratio \<Rightarrow> ratio \<Rightarrow> bool" where
  "ratio_eq a b = (ratio_le a b \<and> ratio_le b a)"

definition ratio_max :: "ratio \<Rightarrow> ratio \<Rightarrow> ratio" where
  \<comment> \<open>\<open>Ord::max\<close>: the second when they are equal\<close>
  "ratio_max a b = (if ratio_le a b then b else a)"

subsection \<open>Block sizes\<close>

datatype block_size = BlockSize (block_size_get: u32)

definition K16 :: block_size where "K16 = BlockSize (16 * 1024)"

definition K32 :: block_size where "K32 = BlockSize (32 * 1024)"

definition K64 :: block_size where "K64 = BlockSize (64 * 1024)"

definition K128 :: block_size where "K128 = BlockSize (128 * 1024)"

definition OFFERED :: "block_size list" where "OFFERED = [K16, K32, K64, K128]"

definition REPORTING :: block_size where "REPORTING = K128"

definition block_size_new :: "u32 \<Rightarrow> block_size option" where
  "block_size_new b =
     (if is_power_of_two b \<and> 512 \<le> b \<and> b \<le> 128 * 1024 then Some (BlockSize b) else None)"

definition block_bytes :: "block_size \<Rightarrow> u64" where
  "block_bytes b = ucast (block_size_get b)"

definition block_storage :: "block_size \<Rightarrow> string" where
  "block_storage b =
     (if b = K16 then ''local-zfs'' else ''bmac-zfs-'' @ show_uint (block_size_get b div 1024) @ ''k'')"

definition dataset_suffix :: "block_size \<Rightarrow> string" where
  "dataset_suffix b =
     (if b = K16 then ''data'' else ''data-'' @ show_uint (block_size_get b div 1024) @ ''k'')"

definition block_short :: "block_size \<Rightarrow> string" where
  "block_short b = show_uint (block_size_get b div 1024) @ ''K''"

fun parse_offered_words :: "block_size list \<Rightarrow> string list \<Rightarrow> (string, block_size list) result" where
  \<comment> \<open>the loop of \<open>parse_offered\<close>\<close>
  "parse_offered_words sizes [] = Ok sizes"
| "parse_offered_words sizes (word # ws) =
     and_then (ok_or (word @ '' is not one of 16K, 32K, 64K, and 128K'')
         (find (\<lambda>b. block_short b = trim word) OFFERED)) (\<lambda>size.
       if size \<in> set sizes then Err (word @ '' is listed twice'')
       else parse_offered_words (sizes @ [size]) ws)"

definition parse_offered :: "string \<Rightarrow> (string, block_size list) result" where
  "parse_offered text =
     and_then (parse_offered_words [] (split_on CHR '','' text))
       (\<lambda>sizes. Ok (sort_key block_size_get sizes))"

definition metadata_allowance :: "block_size \<Rightarrow> ratio option" where
  "metadata_allowance b = ratio_new 128 (block_bytes b)"

definition block_try_from :: "u32 \<Rightarrow> (string, block_size) result" where
  "block_try_from b =
     ok_or (show_uint b @ '' is not a block size from 512 bytes to 128 KiB'') (block_size_new b)"

definition block_display :: "block_size \<Rightarrow> string" where
  "block_display b =
     (if 1024 \<le> block_size_get b then show_uint (block_size_get b div 1024) @ '' KiB''
      else show_uint (block_size_get b) @ '' bytes'')"

subsection \<open>The shape of a vdev\<close>

record geometry =
  geo_kind :: vdev_type
  geo_width :: u32
  geo_ashift :: u8

definition parity_of :: "vdev_type \<Rightarrow> u32" where
  "parity_of k = unwrap_or 0 (parity k)"

definition geometry_new :: "vdev_type \<Rightarrow> u32 \<Rightarrow> u8 \<Rightarrow> geometry option" where
  "geometry_new k width ashift =
     (if parity_of k < width then Some \<lparr> geo_kind = k, geo_width = width, geo_ashift = ashift \<rparr> else None)"

definition geometry_of :: "vdev \<Rightarrow> u8 \<Rightarrow> geometry option" where
  "geometry_of v ashift = geometry_new (vdev_kind v) (of_nat (length (vdev_members v))) ashift"

definition sector :: "geometry \<Rightarrow> u64" where
  "sector g = push_bit (unat (geo_ashift g) mod 64) 1"

definition data_sectors :: "geometry \<Rightarrow> u64 \<Rightarrow> u64" where
  \<comment> \<open>\<open>bytes.div_ceil(self.sector()).max(1)\<close>\<close>
  "data_sectors g b = max (div_ceil b (sector g)) 1"

definition allocated_sectors :: "geometry \<Rightarrow> u64 \<Rightarrow> u64 option" where
  "allocated_sectors g b =
     (let d = data_sectors g b in
      case geo_kind g of
        Single \<Rightarrow> Some d
      | Mirror \<Rightarrow> Some (d * ucast (geo_width g))
      | kind \<Rightarrow>
          (let p = ucast (parity_of kind); columns = ucast (geo_width g) - p in
           if columns = 0 then None
           else let parity = p * div_ceil d columns
                in Some (div_ceil (d + parity) (p + 1) * (p + 1))))"

definition efficiency :: "geometry \<Rightarrow> u64 \<Rightarrow> ratio option" where
  "efficiency g b = do { a \<leftarrow> allocated_sectors g b; ratio_new (data_sectors g b) a }"

definition ideal_efficiency :: "geometry \<Rightarrow> ratio option" where
  "ideal_efficiency g =
     (case geo_kind g of
        Single \<Rightarrow> Some ratio_ONE
      | Mirror \<Rightarrow> ratio_new 1 (ucast (geo_width g))
      | kind \<Rightarrow> (let n = ucast (geo_width g) in ratio_new (n - ucast (parity_of kind)) n))"

definition inflation :: "geometry \<Rightarrow> block_size \<Rightarrow> ratio option" where
  "inflation g b = do {
     reporting \<leftarrow> efficiency g (block_bytes REPORTING);
     this \<leftarrow> efficiency g (block_bytes b);
     ratio_over reporting this
   }"

definition reported_bytes :: "geometry \<Rightarrow> u64 \<Rightarrow> u64 option" where
  "reported_bytes g smallest =
     (case geo_kind g of
        Single \<Rightarrow> Some smallest
      | Mirror \<Rightarrow> Some smallest
      | _ \<Rightarrow> do {
          e \<leftarrow> efficiency g (block_bytes REPORTING);
          mul_floor e (smallest * ucast (geo_width g))
        })"

definition nominal_bytes :: "geometry \<Rightarrow> u64 \<Rightarrow> u64" where
  "nominal_bytes g smallest =
     (case geo_kind g of
        Single \<Rightarrow> smallest
      | Mirror \<Rightarrow> smallest
      | kind \<Rightarrow> smallest * ucast (geo_width g - parity_of kind))"

definition vm_bytes :: "geometry \<Rightarrow> u64 \<Rightarrow> block_size \<Rightarrow> u64 option" where
  "vm_bytes g smallest b = do {
     i \<leftarrow> inflation g b;
     r \<leftarrow> reported_bytes g smallest;
     Some (div_floor i r)
   }"

subsection \<open>Pools\<close>

type_synonym pool_geometry = "geometry list"

definition SUGGESTED_MAX_INFLATION :: ratio where
  "SUGGESTED_MAX_INFLATION = \<lparr> num = 21, den = 20 \<rparr>"

definition pool_geometry_of :: "pool_layout \<Rightarrow> pool_geometry option" where
  "pool_geometry_of l =
     those (map (\<lambda>v. geometry_of v (layout_ashift l))
       (filter (\<lambda>v. vdev_class v = Data) (layout_vdevs l)))"

definition pool_inflation :: "pool_geometry \<Rightarrow> block_size \<Rightarrow> ratio option" where
  "pool_inflation pool b =
     map_option (\<lambda>rs. unwrap_or ratio_ONE (max_by ratio_le rs)) (those (map (\<lambda>g. inflation g b) pool))"

definition charge_per_byte :: "pool_geometry \<Rightarrow> block_size \<Rightarrow> ratio option" where
  "charge_per_byte pool b = do {
     m \<leftarrow> metadata_allowance b;
     i \<leftarrow> pool_inflation pool b;
     f \<leftarrow> ratio_new (den m + num m) (den m);
     ratio_times i f
   }"

definition space_needed :: "pool_geometry \<Rightarrow> u64 \<Rightarrow> block_size \<Rightarrow> u64 option" where
  "space_needed pool volsize b = do { c \<leftarrow> charge_per_byte pool b; mul_ceil c volsize }"

definition worst_inflation :: "pool_geometry list \<Rightarrow> block_size \<Rightarrow> ratio option" where
  "worst_inflation hosts b =
     map_option (\<lambda>rs. unwrap_or ratio_ONE (max_by ratio_le rs))
       (those (map (\<lambda>h. pool_inflation h b) hosts))"

fun find_suggested :: "pool_geometry list \<Rightarrow> block_size list \<Rightarrow> block_size option option" where
  \<comment> \<open>\<open>find\<close> rates the sizes one at a time and stops at the first that qualifies\<close>
  "find_suggested hosts [] = Some None"
| "find_suggested hosts (b # sizes) = do {
     w \<leftarrow> worst_inflation hosts b;
     if ratio_le w SUGGESTED_MAX_INFLATION then Some (Some b) else find_suggested hosts sizes
   }"

definition suggested_block_size ::
    "pool_geometry list \<Rightarrow> block_size list \<Rightarrow> block_size option option" where
  \<comment> \<open>the outer \<open>None\<close> is a panic\<close>
  "suggested_block_size hosts offered = do {
     let sizes = sort_key block_size_get offered;
     found \<leftarrow> find_suggested hosts sizes;
     case found of
       Some b \<Rightarrow> Some (Some b)
     | None \<Rightarrow> do {
         worst \<leftarrow> those (map (worst_inflation hosts) sizes);
         Some (map_option fst (min_by (\<lambda>a b. ratio_le (snd a) (snd b)) (zip sizes worst)))
       }
   }"

subsection \<open>Ratios are rational numbers\<close>

declare of_nat_unat [simp del]

definition ratio_ok :: "ratio \<Rightarrow> bool" where
  "ratio_ok r = (den r \<noteq> 0)"

definition ratio_val :: "ratio \<Rightarrow> rat" where
  "ratio_val r = of_nat (unat (num r)) / of_nat (unat (den r))"

lemma gcd_loop_eq: "gcd_loop a b = gcd a b"
  by (induction a b rule: gcd_loop.induct) (subst gcd_loop.simps, simp add: gcd_red_nat [symmetric])

lemma div_gcd_val:
  assumes "0 < (d::nat)"
  shows "(of_nat (n div gcd n d) :: rat) / of_nat (d div gcd n d) = of_nat n / of_nat d"
    and "0 < d div gcd n d"
proof -
  let ?g = "gcd n d"
  have g: "0 < ?g" using assms by simp
  have "n = ?g * (n div ?g)" "d = ?g * (d div ?g)" by simp_all
  then have "(of_nat n :: rat) = of_nat ?g * of_nat (n div ?g)"
    "(of_nat d :: rat) = of_nat ?g * of_nat (d div ?g)"
    by (metis of_nat_mult)+
  then show "(of_nat (n div ?g) :: rat) / of_nat (d div ?g) = of_nat n / of_nat d"
    using g by simp
  show "0 < d div ?g" using assms by (simp add: div_greater_zero_iff gcd_le2_nat)
qed

lemma max_gcd: "0 < (d::nat) \<Longrightarrow> max (gcd n d) (Suc 0) = gcd n d"
  using gcd_pos_nat [of n d] by linarith

lemma ratio_wide_Some_val:
  assumes "ratio_wide n d = Some r"
  shows "ratio_ok r \<and> ratio_val r = of_nat n / of_nat d \<and> d \<noteq> 0"
proof -
  from assms have d: "0 < d" by (auto simp: ratio_wide_def split: if_splits)
  then have "unat (num r) = n div gcd n d" "unat (den r) = d div gcd n d"
    using assms by (auto simp: ratio_wide_def Let_def gcd_loop_eq max_gcd bind_eq_Some_conv
        try_from_nat_Some_iff)
  with div_gcd_val [OF d, of n] d show ?thesis
    by (auto simp: ratio_ok_def ratio_val_def)
qed

lemma ratio_wide_ex:
  assumes "0 < d" and "d < 2 ^ 64" and "n < 2 ^ 64"
  shows "\<exists>r. ratio_wide n d = Some r"
proof -
  have "n div gcd n d < 2 ^ 64" "d div gcd n d < 2 ^ 64"
    using assms div_le_dividend [of n "gcd n d"] div_le_dividend [of d "gcd n d"] by linarith+
  then show ?thesis
    using assms(1) by (simp add: ratio_wide_def Let_def gcd_loop_eq max_gcd try_from_nat_def)
qed

lemma ratio_new_wide: "ratio_new n d = ratio_wide (unat n) (unat d)"
proof (cases "d = 0")
  case False
  then have "0 < unat d" by (simp add: unat_gt_0)
  moreover have "unat n div gcd (unat n) (unat d) < 2 ^ 64" "unat d div gcd (unat n) (unat d) < 2 ^ 64"
    using order.strict_trans1 [OF div_le_dividend unat_less_power [of n]]
      order.strict_trans1 [OF div_le_dividend unat_less_power [of d]] by simp_all
  ultimately show ?thesis
    using False by (simp add: ratio_new_def ratio_wide_def Let_def gcd_loop_eq max_gcd try_from_nat_def)
qed (simp add: ratio_new_def ratio_wide_def)

lemma ratio_new_Some_val:
  "ratio_new n d = Some r \<Longrightarrow> ratio_ok r \<and> ratio_val r = of_nat (unat n) / of_nat (unat d)"
  using ratio_wide_Some_val by (simp add: ratio_new_wide)

lemma ratio_new_ex: "d \<noteq> 0 \<Longrightarrow> \<exists>r. ratio_new n d = Some r"
  by (simp add: ratio_new_def Let_def)

lemma ratio_val_nonneg: "0 \<le> ratio_val r"
  by (simp add: ratio_val_def)

lemma ratio_val_ONE: "ratio_val ratio_ONE = 1" "ratio_ok ratio_ONE"
  by (simp_all add: ratio_val_def ratio_ONE_def ratio_ok_def)

lemma ratio_le_val: "ratio_ok a \<Longrightarrow> ratio_ok b \<Longrightarrow> ratio_le a b \<longleftrightarrow> ratio_val a \<le> ratio_val b"
proof -
  assume "ratio_ok a" "ratio_ok b"
  then have "(0::rat) < of_nat (unat (den a))" "(0::rat) < of_nat (unat (den b))"
    by (simp_all add: ratio_ok_def unat_gt_0)
  then show ?thesis
    by (simp add: ratio_le_def ratio_val_def frac_le_eq divide_le_0_iff flip: of_nat_mult)
qed

lemma max_ratio:
  assumes "\<forall>r\<in>set rs. ratio_ok r"
  shows "ratio_ok (unwrap_or ratio_ONE (max_by ratio_le rs))"
    and "\<forall>r\<in>set rs. ratio_val r \<le> ratio_val (unwrap_or ratio_ONE (max_by ratio_le rs))"
    and "rs \<noteq> [] \<Longrightarrow> unwrap_or ratio_ONE (max_by ratio_le rs) \<in> set rs"
proof -
  have eq: "max_by ratio_le rs = max_by (\<lambda>a b. ratio_val a \<le> ratio_val b) rs"
    using assms by (intro max_by_cong) (simp add: ratio_le_val)
  show "rs \<noteq> [] \<Longrightarrow> unwrap_or ratio_ONE (max_by ratio_le rs) \<in> set rs"
    unfolding eq using key.max_by_in [of ratio_val rs]
    by (cases "max_by (\<lambda>a b. ratio_val a \<le> ratio_val b) rs") auto
  then show "ratio_ok (unwrap_or ratio_ONE (max_by ratio_le rs))"
    using assms by (cases "rs = []") (simp_all add: ratio_val_ONE max_by_def)
  show "\<forall>r\<in>set rs. ratio_val r \<le> ratio_val (unwrap_or ratio_ONE (max_by ratio_le rs))"
    unfolding eq using key.max_by_ge [of ratio_val rs]
    by (cases "max_by (\<lambda>a b. ratio_val a \<le> ratio_val b) rs") auto
qed

lemma ratio_max_val:
  assumes "ratio_ok a" and "ratio_ok b"
  shows "ratio_ok (ratio_max a b)" "ratio_val (ratio_max a b) = max (ratio_val a) (ratio_val b)"
  using assms by (auto simp: ratio_max_def ratio_le_val)

lemma ratio_pos_val: "ratio_ok r \<Longrightarrow> 0 < ratio_val r \<longleftrightarrow> num r \<noteq> 0"
  by (auto simp: ratio_val_def ratio_ok_def zero_less_divide_iff unat_gt_0)

lemma div_floor_sound:
  assumes "ratio_ok r"
  shows "of_nat (unat (div_floor r v)) * ratio_val r \<le> of_nat (unat v)"
proof (cases "num r = 0")
  case False
  then have n: "0 < unat (num r)" and d: "0 < unat (den r)"
    using assms by (simp_all add: unat_gt_0 ratio_ok_def)
  have "unat (div_floor r v) \<le> unat v * unat (den r) div unat (num r)"
    using False by (simp add: div_floor_def unat_ops)
  then have "unat (div_floor r v) * unat (num r) \<le> unat v * unat (den r)"
    using n by (simp add: div_mult_floor)
  then have "(of_nat (unat (div_floor r v)) * of_nat (unat (num r)) :: rat) \<le> of_nat (unat v) * of_nat (unat (den r))"
    by (simp flip: of_nat_mult)
  then show ?thesis using d by (simp add: ratio_val_def pos_divide_le_eq)
qed (simp add: ratio_val_def div_floor_def)

lemma div_floor_greatest:
  assumes "ratio_ok r" and "num r \<noteq> 0" and "k < 2 ^ 64"
    and "of_nat k * ratio_val r \<le> of_nat (unat v)"
  shows "k \<le> unat (div_floor r v)"
proof -
  have n: "0 < unat (num r)" and d: "0 < unat (den r)"
    using assms by (simp_all add: unat_gt_0 ratio_ok_def)
  have "(of_nat (k * unat (num r)) :: rat) \<le> of_nat (unat v * unat (den r))"
    using assms(4) d by (simp add: ratio_val_def pos_divide_le_eq)
  then have "k \<le> unat v * unat (den r) div unat (num r)"
    using n by (simp only: of_nat_le_iff div_mult_floor)
  then show ?thesis using assms(2,3) by (simp add: div_floor_def unat_ops)
qed

lemma mul_ceil_val:
  assumes "ratio_ok r"
  shows "\<exists>x. mul_ceil r v = Some x
    \<and> (unat x < 2 ^ 64 - 1 \<longrightarrow> of_nat (unat v) * ratio_val r \<le> of_nat (unat x))"
proof -
  let ?x = "nat_div_ceil (unat v * unat (num r)) (unat (den r))"
  have d: "0 < unat (den r)" using assms by (simp add: unat_gt_0 ratio_ok_def)
  have "of_nat (unat v) * ratio_val r \<le> of_nat ?x"
    using nat_div_ceil_mult_ge [OF d, of "unat v * unat (num r)"] d
    by (simp add: ratio_val_def pos_divide_le_eq flip: of_nat_mult)
  moreover have "min ?x (2 ^ 64 - 1) < 2 ^ 64 - 1 \<Longrightarrow> min ?x (2 ^ 64 - 1) = ?x" by linarith
  ultimately show ?thesis
    using assms by (simp add: mul_ceil_def ratio_ok_def unat_ops)
qed

subsection \<open>What a vdev allocates\<close>

definition geo_ok :: "geometry \<Rightarrow> bool" where
  "geo_ok g = (parity_of (geo_kind g) < geo_width g
     \<and> MIN_ASHIFT \<le> geo_ashift g \<and> geo_ashift g \<le> MAX_ASHIFT)"

definition block_ok :: "block_size \<Rightarrow> bool" where
  "block_ok b = (block_size_new (block_size_get b) \<noteq> None)"

definition sectors_spec :: "nat \<Rightarrow> nat \<Rightarrow> nat" where
  \<comment> \<open>sectors of data: at least one\<close>
  "sectors_spec bytes ashift = max (nat_div_ceil bytes (2 ^ ashift)) 1"

definition alloc_spec :: "vdev_type \<Rightarrow> nat \<Rightarrow> nat \<Rightarrow> nat" where
  \<comment> \<open>what OpenZFS's \<open>vdev_raidz_asize\<close> computes: data, a parity sector per row and parity
    disk, padded to a multiple of the parity plus one\<close>
  "alloc_spec k width d =
     (let p = unat (parity_of k) in
      if k = Mirror then d * width
      else nat_div_ceil (d + p * nat_div_ceil d (width - p)) (p + 1) * (p + 1))"

lemma unat_power_two: "n < 64 \<Longrightarrow> unat (2 ^ n :: u64) = 2 ^ n"
proof -
  assume "n < 64"
  then have "(2::nat) ^ n < 2 ^ 64" by (intro power_strict_increasing) auto
  moreover have "(2::u64) ^ n = of_nat (2 ^ n)" by simp
  ultimately show ?thesis by (simp only: unat_of_nat) simp
qed

lemma unat_sector:
  assumes "geo_ok g"
  shows "unat (sector g) = 2 ^ unat (geo_ashift g)" "9 \<le> unat (geo_ashift g)" "unat (geo_ashift g) \<le> 16"
proof -
  show bounds: "9 \<le> unat (geo_ashift g)" "unat (geo_ashift g) \<le> 16"
    using assms by (simp_all add: geo_ok_def word_le_nat_alt MIN_ASHIFT_def MAX_ASHIFT_def)
  then show "unat (sector g) = 2 ^ unat (geo_ashift g)"
    by (simp add: sector_def push_bit_of_1 unat_power_two)
qed

lemma unat_max: "unat (max a b) = max (unat a) (unat b)"
  by (simp add: max_def word_le_nat_alt)

lemma unat_data_sectors:
  assumes "geo_ok g"
  shows "unat (data_sectors g b) = sectors_spec (unat b) (unat (geo_ashift g))"
proof -
  have "sector g \<noteq> 0" using unat_sector(1) [OF assms] by (metis power_not_zero unat_0 zero_neq_numeral)
  then show ?thesis
    by (simp add: data_sectors_def sectors_spec_def unat_max unat_ops unat_sector(1) [OF assms])
qed

lemma sectors_spec_bounds:
  assumes "bytes \<le> 2 ^ 17" and "9 \<le> ashift"
  shows "1 \<le> sectors_spec bytes ashift" "sectors_spec bytes ashift \<le> 256"
proof -
  have "(2::nat) ^ 17 \<le> 256 * 2 ^ 9" by simp
  also have "\<dots> \<le> 256 * 2 ^ ashift" using assms(2) by (intro mult_le_mono2 power_increasing) auto
  finally have "nat_div_ceil bytes (2 ^ ashift) \<le> 256"
    using assms(1) by (simp add: nat_div_ceil_le_iff)
  then show "sectors_spec bytes ashift \<le> 256" by (simp add: sectors_spec_def)
qed (simp add: sectors_spec_def)

lemma parity_of_le: "unat (parity_of k) \<le> 3" "is_raidz k \<Longrightarrow> 1 \<le> unat (parity_of k)"
  "\<not> is_raidz k \<Longrightarrow> parity_of k = 0"
  by (cases k; simp add: parity_of_def is_raidz_def)+

lemma unat_u64_of_u32: "unat (ucast (w::u32) :: u64) = unat w"
  by (rule unat_ucast_up) simp

lemma nat_div_ceil_le_add: "0 < d \<Longrightarrow> nat_div_ceil n d * d \<le> n + d"
proof -
  assume "0 < d"
  have "n div d * d \<le> n" by simp
  moreover have "(n div d + 1) * d = n div d * d + d" by (simp add: distrib_right)
  ultimately show ?thesis by (simp only: nat_div_ceil_def split: if_split) linarith
qed

lemma alloc_raidz:
  "k \<noteq> Mirror \<Longrightarrow> alloc_spec k width d
     = nat_div_ceil (d + unat (parity_of k) * nat_div_ceil d (width - unat (parity_of k)))
         (unat (parity_of k) + 1) * (unat (parity_of k) + 1)"
  by (simp add: alloc_spec_def Let_def)

lemma alloc_raidz_le: "k \<noteq> Mirror \<Longrightarrow> d \<le> 256 \<Longrightarrow> unat (parity_of k) < width \<Longrightarrow> alloc_spec k width d \<le> 2048"
proof -
  let ?p = "unat (parity_of k)"
  assume k: "k \<noteq> Mirror" and d: "d \<le> 256" and w: "?p < width"
  have "nat_div_ceil d (width - ?p) \<le> 256"
    using nat_div_ceil_le_self [of "width - ?p" d] d w by linarith
  then have pc: "?p * nat_div_ceil d (width - ?p) \<le> 3 * 256"
    using parity_of_le(1) [of k] by (intro mult_le_mono) auto
  have "alloc_spec k width d \<le> d + ?p * nat_div_ceil d (width - ?p) + (?p + 1)"
    unfolding alloc_raidz [OF k] by (rule nat_div_ceil_le_add) simp
  then show ?thesis by (rule order_trans) (use pc d parity_of_le(1) [of k] in simp)
qed

lemma alloc_spec_ge:
  "d \<le> alloc_spec k width d \<or> k = Mirror"
  "is_raidz k \<Longrightarrow> unat (parity_of k) < width \<Longrightarrow>
     d + unat (parity_of k) * nat_div_ceil d (width - unat (parity_of k)) \<le> alloc_spec k width d"
  "is_raidz k \<Longrightarrow> (unat (parity_of k) + 1) dvd alloc_spec k width d"
proof -
  let ?p = "unat (parity_of k)"
  have ge: "d + ?p * nat_div_ceil d (width - ?p)
      \<le> nat_div_ceil (d + ?p * nat_div_ceil d (width - ?p)) (?p + 1) * (?p + 1)"
    by (rule nat_div_ceil_mult_ge) simp
  then show "d \<le> alloc_spec k width d \<or> k = Mirror" using alloc_raidz [of k width d] by linarith
  assume "is_raidz k"
  then have eq: "alloc_spec k width d
      = nat_div_ceil (d + ?p * nat_div_ceil d (width - ?p)) (?p + 1) * (?p + 1)"
    by (intro alloc_raidz) (auto simp: is_raidz_def)
  show "d + ?p * nat_div_ceil d (width - ?p) \<le> alloc_spec k width d"
    unfolding eq by (rule ge)
  show "(?p + 1) dvd alloc_spec k width d" unfolding eq by (rule dvd_triv_right)
qed

lemma unat_raidz:
  fixes d p columns :: u64
  assumes "unat d \<le> 256" and "unat p \<le> 3" and "columns \<noteq> 0"
  shows "unat (div_ceil (d + p * div_ceil d columns) (p + 1) * (p + 1))
    = nat_div_ceil (unat d + unat p * nat_div_ceil (unat d) (unat columns)) (unat p + 1) * (unat p + 1)"
proof -
  let ?c = "nat_div_ceil (unat d) (unat columns)"
  let ?s = "unat d + unat p * ?c"
  have "?c \<le> 256" using nat_div_ceil_le_self [of "unat columns" "unat d"] assms by (simp add: unat_gt_0)
  then have pc: "unat p * ?c \<le> 3 * 256" using assms(2) by (intro mult_le_mono) auto
  then have "unat (p * div_ceil d columns) = unat p * ?c"
    using assms(3) by (simp add: unat_word_ariths unat_ops)
  then have s: "unat (d + p * div_ceil d columns) = ?s"
    using pc assms(1) by (simp add: unat_word_ariths)
  have p1: "unat (p + 1) = unat p + 1" using assms(2) by (simp add: unat_word_ariths)
  then have "p + 1 \<noteq> 0" by (metis add_is_0 unat_0 zero_neq_one)
  then have c: "unat (div_ceil (d + p * div_ceil d columns) (p + 1)) = nat_div_ceil ?s (unat p + 1)"
    by (simp add: unat_ops s p1)
  have "nat_div_ceil ?s (unat p + 1) * (unat p + 1) \<le> ?s + (unat p + 1)"
    by (rule nat_div_ceil_le_add) simp
  then have "nat_div_ceil ?s (unat p + 1) * (unat p + 1) < 2 ^ 64"
    using pc assms(1,2) by simp
  then show ?thesis by (subst unat_word_ariths(2)) (simp add: c p1)
qed

lemma allocated_sectors_spec:
  assumes ok: "geo_ok g" and b: "unat b \<le> 2 ^ 17"
  shows "\<exists>a. allocated_sectors g b = Some a
    \<and> unat a = alloc_spec (geo_kind g) (unat (geo_width g)) (sectors_spec (unat b) (unat (geo_ashift g)))"
proof -
  let ?d = "data_sectors g b" and ?w = "ucast (geo_width g) :: u64" and ?p = "ucast (parity_of (geo_kind g)) :: u64"
  have d: "unat ?d = sectors_spec (unat b) (unat (geo_ashift g))" by (rule unat_data_sectors [OF ok])
  have d256: "unat ?d \<le> 256" unfolding d using b unat_sector(2) [OF ok] by (rule sectors_spec_bounds)
  have pw: "unat (parity_of (geo_kind g)) < unat (geo_width g)"
    using ok by (simp add: geo_ok_def word_less_nat_alt)
  then have "?p \<le> ?w" by (simp add: word_le_nat_alt unat_u64_of_u32)
  then have cols: "unat (?w - ?p) = unat (geo_width g) - unat (parity_of (geo_kind g))"
    by (simp add: unat_sub unat_u64_of_u32)
  then have "?w - ?p \<noteq> 0" using pw by (metis unat_0 zero_less_diff less_irrefl)
  moreover have "unat ?p \<le> 3" using parity_of_le(1) by (simp add: unat_u64_of_u32)
  ultimately have raidz: "unat (div_ceil (?d + ?p * div_ceil ?d (?w - ?p)) (?p + 1) * (?p + 1))
      = nat_div_ceil (unat ?d + unat ?p * nat_div_ceil (unat ?d) (unat (?w - ?p))) (unat ?p + 1) * (unat ?p + 1)"
    by (intro unat_raidz d256)
  have mirror: "unat (?d * ?w) = unat ?d * unat (geo_width g)"
  proof -
    have "unat ?d * unat (geo_width g) \<le> 256 * 2 ^ 32"
      using d256 unat_less_power [of "geo_width g"] by (intro mult_le_mono) auto
    then show ?thesis by (simp add: unat_word_ariths unat_u64_of_u32)
  qed
  show ?thesis
    using raidz mirror \<open>?w - ?p \<noteq> 0\<close> cols d
    by (cases "geo_kind g")
      (auto simp: allocated_sectors_def Let_def alloc_spec_def unat_u64_of_u32 parity_of_def nat_div_ceil_def)
qed

text \<open>
  C12: for every geometry of a valid layout and every block up to 128 KiB, the sectors charged are
  those OpenZFS allocates, with no wrap-around: the data alone on a single disk, a copy per disk on a
  mirror, and on raidz the data with a parity sector per row and parity disk, rounded up to a
  multiple of the parity plus one.
\<close>

theorem allocated_sectors_exact:
  assumes "geo_ok g" and "unat b \<le> 2 ^ 17"
  shows "\<exists>a. allocated_sectors g b = Some a
    \<and> unat a = alloc_spec (geo_kind g) (unat (geo_width g)) (sectors_spec (unat b) (unat (geo_ashift g)))
    \<and> unat (data_sectors g b) = sectors_spec (unat b) (unat (geo_ashift g))
    \<and> unat (data_sectors g b) \<le> unat a \<and> (unat (parity_of (geo_kind g)) + 1) dvd unat a"
proof -
  let ?d = "sectors_spec (unat b) (unat (geo_ashift g))" and ?k = "geo_kind g" and ?w = "unat (geo_width g)"
  have w: "0 < ?w" using assms(1) by (auto simp: geo_ok_def word_less_nat_alt)
  have "?d \<le> alloc_spec ?k ?w ?d"
    using alloc_spec_ge(1) [of ?d ?k ?w] w by (auto simp: alloc_spec_def)
  moreover have "(unat (parity_of ?k) + 1) dvd alloc_spec ?k ?w ?d"
    using alloc_spec_ge(3) [of ?k] parity_of_le(3) [of ?k] by (cases "is_raidz ?k") auto
  ultimately show ?thesis
    using allocated_sectors_spec [OF assms] unat_data_sectors [OF assms(1)] by auto
qed

theorem allocated_sectors_exact_witness:
  "\<exists>a. allocated_sectors \<lparr> geo_kind = Raidz1, geo_width = 4, geo_ashift = 12 \<rparr> 8192 = Some a \<and> unat a = 4"
proof -
  let ?g = "\<lparr> geo_kind = Raidz1, geo_width = 4, geo_ashift = 12 \<rparr>"
  have "geo_ok ?g" by (simp add: geo_ok_def parity_of_def MIN_ASHIFT_def MAX_ASHIFT_def)
  moreover have "sectors_spec 8192 12 = 2" by (simp add: sectors_spec_def nat_div_ceil_def)
  moreover have "alloc_spec Raidz1 4 2 = 4" by code_simp
  ultimately show ?thesis using allocated_sectors_exact [of ?g 8192] by auto
qed

lemma ratio_wide_le:
  assumes "ratio_wide n d = Some r"
  shows "unat (num r) \<le> n \<and> unat (den r) \<le> d"
  using assms by (auto simp: ratio_wide_def Let_def bind_eq_Some_conv try_from_nat_Some_iff split: if_splits)

lemma efficiency_spec:
  assumes ok: "geo_ok g" and b: "unat b \<le> 2 ^ 17"
  defines "d \<equiv> sectors_spec (unat b) (unat (geo_ashift g))"
  shows "\<exists>r. efficiency g b = Some r \<and> ratio_ok r
    \<and> ratio_val r = of_nat d / of_nat (alloc_spec (geo_kind g) (unat (geo_width g)) d)
    \<and> 0 < d \<and> 0 < alloc_spec (geo_kind g) (unat (geo_width g)) d
    \<and> (geo_kind g \<noteq> Mirror \<longrightarrow> unat (num r) \<le> 256 \<and> unat (den r) \<le> 2048)"
proof -
  obtain a where a: "allocated_sectors g b = Some a"
    "unat a = alloc_spec (geo_kind g) (unat (geo_width g)) d"
    unfolding d_def using allocated_sectors_spec [OF ok b] by blast
  have d: "1 \<le> d" "d \<le> 256" unfolding d_def using sectors_spec_bounds b unat_sector(2) [OF ok] by blast+
  have w: "unat (parity_of (geo_kind g)) < unat (geo_width g)" using ok by (simp add: geo_ok_def word_less_nat_alt)
  then have pos: "0 < alloc_spec (geo_kind g) (unat (geo_width g)) d"
    using alloc_spec_ge(1) [of d "geo_kind g" "unat (geo_width g)"] d by (auto simp: alloc_spec_def)
  then have "a \<noteq> 0" using a(2) by auto
  then obtain r where r: "ratio_new (data_sectors g b) a = Some r" using ratio_new_ex by blast
  then have "unat (num r) \<le> d" "unat (den r) \<le> alloc_spec (geo_kind g) (unat (geo_width g)) d"
    using ratio_wide_le [of _ _ r] unfolding ratio_new_wide a(2) d_def unat_data_sectors [OF ok] by blast+
  moreover have "geo_kind g \<noteq> Mirror \<Longrightarrow> alloc_spec (geo_kind g) (unat (geo_width g)) d \<le> 2048"
    using alloc_raidz_le d(2) w by blast
  ultimately show ?thesis
    using a(1) r ratio_new_Some_val [OF r] pos d unfolding a(2) unat_data_sectors [OF ok] d_def [symmetric]
    by (auto simp: efficiency_def)
qed

lemma raidz_overhead:
  assumes "is_raidz k" and w: "unat (parity_of k) < width"
  shows "d * width \<le> (width - unat (parity_of k)) * alloc_spec k width d"
proof -
  let ?p = "unat (parity_of k)"
  let ?c = "nat_div_ceil d (width - ?p)"
  have "d * width = d * (width - ?p) + ?p * d" using w by (simp add: diff_mult_distrib2)
  also have "\<dots> \<le> d * (width - ?p) + ?p * (?c * (width - ?p))"
    using nat_div_ceil_mult_ge [of "width - ?p" d] w by simp
  also have "\<dots> = (d + ?p * ?c) * (width - ?p)" by (simp add: distrib_right)
  also have "\<dots> \<le> alloc_spec k width d * (width - ?p)"
    using alloc_spec_ge(2) [OF assms] by (rule mult_le_mono1)
  finally show ?thesis by (simp only: mult.commute)
qed

text \<open>
  No block is stored more efficiently than the ideal of its geometry, \<open>(N - p) / N\<close> on raidz:
  padding and parity only add to it.
\<close>

lemma efficiency_at_most_ideal:
  assumes "geo_ok g" and "unat b \<le> 2 ^ 17"
  shows "\<exists>e i. efficiency g b = Some e \<and> ideal_efficiency g = Some i \<and> ratio_val e \<le> ratio_val i"
proof -
  let ?k = "geo_kind g" and ?w = "unat (geo_width g)" and ?p = "unat (parity_of (geo_kind g))"
  let ?d = "sectors_spec (unat b) (unat (geo_ashift g))"
  let ?a = "alloc_spec ?k ?w ?d"
  obtain e where e: "efficiency g b = Some e" "ratio_val e = of_nat ?d / of_nat ?a" "0 < ?d" "0 < ?a"
    using efficiency_spec [OF assms] by blast
  have w: "?p < ?w" using assms(1) by (simp add: geo_ok_def word_less_nat_alt)
  then have w0: "geo_width g \<noteq> 0" by auto
  then have u0: "(ucast (geo_width g) :: u64) \<noteq> 0" using w by (metis unat_u64_of_u32 unat_0 less_nat_zero_code)
  show ?thesis
  proof (cases "is_raidz ?k")
    case False
    then consider "?k = Single" | "?k = Mirror" by (cases ?k) (auto simp: is_raidz_def)
    then show ?thesis
    proof cases
      case 1
      then have "?d \<le> ?a" using alloc_spec_ge(1) [of ?d ?k ?w] by simp
      then have "ratio_val e \<le> 1" using e by simp
      then show ?thesis using e(1) 1 by (simp add: ideal_efficiency_def ratio_val_ONE)
    next
      case 2
      obtain i where i: "ratio_new 1 (ucast (geo_width g)) = Some i" using ratio_new_ex [OF u0] by blast
      then have "ratio_val i = 1 / of_nat ?w" using ratio_new_Some_val [OF i] by (simp add: unat_u64_of_u32)
      moreover have "ratio_val e = 1 / of_nat ?w" using e 2 by (simp add: alloc_spec_def)
      ultimately show ?thesis using e(1) i 2 by (simp add: ideal_efficiency_def)
    qed
  next
    case True
    let ?n = "ucast (geo_width g) :: u64"
    have "unat (?n - ucast (parity_of ?k)) = ?w - ?p"
      using w by (simp add: unat_sub word_le_nat_alt unat_u64_of_u32)
    moreover obtain i where i: "ratio_new (?n - ucast (parity_of ?k)) ?n = Some i" using ratio_new_ex [OF u0] by blast
    ultimately have val: "ratio_val i = of_nat (?w - ?p) / of_nat ?w"
      using ratio_new_Some_val [OF i] by (simp add: unat_u64_of_u32)
    have "?d * ?w \<le> (?w - ?p) * ?a" by (rule raidz_overhead [OF True w])
    then have "(of_nat ?d * of_nat ?w :: rat) \<le> of_nat (?w - ?p) * of_nat ?a"
      by (simp only: of_nat_mult [symmetric] of_nat_le_iff)
    then have "ratio_val e \<le> ratio_val i"
      using e(2,4) w unfolding val by (simp add: pos_divide_le_eq pos_le_divide_eq)
    moreover have "ideal_efficiency g = Some i"
      using i True by (cases ?k) (auto simp: ideal_efficiency_def Let_def is_raidz_def)
    ultimately show ?thesis using e(1) by blast
  qed
qed

lemma efficiency_at_most_ideal_witness:
  "\<exists>e i. efficiency \<lparr> geo_kind = Raidz2, geo_width = 6, geo_ashift = 12 \<rparr> 16384 = Some e
     \<and> ideal_efficiency \<lparr> geo_kind = Raidz2, geo_width = 6, geo_ashift = 12 \<rparr> = Some i
     \<and> ratio_val e \<le> ratio_val i"
  by (rule efficiency_at_most_ideal)
    (simp_all add: geo_ok_def parity_of_def MIN_ASHIFT_def MAX_ASHIFT_def)

subsection \<open>Inflation and charges\<close>

lemma block_ok_bytes:
  assumes "block_ok b"
  shows "512 \<le> unat (block_bytes b)" "unat (block_bytes b) \<le> 2 ^ 17"
  using assms by (auto simp: block_ok_def block_size_new_def block_bytes_def word_le_nat_alt
      unat_u64_of_u32 split: if_splits)

lemma reporting_bytes: "unat (block_bytes REPORTING) = 2 ^ 17"
  by (simp add: block_bytes_def REPORTING_def K128_def unat_u64_of_u32)

definition ratio_small :: "ratio \<Rightarrow> bool" where
  \<comment> \<open>small enough that a product with a metadata factor fits 64 bits\<close>
  "ratio_small r = (ratio_ok r \<and> 0 < ratio_val r \<and> unat (num r) \<le> 2 ^ 19 \<and> unat (den r) \<le> 2 ^ 19)"

definition alloc_ratio :: "geometry \<Rightarrow> u64 \<Rightarrow> rat" where
  \<comment> \<open>allocated over data sectors\<close>
  "alloc_ratio g b =
     (let d = sectors_spec (unat b) (unat (geo_ashift g))
      in of_nat (alloc_spec (geo_kind g) (unat (geo_width g)) d) / of_nat d)"

lemma inflation_spec:
  assumes ok: "geo_ok g" and b: "block_ok b"
  shows "\<exists>r. inflation g b = Some r
    \<and> ratio_val r = alloc_ratio g (block_bytes b) / alloc_ratio g (block_bytes REPORTING) \<and> ratio_small r"
proof -
  let ?a = "\<lambda>b. alloc_spec (geo_kind g) (unat (geo_width g)) (sectors_spec (unat b) (unat (geo_ashift g)))"
  let ?d = "\<lambda>b. sectors_spec (unat b) (unat (geo_ashift g))"
  have R17: "unat (block_bytes REPORTING) \<le> 2 ^ 17" by (simp add: reporting_bytes)
  obtain e1 where e1: "efficiency g (block_bytes REPORTING) = Some e1" "ratio_ok e1"
    "ratio_val e1 = of_nat (?d (block_bytes REPORTING)) / of_nat (?a (block_bytes REPORTING))"
    "0 < ?d (block_bytes REPORTING)" "0 < ?a (block_bytes REPORTING)"
    "geo_kind g \<noteq> Mirror \<longrightarrow> unat (num e1) \<le> 256 \<and> unat (den e1) \<le> 2048"
    using efficiency_spec [OF ok R17] by blast
  obtain e2 where e2: "efficiency g (block_bytes b) = Some e2" "ratio_ok e2"
    "ratio_val e2 = of_nat (?d (block_bytes b)) / of_nat (?a (block_bytes b))"
    "0 < ?d (block_bytes b)" "0 < ?a (block_bytes b)"
    "geo_kind g \<noteq> Mirror \<longrightarrow> unat (num e2) \<le> 256 \<and> unat (den e2) \<le> 2048"
    using efficiency_spec [OF ok block_ok_bytes(2) [OF b]] by blast
  let ?n = "unat (num e1) * unat (den e2)" and ?m = "unat (den e1) * unat (num e2)"
  have pos: "0 < ratio_val e1" "0 < ratio_val e2" using e1 e2 by simp_all
  then have nz: "num e1 \<noteq> 0" "num e2 \<noteq> 0" "den e1 \<noteq> 0" "den e2 \<noteq> 0"
    using e1(2) e2(2) ratio_pos_val by (auto simp: ratio_ok_def)
  then have m: "0 < ?m" "0 < ?n" by (simp_all add: unat_gt_0)
  have val: "ratio_val e1 / ratio_val e2 = of_nat ?n / of_nat ?m"
    by (simp add: ratio_val_def)
  have val2: "ratio_val e1 / ratio_val e2 = alloc_ratio g (block_bytes b) / alloc_ratio g (block_bytes REPORTING)"
    unfolding e1(3) e2(3) alloc_ratio_def Let_def by (simp add: mult.commute)
  have "\<exists>r. ratio_wide ?n ?m = Some r \<and> unat (num r) \<le> 2 ^ 19 \<and> unat (den r) \<le> 2 ^ 19"
  proof (cases "geo_kind g = Mirror")
    case True
    then have "ratio_val e1 = ratio_val e2"
      unfolding e1(3) e2(3) using e1(4) e2(4) by (simp add: alloc_spec_def)
    then have "(of_nat ?n :: rat) = of_nat ?m" using val pos m by (simp add: divide_eq_1_iff)
    then have "?n = ?m" by (simp only: of_nat_eq_iff)
    then show ?thesis using m
      by (simp add: ratio_wide_def Let_def gcd_loop_eq max_gcd try_from_nat_def)
  next
    case False
    then have "?n \<le> 256 * 2048" "?m \<le> 2048 * 256"
      using e1(6) e2(6) by (blast intro: mult_le_mono)+
    then have "?n < 2 ^ 64" "?m < 2 ^ 64" "?n \<le> 2 ^ 19" "?m \<le> 2 ^ 19" by simp_all
    then show ?thesis using ratio_wide_ex [of ?m ?n] m(1) ratio_wide_le by (meson order_trans)
  qed
  then obtain r where r: "ratio_wide ?n ?m = Some r" "unat (num r) \<le> 2 ^ 19" "unat (den r) \<le> 2 ^ 19" by blast
  then have "ratio_val r = ratio_val e1 / ratio_val e2" "ratio_ok r"
    using ratio_wide_Some_val [OF r(1)] val by auto
  moreover from this have "0 < ratio_val r" using pos by simp
  ultimately show ?thesis
    using r e1(1) e2(1) val2 by (simp add: inflation_def ratio_over_def ratio_small_def)
qed

lemma ratio_small_ONE: "ratio_small ratio_ONE"
  by (simp add: ratio_small_def ratio_val_ONE) (simp add: ratio_ONE_def)

lemma pool_inflation_spec:
  assumes ok: "list_all geo_ok pool" and b: "block_ok b"
  shows "\<exists>r. pool_inflation pool b = Some r \<and> ratio_small r
    \<and> (\<forall>g\<in>set pool. \<exists>i. inflation g b = Some i \<and> ratio_val i \<le> ratio_val r)
    \<and> (pool \<noteq> [] \<longrightarrow> (\<exists>g\<in>set pool. inflation g b = Some r))"
proof -
  let ?rs = "map (\<lambda>g. the (inflation g b)) pool"
  let ?r = "unwrap_or ratio_ONE (max_by ratio_le ?rs)"
  have each: "\<exists>i. inflation g b = Some i \<and> ratio_small i" if "g \<in> set pool" for g
    using inflation_spec [OF _ b] ok that by (metis list_all_iff)
  then have rs: "those (map (\<lambda>g. inflation g b) pool) = Some ?rs"
    unfolding those_map_Some_iff by fastforce
  have small: "\<forall>r\<in>set ?rs. ratio_small r" using each by fastforce
  then have oks: "\<forall>r\<in>set ?rs. ratio_ok r" by (simp add: ratio_small_def)
  have mem: "?r \<in> set ?rs" if "pool \<noteq> []" using max_ratio(3) [OF oks] that by simp
  have "ratio_small ?r"
  proof (cases "pool = []")
    case True
    then show ?thesis by (simp add: max_by_def ratio_small_ONE)
  qed (use mem small in blast)
  moreover have "\<exists>i. inflation g b = Some i \<and> ratio_val i \<le> ratio_val ?r" if "g \<in> set pool" for g
    using max_ratio(2) [OF oks] each [OF that] that by fastforce
  moreover have "\<exists>g\<in>set pool. inflation g b = Some ?r" if "pool \<noteq> []"
    using mem [OF that] each by fastforce
  ultimately show ?thesis using rs by (simp add: pool_inflation_def)
qed

lemma metadata_factor:
  assumes "block_ok b"
  shows "\<exists>m f. metadata_allowance b = Some m \<and> ratio_new (den m + num m) (den m) = Some f
    \<and> ratio_ok f \<and> ratio_val f = 1 + 128 / of_nat (unat (block_bytes b))
    \<and> unat (num f) \<le> 2 ^ 18 \<and> unat (den f) \<le> 2 ^ 18"
proof -
  have bb: "0 < unat (block_bytes b)" "unat (block_bytes b) \<le> 2 ^ 17" using block_ok_bytes [OF assms] by auto
  then have "block_bytes b \<noteq> 0" by auto
  then obtain m where m: "ratio_new 128 (block_bytes b) = Some m" using ratio_new_ex by blast
  then have mv: "ratio_ok m" "ratio_val m = 128 / of_nat (unat (block_bytes b))"
    using ratio_new_Some_val [OF m] by auto
  have le: "unat (num m) \<le> 128" "unat (den m) \<le> 2 ^ 17"
    using ratio_wide_le [of _ _ m] m bb unfolding ratio_new_wide by fastforce+
  then have sum: "unat (den m + num m) = unat (den m) + unat (num m)"
    by (simp add: unat_word_ariths)
  have "den m \<noteq> 0" using mv by (simp add: ratio_ok_def)
  then obtain f where f: "ratio_new (den m + num m) (den m) = Some f" using ratio_new_ex by blast
  then have "ratio_ok f" "ratio_val f = (of_nat (unat (den m)) + of_nat (unat (num m))) / of_nat (unat (den m))"
    using ratio_new_Some_val [OF f] by (auto simp: sum)
  moreover have "(of_nat (unat (den m)) + of_nat (unat (num m))) / of_nat (unat (den m)) = 1 + ratio_val m"
    using \<open>den m \<noteq> 0\<close> by (simp add: ratio_val_def add_divide_distrib unat_gt_0)
  moreover have "unat (num f) \<le> 2 ^ 18" "unat (den f) \<le> 2 ^ 18"
    using ratio_wide_le [of _ _ f] f le unfolding ratio_new_wide sum by fastforce+
  ultimately show ?thesis using m f mv by (simp add: metadata_allowance_def)
qed

lemma charge_spec:
  assumes "list_all geo_ok pool" and "block_ok b"
  shows "\<exists>i c. pool_inflation pool b = Some i \<and> charge_per_byte pool b = Some c \<and> ratio_ok c \<and> 0 < ratio_val c
    \<and> ratio_val c = ratio_val i * (1 + 128 / of_nat (unat (block_bytes b)))"
proof -
  obtain i where i: "pool_inflation pool b = Some i" "ratio_small i"
    using pool_inflation_spec [OF assms] by blast
  obtain m f where f: "metadata_allowance b = Some m" "ratio_new (den m + num m) (den m) = Some f"
    "ratio_ok f" "ratio_val f = 1 + 128 / of_nat (unat (block_bytes b))"
    "unat (num f) \<le> 2 ^ 18" "unat (den f) \<le> 2 ^ 18"
    using metadata_factor [OF assms(2)] by blast
  have "unat (num i) * unat (num f) \<le> 2 ^ 19 * 2 ^ 18" "unat (den i) * unat (den f) \<le> 2 ^ 19 * 2 ^ 18"
    using i(2) f(5,6) unfolding ratio_small_def by (blast intro: mult_le_mono)+
  moreover have "0 < unat (den i) * unat (den f)"
    using i(2) f(3) by (simp add: ratio_small_def ratio_ok_def unat_gt_0)
  ultimately obtain c where c: "ratio_times i f = Some c"
    using ratio_wide_ex [of "unat (den i) * unat (den f)" "unat (num i) * unat (num f)"]
    by (auto simp: ratio_times_def)
  then have cv: "ratio_ok c" "ratio_val c = ratio_val i * ratio_val f"
    using ratio_wide_Some_val by (auto simp: ratio_times_def ratio_val_def)
  have "0 < ratio_val f" unfolding f(4) by (simp add: add_pos_nonneg)
  then have "0 < ratio_val c" using cv i(2) by (simp add: ratio_small_def)
  then show ?thesis using i(1) f(1,2,4) c cv by (auto simp: charge_per_byte_def)
qed

lemma geometry_of_valid:
  assumes "layout_validate l = Ok ()" and "v \<in> set (data_vdevs l)" and "length (vdev_members v) < 2 ^ 32"
  shows "\<exists>g. geometry_of v (layout_ashift l) = Some g \<and> geo_ok g"
proof -
  have "vdev_ok v" using assms(1,2) by (simp add: layout_validate_Ok_iff list_all_iff data_vdevs_def)
  then have "unat (parity_of (vdev_kind v)) < length (vdev_members v)"
    using vdev_ok_tolerates(3) by (simp add: parity_of_def)
  moreover have "unat (of_nat (length (vdev_members v)) :: u32) = length (vdev_members v)"
    using assms(3) by (simp add: unat_of_nat)
  ultimately have "parity_of (vdev_kind v) < of_nat (length (vdev_members v))"
    by (simp add: word_less_nat_alt)
  then show ?thesis
    using assms(1) by (simp add: geometry_of_def geometry_new_def geo_ok_def layout_validate_Ok_iff)
qed

lemma pool_geometry_valid:
  assumes "layout_validate l = Ok ()" and "list_all (\<lambda>v. length (vdev_members v) < 2 ^ 32) (layout_vdevs l)"
  shows "\<exists>pool. pool_geometry_of l = Some pool \<and> list_all geo_ok pool"
proof -
  have each: "\<exists>g. geometry_of v (layout_ashift l) = Some g \<and> geo_ok g" if "v \<in> set (data_vdevs l)" for v
    using assms that by (intro geometry_of_valid) (auto simp: list_all_iff data_vdevs_def)
  then have "pool_geometry_of l = Some (map (\<lambda>v. the (geometry_of v (layout_ashift l))) (data_vdevs l))"
    unfolding pool_geometry_of_def data_vdevs_def [symmetric] those_map_Some_iff by fastforce
  then show ?thesis using each by (fastforce simp: list_all_iff)
qed

text \<open>
  C11: for a layout that validates, with fewer than 2^32 members to a vdev, no capacity figure can
  panic: the pool has a geometry, every block size has a charge per byte, and the charge covers
  on every data vdev what the block really allocates relative to the reporting block, with the
  128-byte block pointer per block.
\<close>

theorem valid_layout_charges:
  assumes "layout_validate l = Ok ()"
    and "list_all (\<lambda>v. length (vdev_members v) < 2 ^ 32) (layout_vdevs l)"
    and "block_ok b"
  shows "\<exists>pool c. pool_geometry_of l = Some pool \<and> charge_per_byte pool b = Some c
    \<and> (\<forall>g\<in>set pool. alloc_ratio g (block_bytes b) / alloc_ratio g (block_bytes REPORTING)
          * (1 + 128 / of_nat (unat (block_bytes b))) \<le> ratio_val c)"
proof -
  obtain pool where pool: "pool_geometry_of l = Some pool" "list_all geo_ok pool"
    using pool_geometry_valid [OF assms(1,2)] by blast
  obtain i c where c: "pool_inflation pool b = Some i" "charge_per_byte pool b = Some c"
    "ratio_val c = ratio_val i * (1 + 128 / of_nat (unat (block_bytes b)))"
    using charge_spec [OF pool(2) assms(3)] by blast
  have "alloc_ratio g (block_bytes b) / alloc_ratio g (block_bytes REPORTING) \<le> ratio_val i"
    if "g \<in> set pool" for g
    using pool_inflation_spec [OF pool(2) assms(3)] inflation_spec [of g b] that pool(2) assms(3) c(1)
    by (fastforce simp: list_all_iff)
  then have "alloc_ratio g (block_bytes b) / alloc_ratio g (block_bytes REPORTING)
        * (1 + 128 / of_nat (unat (block_bytes b))) \<le> ratio_val c" if "g \<in> set pool" for g
    unfolding c(3) using that by (intro mult_right_mono) auto
  then show ?thesis using pool(1) c(2) by blast
qed

lemma block_ok_offered: "list_all block_ok OFFERED"
proof -
  have "block_ok (BlockSize (2 ^ k))" if "k \<in> {14, 15, 16, 17}" for k
    using that by (auto simp: block_ok_def block_size_new_def is_power_of_two_def
        intro: bexI [of _ 14] bexI [of _ 15] bexI [of _ 16] bexI [of _ 17])
  from this [of 14] this [of 15] this [of 16] this [of 17] show ?thesis
    by (simp add: OFFERED_def K16_def K32_def K64_def K128_def)
qed

theorem valid_layout_charges_witness:
  "\<exists>pool c. pool_geometry_of sample_layout = Some pool \<and> charge_per_byte pool K16 = Some c
    \<and> (\<forall>g\<in>set pool. alloc_ratio g (block_bytes K16) / alloc_ratio g (block_bytes REPORTING)
          * (1 + 128 / of_nat (unat (block_bytes K16))) \<le> ratio_val c)"
proof (rule valid_layout_charges [OF sample_layout_valid])
  show "list_all (\<lambda>v. length (vdev_members v) < 2 ^ 32) (layout_vdevs sample_layout)"
    by (simp add: sample_layout_def layout_new_def vdev_new_def vdev_set_boot_def)
  show "block_ok K16" using block_ok_offered by (simp add: OFFERED_def)
qed

subsection \<open>The suggested block size\<close>

lemma worst_spec:
  assumes "list_all (list_all geo_ok) hosts" and "block_ok b"
  shows "\<exists>w. worst_inflation hosts b = Some w \<and> ratio_ok w
    \<and> (\<forall>h\<in>set hosts. \<exists>i. pool_inflation h b = Some i \<and> ratio_val i \<le> ratio_val w)"
proof -
  let ?rs = "map (\<lambda>h. the (pool_inflation h b)) hosts"
  have each: "\<exists>i. pool_inflation h b = Some i \<and> ratio_ok i" if "h \<in> set hosts" for h
    using pool_inflation_spec [of h b] assms that unfolding ratio_small_def list_all_iff by blast
  then have rs: "those (map (\<lambda>h. pool_inflation h b) hosts) = Some ?rs"
    unfolding those_map_Some_iff by fastforce
  have oks: "\<forall>r\<in>set ?rs. ratio_ok r" using each by fastforce
  have "\<exists>i. pool_inflation h b = Some i \<and> ratio_val i \<le> ratio_val (unwrap_or ratio_ONE (max_by ratio_le ?rs))"
    if "h \<in> set hosts" for h
    using max_ratio(2) [OF oks] each [OF that] that by fastforce
  then show ?thesis using rs max_ratio(1) [OF oks] by (simp add: worst_inflation_def)
qed

abbreviation worst_val :: "pool_geometry list \<Rightarrow> block_size \<Rightarrow> rat" where
  "worst_val hosts b \<equiv> ratio_val (the (worst_inflation hosts b))"

lemma find_suggested_eq:
  assumes "\<forall>b\<in>set sizes. \<exists>w. worst_inflation hosts b = Some w \<and> ratio_ok w"
  shows "find_suggested hosts sizes = Some (find (\<lambda>b. worst_val hosts b \<le> 21 / 20) sizes)"
proof -
  have "ratio_le w SUGGESTED_MAX_INFLATION \<longleftrightarrow> ratio_val w \<le> 21 / 20" if "ratio_ok w" for w
    using that by (simp add: ratio_le_val) (simp add: SUGGESTED_MAX_INFLATION_def ratio_val_def ratio_ok_def ratio_le_val)
  then show ?thesis using assms by (induction sizes) fastforce+
qed

lemma find_sorted_first:
  assumes "find P (sort_key f xs) = Some x"
  shows "x \<in> set xs \<and> P x \<and> (\<forall>y\<in>set xs. P y \<longrightarrow> f x \<le> f y)"
proof -
  obtain i where i: "i < length (sort_key f xs)" "P (sort_key f xs ! i)" "x = sort_key f xs ! i"
    and before: "\<forall>j<i. \<not> P (sort_key f xs ! j)"
    using assms by (auto simp: find_Some_iff)
  have "f x \<le> f y" if y: "y \<in> set xs" "P y" for y
  proof -
    obtain j where j: "j < length (sort_key f xs)" "y = sort_key f xs ! j"
      using y(1) by (metis in_set_conv_nth set_sort)
    then have "i \<le> j" using before y(2) by (meson not_less)
    then show ?thesis
      using j(1) i(3) j(2) sorted_sort_key [of f xs] by (auto simp: sorted_iff_nth_mono)
  qed
  moreover have "x \<in> set xs" using i(1,3) by (metis nth_mem set_sort)
  ultimately show ?thesis using i by blast
qed

text \<open>
  Whenever a block size is offered, one is suggested. It is the smallest offered size whose
  inflation is at most 1.05 on every placement host and, when none is, a size whose worst
  inflation over the hosts is least.
\<close>

lemma suggested_block_size_best:
  assumes "list_all (list_all geo_ok) hosts" and "list_all block_ok offered" and "offered \<noteq> []"
  shows "\<exists>b. suggested_block_size hosts offered = Some (Some b) \<and> b \<in> set offered
    \<and> (if \<exists>c\<in>set offered. worst_val hosts c \<le> 21 / 20
       then worst_val hosts b \<le> 21 / 20
         \<and> (\<forall>c\<in>set offered. worst_val hosts c \<le> 21 / 20 \<longrightarrow> block_size_get b \<le> block_size_get c)
       else \<forall>c\<in>set offered. worst_val hosts b \<le> worst_val hosts c)"
proof -
  let ?sizes = "sort_key block_size_get offered" and ?w = "\<lambda>b. the (worst_inflation hosts b)"
  have rated: "\<exists>w. worst_inflation hosts b = Some w \<and> ratio_ok w" if "b \<in> set offered" for b
    using worst_spec [OF assms(1)] assms(2) that by (metis list_all_iff)
  then have found: "find_suggested hosts ?sizes = Some (find (\<lambda>b. worst_val hosts b \<le> 21 / 20) ?sizes)"
    by (intro find_suggested_eq) simp
  show ?thesis
  proof (cases "find (\<lambda>b. worst_val hosts b \<le> 21 / 20) ?sizes")
    case (Some b)
    from find_sorted_first [OF this] show ?thesis
      using found Some by (auto simp: suggested_block_size_def)
  next
    case None
    have worst: "those (map (worst_inflation hosts) ?sizes) = Some (map ?w ?sizes)"
      unfolding those_map_Some_iff using rated by fastforce
    have zip: "zip ?sizes (map ?w ?sizes) = map (\<lambda>b. (b, ?w b)) ?sizes"
      by (simp add: zip_map2 zip_same_conv_map)
    define rs where "rs = map (\<lambda>b. (b, ?w b)) ?sizes"
    have rs: "r \<in> set rs \<longleftrightarrow> (\<exists>b\<in>set offered. r = (b, ?w b))" for r unfolding rs_def by auto
    have "min_by (\<lambda>a b. ratio_le (snd a) (snd b)) rs = min_by (\<lambda>a b. ratio_val (snd a) \<le> ratio_val (snd b)) rs"
      using rated by (intro min_by_cong ratio_le_val) (fastforce simp: rs)+
    moreover obtain m where m: "min_by (\<lambda>a b. ratio_val (snd a) \<le> ratio_val (snd b)) rs = Some m"
      using rs assms(3) by (cases "min_by (\<lambda>a b. ratio_val (snd a) \<le> ratio_val (snd b)) rs") fastforce+
    ultimately have min: "suggested_block_size hosts offered = Some (Some (fst m))"
      using found None worst by (simp add: suggested_block_size_def zip rs_def)
    have "m \<in> set rs" "\<forall>r\<in>set rs. ratio_val (snd m) \<le> ratio_val (snd r)"
      using key.min_by_in [OF m] key.min_by_le [OF m] by auto
    then have "fst m \<in> set offered" "\<forall>c\<in>set offered. worst_val hosts (fst m) \<le> worst_val hosts c"
      unfolding rs by (metis rs fst_conv snd_conv)+
    with min None show ?thesis by (auto simp: find_None_iff)
  qed
qed

lemma suggested_block_size_best_witness:
  "\<exists>b. suggested_block_size [[\<lparr> geo_kind = Raidz2, geo_width = 6, geo_ashift = 12 \<rparr>]] OFFERED = Some (Some b)
     \<and> b \<in> set OFFERED"
  using suggested_block_size_best [of "[[\<lparr> geo_kind = Raidz2, geo_width = 6, geo_ashift = 12 \<rparr>]]" OFFERED]
    block_ok_offered
  by (auto simp: geo_ok_def parity_of_def MIN_ASHIFT_def MAX_ASHIFT_def OFFERED_def)

end
