(* ===== verification/Core_Units.thy ===== *)
theory Core_Units
  imports Rust_Prelude
begin

section \<open>Byte counts\<close>

text \<open>
  Models src/v3/crates/bmac-core/src/units.rs. A \<^verbatim>\<open>Bytes\<close> is a 64-bit count whose
  arithmetic saturates. Its \<^verbatim>\<open>Display\<close> and \<^verbatim>\<open>as_gib\<close> go through floating point
  and are not modelled.
\<close>

datatype bytes = Bytes (bytes_get: u64)

definition KIB :: u64 where
  "KIB = 1024"

definition MIB :: u64 where
  "MIB = 1024 * 1024"

definition GIB :: u64 where
  "GIB = 1024 * 1024 * 1024"

definition TIB :: u64 where
  "TIB = 1024 * 1024 * 1024 * 1024"

definition from_gib :: "u64 \<Rightarrow> bytes" where
  "from_gib gib = Bytes (saturating_mul gib GIB)"

definition from_mib :: "u64 \<Rightarrow> bytes" where
  "from_mib mib = Bytes (saturating_mul mib MIB)"

definition whole_gib :: "bytes \<Rightarrow> u64" where
  "whole_gib b = bytes_get b div GIB"

definition bytes_saturating_sub :: "bytes \<Rightarrow> bytes \<Rightarrow> bytes" where
  "bytes_saturating_sub a b = Bytes (saturating_sub (bytes_get a) (bytes_get b))"

definition bytes_add :: "bytes \<Rightarrow> bytes \<Rightarrow> bytes" where
  "bytes_add a b = Bytes (saturating_add (bytes_get a) (bytes_get b))"

definition bytes_sub :: "bytes \<Rightarrow> bytes \<Rightarrow> bytes" where
  "bytes_sub a b = bytes_saturating_sub a b"

definition bytes_sum :: "bytes list \<Rightarrow> bytes" where
  "bytes_sum xs = foldl bytes_add (Bytes 0) xs"

abbreviation bytes_nat :: "bytes \<Rightarrow> nat" where
  "bytes_nat b \<equiv> unat (bytes_get b)"

lemmas byte_units = KIB_def MIB_def GIB_def TIB_def

lemma unat_MIB [unat_ops]: "unat MIB = 2 ^ 20"
  by (simp add: MIB_def)

lemma unat_GIB [unat_ops]: "unat GIB = 2 ^ 30"
  by (simp add: GIB_def)

lemma bytes_nat_le: "bytes_nat b \<le> 2 ^ 64 - 1"
  using unat_less_power [of "bytes_get b"] by simp

lemma bytes_nat_add [unat_ops]: "bytes_nat (bytes_add a b) = min (bytes_nat a + bytes_nat b) (2 ^ 64 - 1)"
  by (simp add: bytes_add_def unat_ops)

lemma bytes_nat_sub [unat_ops]: "bytes_nat (bytes_sub a b) = bytes_nat a - bytes_nat b"
  by (simp add: bytes_sub_def bytes_saturating_sub_def unat_ops)

lemma bytes_nat_foldl_add:
  "bytes_nat (foldl bytes_add a xs) = min (bytes_nat a + sum_list (map bytes_nat xs)) (2 ^ 64 - 1)"
proof (induction xs arbitrary: a)
  case Nil
  then show ?case using bytes_nat_le [of a] by simp
next
  case (Cons x xs)
  then show ?case by (simp add: unat_ops)
qed

text \<open>
  A sum of byte counts is the exact sum, or the largest 64-bit number when the exact sum does
  not fit: no order of additions can turn an impossible size into a small one.
\<close>

lemma bytes_sum_saturates:
  "bytes_nat (bytes_sum xs) = min (sum_list (map bytes_nat xs)) (2 ^ 64 - 1)"
  using bytes_nat_foldl_add [of "Bytes 0" xs] by (simp add: bytes_sum_def)

end
