(* ===== verification/Storage_Capacity.thy ===== *)
theory Storage_Capacity
  imports Storage_Geometry Core_Units
begin

section \<open>Capacity decisions\<close>

text \<open>
  The model of src/v3/crates/bmac-storage/src/capacity.rs (the reserve, disk growth, placement,
  refreservations). A panic of the geometry is the outer \<open>None\<close>. The texts built with \<^verbatim>\<open>Display\<close> of byte counts are left out.
\<close>

definition POOL_RESERVE_PERCENT :: u64 where
  "POOL_RESERVE_PERCENT = 10"

record pool_space =
  ps_used :: u64
  ps_available :: u64

definition ps_total :: "pool_space \<Rightarrow> u64" where
  "ps_total s = saturating_add (ps_used s) (ps_available s)"

definition ps_reserve :: "pool_space \<Rightarrow> u64" where
  "ps_reserve s =
     try_from_or_max (nat_div_ceil (unat (ps_total s) * unat POOL_RESERVE_PERCENT) 100)"

definition ps_headroom :: "pool_space \<Rightarrow> u64" where
  "ps_headroom s = saturating_sub (ps_available s) (ps_reserve s)"

datatype zvol_allocation = Sparse (guest_free: u64) | Reserved (refreservation: u64)

record host_pool =
  hp_host :: host_slot
  hp_space :: pool_space
  hp_geometry :: pool_geometry

datatype capacity_error =
    NoHosts
  | EmptyVolume
  | EmptyPool host_slot
  | ReservationBelowSize bytes bytes

record growth_row =
  row_host :: host_slot
  row_total :: u64
  row_available :: u64
  row_reserve :: u64
  row_headroom :: u64
  row_charge :: ratio
  row_allowed :: u64

record growth =
  growth_hosts :: "growth_row list"
  growth_allowed :: u64

definition growth_row_of ::
    "zvol_allocation \<Rightarrow> u64 \<Rightarrow> block_size \<Rightarrow> host_pool \<Rightarrow> (capacity_error, growth_row) result option" where
  \<comment> \<open>one turn of the loop over the hosts\<close>
  "growth_row_of allocation volsize block pool =
     (if ps_total (hp_space pool) = 0 then Some (Err (EmptyPool (hp_host pool)))
      else do {
        let headroom = ps_headroom (hp_space pool);
        charge \<leftarrow> charge_per_byte (hp_geometry pool) block;
        (charge, allowed) \<leftarrow> (case allocation of
            Reserved r \<Rightarrow> do {
              own \<leftarrow> ratio_new r volsize;
              let charge = ratio_max charge own;
              Some (charge, div_floor charge headroom)
            }
          | Sparse free \<Rightarrow> Some (charge, saturating_sub (div_floor charge headroom) free));
        Some (Ok \<lparr> row_host = hp_host pool, row_total = ps_total (hp_space pool),
                   row_available = ps_available (hp_space pool),
                   row_reserve = ps_reserve (hp_space pool), row_headroom = headroom,
                   row_charge = charge, row_allowed = allowed \<rparr>)
      })"

fun growth_rows ::
    "zvol_allocation \<Rightarrow> u64 \<Rightarrow> block_size \<Rightarrow> host_pool list
     \<Rightarrow> (capacity_error, growth_row list) result option" where
  "growth_rows allocation volsize block [] = Some (Ok [])"
| "growth_rows allocation volsize block (pool # pools) = do {
     first \<leftarrow> growth_row_of allocation volsize block pool;
     case first of
       Err e \<Rightarrow> Some (Err e)
     | Ok row \<Rightarrow> do {
         rest \<leftarrow> growth_rows allocation volsize block pools;
         Some (and_then rest (\<lambda>rows. Ok (row # rows)))
       }
   }"

definition growth_allowance ::
    "zvol_allocation \<Rightarrow> u64 \<Rightarrow> block_size \<Rightarrow> host_pool list
     \<Rightarrow> (capacity_error, growth) result option" where
  "growth_allowance allocation volsize block hosts =
     (if hosts = [] then Some (Err NoHosts)
      else if volsize = 0 then Some (Err EmptyVolume)
      else if (case allocation of Reserved r \<Rightarrow> r < volsize | Sparse _ \<Rightarrow> False)
      then Some (Err (ReservationBelowSize (Bytes volsize) (Bytes (refreservation allocation))))
      else do {
        rows \<leftarrow> growth_rows allocation volsize block hosts;
        Some (and_then rows (\<lambda>rows.
          Ok \<lparr> growth_hosts = rows,
               growth_allowed = unwrap_or 0 (list_min (map row_allowed rows)) div MIB * MIB \<rparr>))
      })"

record placement =
  pl_available :: u64
  pl_needed :: u64
  pl_reserve :: u64

definition placement_check :: "pool_space \<Rightarrow> u64 \<Rightarrow> placement" where
  "placement_check space needed =
     \<lparr> pl_available = ps_available space, pl_needed = needed, pl_reserve = ps_reserve space \<rparr>"

definition placement_fits :: "placement \<Rightarrow> bool" where
  "placement_fits p =
     is_some_and (\<lambda>left. pl_reserve p \<le> left) (checked_sub (pl_available p) (pl_needed p))"

definition placement_spare :: "placement \<Rightarrow> u64 option" where
  "placement_spare p =
     Option.bind (checked_sub (pl_available p) (pl_needed p)) (\<lambda>left. checked_sub left (pl_reserve p))"

definition reserved_refreservation :: "u64 \<Rightarrow> block_size \<Rightarrow> pool_geometry \<Rightarrow> u64 \<Rightarrow> u64 option" where
  "reserved_refreservation volsize block geometry zfs_auto =
     map_option (\<lambda>needed. max needed zfs_auto) (space_needed geometry volsize block)"

subsection \<open>The reserve\<close>

declare of_nat_unat [simp del]

lemma unat_total: "unat (ps_total s) = min (unat (ps_used s) + unat (ps_available s)) (2 ^ 64 - 1)"
  by (simp add: ps_total_def unat_ops)

lemma unat_reserve: "unat (ps_reserve s) = nat_div_ceil (unat (ps_total s) * 10) 100"
proof -
  have "nat_div_ceil (unat (ps_total s) * 10) 100 \<le> unat (ps_total s)"
    by (simp add: nat_div_ceil_le_iff)
  then have "nat_div_ceil (unat (ps_total s) * 10) 100 \<le> 2 ^ 64 - 1"
    using unat_less_power [of "ps_total s"] by simp
  then show ?thesis by (simp add: ps_reserve_def unat_ops POOL_RESERVE_PERCENT_def)
qed

lemma reserve_share: "(of_nat (unat (ps_total s)) :: rat) / 10 \<le> of_nat (unat (ps_reserve s))"
proof -
  have "unat (ps_total s) * 10 \<le> unat (ps_reserve s) * 100"
    unfolding unat_reserve by (rule nat_div_ceil_mult_ge) simp
  then have "unat (ps_total s) \<le> unat (ps_reserve s) * 10" by simp
  then have "(of_nat (unat (ps_total s)) :: rat) \<le> of_nat (unat (ps_reserve s) * 10)"
    by (simp only: of_nat_le_iff)
  then show ?thesis by simp
qed

lemma headroom_reserve:
  assumes "0 < x" and "(x :: rat) \<le> of_nat (unat (ps_headroom s))"
  shows "of_nat (unat (ps_reserve s)) \<le> of_nat (unat (ps_available s)) - x"
proof -
  have "unat (ps_headroom s) = unat (ps_available s) - unat (ps_reserve s)"
    by (simp add: ps_headroom_def unat_ops)
  moreover have "(0::rat) < of_nat (unat (ps_headroom s))" using assms by linarith
  then have "0 < unat (ps_headroom s)" by (simp only: of_nat_0_less_iff)
  ultimately have "(of_nat (unat (ps_headroom s)) :: rat) = of_nat (unat (ps_available s)) - of_nat (unat (ps_reserve s))"
    by (simp add: of_nat_diff)
  then show ?thesis using assms(2) by linarith
qed

subsection \<open>Growth\<close>

definition in_use_later :: "zvol_allocation \<Rightarrow> nat" where
  \<comment> \<open>what the guest may still write without growth\<close>
  "in_use_later a = (case a of Sparse free \<Rightarrow> unat free | Reserved _ \<Rightarrow> 0)"

definition growth_charge :: "zvol_allocation \<Rightarrow> u64 \<Rightarrow> rat \<Rightarrow> rat" where
  \<comment> \<open>pool bytes per byte of growth\<close>
  "growth_charge a volsize c =
     (case a of Sparse _ \<Rightarrow> c | Reserved r \<Rightarrow> max c (of_nat (unat r) / of_nat (unat volsize)))"

lemma charge_per_byte_ok: "charge_per_byte pool b = Some c \<Longrightarrow> ratio_ok c"
  by (auto simp: charge_per_byte_def bind_eq_Some_conv ratio_times_def dest: ratio_wide_Some_val)

lemma growth_row_Ok:
  assumes "growth_row_of a volsize b pool = Some (Ok row)"
  shows "\<exists>c. charge_per_byte (hp_geometry pool) b = Some c
    \<and> ratio_ok (row_charge row) \<and> ratio_val (row_charge row) = growth_charge a volsize (ratio_val c)
    \<and> unat (row_allowed row) = unat (div_floor (row_charge row) (ps_headroom (hp_space pool))) - in_use_later a
    \<and> ps_total (hp_space pool) \<noteq> 0 \<and> row_host row = hp_host pool"
proof (cases a)
  case (Sparse free)
  then show ?thesis
    using assms charge_per_byte_ok
    by (auto simp: growth_row_of_def bind_eq_Some_conv in_use_later_def growth_charge_def unat_ops Let_def split: if_splits)
next
  case (Reserved r)
  then obtain c own where *: "charge_per_byte (hp_geometry pool) b = Some c" "ratio_new r volsize = Some own"
    "row_charge row = ratio_max c own" "row_allowed row = div_floor (ratio_max c own) (ps_headroom (hp_space pool))"
    "ps_total (hp_space pool) \<noteq> 0" "row_host row = hp_host pool"
    using assms by (auto simp: growth_row_of_def bind_eq_Some_conv Let_def split: if_splits)
  then show ?thesis
    using Reserved ratio_max_val [OF charge_per_byte_ok [OF *(1)]] ratio_new_Some_val [OF *(2)]
    by (simp add: in_use_later_def growth_charge_def)
qed

lemma growth_rows_Ok:
  assumes "growth_rows a volsize b pools = Some (Ok rows)"
  shows "list_all2 (\<lambda>pool row. growth_row_of a volsize b pool = Some (Ok row)) pools rows"
  using assms
proof (induction pools arbitrary: rows)
  case Nil
  then show ?case by simp
next
  case (Cons pool pools)
  then obtain first where "growth_row_of a volsize b pool = Some first"
    by (auto simp: bind_eq_Some_conv)
  with Cons show ?case by (cases first) (auto simp: bind_eq_Some_conv and_then_Ok_iff)
qed

lemma growth_Ok:
  assumes "growth_allowance a volsize b hosts = Some (Ok g)"
  shows "list_all2 (\<lambda>pool row. growth_row_of a volsize b pool = Some (Ok row)) hosts (growth_hosts g)"
    and "\<exists>m. list_min (map row_allowed (growth_hosts g)) = Some m \<and> growth_allowed g = m div MIB * MIB"
proof -
  obtain rows where rows: "hosts \<noteq> []" "growth_rows a volsize b hosts = Some (Ok rows)" "growth_hosts g = rows"
    "growth_allowed g = unwrap_or 0 (list_min (map row_allowed rows)) div MIB * MIB"
    using assms by (auto simp: growth_allowance_def bind_eq_Some_conv and_then_Ok_iff split: if_splits)
  then show all2: "list_all2 (\<lambda>pool row. growth_row_of a volsize b pool = Some (Ok row)) hosts (growth_hosts g)"
    using growth_rows_Ok by simp
  then have "growth_hosts g \<noteq> []" using rows(1) by auto
  then obtain m where "list_min (map row_allowed (growth_hosts g)) = Some m"
    by (cases "list_min (map row_allowed (growth_hosts g))") auto
  then show "\<exists>m. list_min (map row_allowed (growth_hosts g)) = Some m \<and> growth_allowed g = m div MIB * MIB"
    using rows by simp
qed

lemma unat_MIB_floor:
  "unat (m div MIB * MIB) = unat m div 2 ^ 20 * 2 ^ 20"
proof -
  have "unat m div 2 ^ 20 * 2 ^ 20 \<le> unat m" by simp
  then have "unat m div 2 ^ 20 * 2 ^ 20 < 2 ^ 64" using unat_less_power [of m] by simp
  then show ?thesis by (simp add: unat_word_ariths unat_div unat_MIB)
qed

text \<open>
  C4: an allowed growth is a whole number of MiB that every placement host can take: charged at the
  pool's rate (and at no less than the zvol's own reservation per byte), together with the space
  the guest may already write, it leaves at least a tenth of the pool's size free.
\<close>

theorem growth_fits_everywhere:
  assumes "growth_allowance a volsize b hosts = Some (Ok g)"
    and "0 < growth_allowed g"
    and "pool \<in> set hosts"
  shows "2 ^ 20 dvd unat (growth_allowed g)
    \<and> (\<exists>c. charge_per_byte (hp_geometry pool) b = Some c
      \<and> of_nat (unat (ps_total (hp_space pool))) / 10
          \<le> of_nat (unat (ps_available (hp_space pool)))
            - of_nat (unat (growth_allowed g) + in_use_later a) * growth_charge a volsize (ratio_val c))"
proof -
  obtain m where m: "list_min (map row_allowed (growth_hosts g)) = Some m" "growth_allowed g = m div MIB * MIB"
    using growth_Ok(2) [OF assms(1)] by blast
  from growth_Ok(1) [OF assms(1)] assms(3) obtain row where
    row: "row \<in> set (growth_hosts g)" "growth_row_of a volsize b pool = Some (Ok row)"
    by (blast dest: list_all2_left)
  obtain c where c: "charge_per_byte (hp_geometry pool) b = Some c" "ratio_ok (row_charge row)"
    "ratio_val (row_charge row) = growth_charge a volsize (ratio_val c)"
    "unat (row_allowed row) = unat (div_floor (row_charge row) (ps_headroom (hp_space pool))) - in_use_later a"
    using growth_row_Ok [OF row(2)] by blast
  have g: "unat (growth_allowed g) = unat m div 2 ^ 20 * 2 ^ 20" unfolding m(2) by (rule unat_MIB_floor)
  have "m \<le> row_allowed row" using m(1) row(1) by (simp add: list_min_Some)
  then have "unat (growth_allowed g) \<le> unat (row_allowed row)"
    unfolding g by (meson div_times_less_eq_dividend order_trans word_le_nat_alt)
  moreover have pos: "0 < unat (growth_allowed g)" using assms(2) by (simp add: unat_gt_0 word_gt_0)
  ultimately have le: "unat (growth_allowed g) + in_use_later a
      \<le> unat (div_floor (row_charge row) (ps_headroom (hp_space pool)))" using c(4) by linarith
  let ?x = "of_nat (unat (growth_allowed g) + in_use_later a) * ratio_val (row_charge row)"
  have "?x \<le> of_nat (unat (div_floor (row_charge row) (ps_headroom (hp_space pool)))) * ratio_val (row_charge row)"
    using le ratio_val_nonneg by (intro mult_right_mono of_nat_mono)
  also have "\<dots> \<le> of_nat (unat (ps_headroom (hp_space pool)))" by (rule div_floor_sound [OF c(2)])
  finally have x: "?x \<le> of_nat (unat (ps_headroom (hp_space pool)))" .
  have nz: "num (row_charge row) \<noteq> 0" using le pos by (auto simp: div_floor_def)
  then have "0 < ?x"
    using ratio_pos_val [OF c(2)] pos by (intro mult_pos_pos) (simp_all only: of_nat_0_less_iff add_gr_0 simp_thms)
  from headroom_reserve [OF this x] reserve_share [of "hp_space pool"] c(1,3) g
  show ?thesis by auto
qed

lemma growth_row_total:
  assumes "list_all geo_ok (hp_geometry pool)" and "block_ok b" and "volsize \<noteq> 0"
  shows "\<exists>r. growth_row_of a volsize b pool = Some r
    \<and> (is_ok r \<longleftrightarrow> ps_total (hp_space pool) \<noteq> 0)"
proof -
  obtain c where "charge_per_byte (hp_geometry pool) b = Some c"
    using charge_spec [OF assms(1,2)] by blast
  moreover obtain own where "ratio_new (refreservation a) volsize = Some own"
    using ratio_new_ex [OF assms(3)] by blast
  ultimately show ?thesis by (cases a) (auto simp: growth_row_of_def Let_def)
qed

lemma growth_rows_total:
  assumes "list_all (\<lambda>p. list_all geo_ok (hp_geometry p)) hosts" and "block_ok b" and "volsize \<noteq> 0"
  shows "\<exists>r. growth_rows a volsize b hosts = Some r
    \<and> (is_ok r \<longleftrightarrow> list_all (\<lambda>p. ps_total (hp_space p) \<noteq> 0) hosts)"
  using assms(1)
proof (induction hosts)
  case Nil
  then show ?case by simp
next
  case (Cons p hosts)
  then obtain r where r: "growth_row_of a volsize b p = Some r" "is_ok r \<longleftrightarrow> ps_total (hp_space p) \<noteq> 0"
    using growth_row_total [OF _ assms(2,3)] by auto
  from Cons obtain s where s: "growth_rows a volsize b hosts = Some s"
    "is_ok s \<longleftrightarrow> list_all (\<lambda>p. ps_total (hp_space p) \<noteq> 0) hosts" by auto
  show ?case using r s by (cases r; cases s) auto
qed


definition sample_pool :: host_pool where
  "sample_pool = \<lparr> hp_host = HostSlot 1, hp_space = \<lparr> ps_used = 0, ps_available = 2 ^ 40 \<rparr>,
     hp_geometry = [\<lparr> geo_kind = Single, geo_width = 1, geo_ashift = 12 \<rparr>] \<rparr>"

lemma sample_pool_ok: "list_all geo_ok (hp_geometry sample_pool)" "block_ok K16"
  using block_ok_offered
  by (simp_all add: sample_pool_def geo_ok_def parity_of_def MIN_ASHIFT_def MAX_ASHIFT_def OFFERED_def)

lemma sample_pool_total: "ps_total (hp_space sample_pool) \<noteq> 0"
proof -
  have "unat (ps_total (hp_space sample_pool)) \<noteq> 0"
    unfolding unat_total by (simp add: sample_pool_def unat_power_two)
  then show ?thesis by auto
qed


text \<open>
  The allowed growth is the largest whole number of MiB that fits: one MiB more does not fit the
  headroom of some host (unless the total no longer fits 64 bits).
\<close>

lemma growth_is_largest:
  assumes "list_all (\<lambda>p. list_all geo_ok (hp_geometry p)) hosts" and "block_ok b"
    and "growth_allowance a volsize b hosts = Some (Ok g)"
    and "unat (growth_allowed g) + 2 ^ 20 + in_use_later a < 2 ^ 64"
  shows "\<exists>pool\<in>set hosts. \<exists>c. charge_per_byte (hp_geometry pool) b = Some c
    \<and> of_nat (unat (ps_headroom (hp_space pool)))
      < of_nat (unat (growth_allowed g) + 2 ^ 20 + in_use_later a) * growth_charge a volsize (ratio_val c)"
proof -
  let ?k = "unat (growth_allowed g) + 2 ^ 20 + in_use_later a"
  obtain m where m: "list_min (map row_allowed (growth_hosts g)) = Some m" "growth_allowed g = m div MIB * MIB"
    using growth_Ok(2) [OF assms(3)] by blast
  then obtain row where row: "row \<in> set (growth_hosts g)" "row_allowed row = m" by (auto simp: list_min_Some)
  with growth_Ok(1) [OF assms(3)] obtain pool where
    pool: "pool \<in> set hosts" "growth_row_of a volsize b pool = Some (Ok row)" by (blast dest: list_all2_right)
  then obtain c where c: "charge_per_byte (hp_geometry pool) b = Some c" "ratio_ok (row_charge row)"
    "ratio_val (row_charge row) = growth_charge a volsize (ratio_val c)"
    "unat (row_allowed row) = unat (div_floor (row_charge row) (ps_headroom (hp_space pool))) - in_use_later a"
    using growth_row_Ok by blast
  have "0 < ratio_val c" using charge_spec [of "hp_geometry pool" b] assms(1,2) pool(1) c(1) by (auto simp: list_all_iff)
  then have "0 < ratio_val (row_charge row)" unfolding c(3) growth_charge_def by (simp add: less_max_iff_disj split: zvol_allocation.split)
  then have nz: "num (row_charge row) \<noteq> 0" using ratio_pos_val c(2) by blast
  have "unat m < unat (growth_allowed g) + 2 ^ 20"
    unfolding m(2) unat_MIB_floor using dividend_less_div_times [of "2 ^ 20" "unat m"] by simp
  then have "\<not> ?k \<le> unat (div_floor (row_charge row) (ps_headroom (hp_space pool)))"
    using c(4) [unfolded row(2)] by linarith
  then have "\<not> of_nat ?k * ratio_val (row_charge row) \<le> of_nat (unat (ps_headroom (hp_space pool)))"
    using div_floor_greatest [OF c(2) nz assms(4)] by blast
  then show ?thesis using pool(1) c(1,3) by (metis not_le)
qed

lemma sample_charge: "charge_per_byte (hp_geometry sample_pool) K16 = Some c \<Longrightarrow> ratio_val c = 129 / 128"
proof -
  let ?g = "\<lparr> geo_kind = Single, geo_width = 1, geo_ashift = 12 \<rparr>"
  assume c: "charge_per_byte (hp_geometry sample_pool) K16 = Some c"
  have "alloc_ratio ?g b = 1" for b
  proof -
    have "alloc_spec Single 1 d = d" for d by (simp add: alloc_spec_def parity_of_def nat_div_ceil_def)
    moreover have "0 < sectors_spec (unat b) 12" by (simp add: sectors_spec_def)
    ultimately show ?thesis by (simp add: alloc_ratio_def Let_def)
  qed
  moreover obtain i where "pool_inflation (hp_geometry sample_pool) K16 = Some i"
    "ratio_val c = ratio_val i * (1 + 128 / of_nat (unat (block_bytes K16)))"
    using charge_spec [OF sample_pool_ok] c by auto
  moreover have "\<exists>i. inflation ?g K16 = Some i \<and> ratio_val i = 1" if "\<And>b. alloc_ratio ?g b = 1"
    using inflation_spec [of ?g K16] sample_pool_ok that by (auto simp: sample_pool_def)
  moreover have "unat (block_bytes K16) = 16384" by (simp add: block_bytes_def K16_def unat_u64_of_u32)
  ultimately show ?thesis
    using pool_inflation_spec [OF sample_pool_ok] by (auto simp: sample_pool_def)
qed

lemma sample_growth:
  "\<exists>g. growth_allowance (Sparse 0) 1 K16 [sample_pool] = Some (Ok g)
     \<and> 2 ^ 20 \<le> unat (growth_allowed g) \<and> unat (growth_allowed g) \<le> 2 ^ 40"
proof -
  have "is_ok r \<longleftrightarrow> True" if "growth_rows (Sparse 0) 1 K16 [sample_pool] = Some r" for r
    using growth_rows_total [of "[sample_pool]" K16 1 "Sparse 0"] sample_pool_ok sample_pool_total that by auto
  moreover obtain r where r: "growth_rows (Sparse 0) 1 K16 [sample_pool] = Some r"
    using growth_rows_total [of "[sample_pool]" K16 1 "Sparse 0"] sample_pool_ok by auto
  ultimately obtain rows where rows: "growth_rows (Sparse 0) 1 K16 [sample_pool] = Some (Ok rows)"
    by (cases r) auto
  then obtain row where row: "rows = [row]" "growth_row_of (Sparse 0) 1 K16 sample_pool = Some (Ok row)"
    using growth_rows_Ok by (fastforce simp: list_all2_Cons1)
  obtain c where c: "ratio_ok (row_charge row)" "ratio_val (row_charge row) = 129 / 128"
    "unat (row_allowed row) = unat (div_floor (row_charge row) (ps_headroom (hp_space sample_pool)))"
    using growth_row_Ok [OF row(2)] sample_charge by (auto simp: growth_charge_def in_use_later_def)
  have total: "unat (ps_total (hp_space sample_pool)) = 2 ^ 40"
    unfolding unat_total by (simp add: sample_pool_def unat_power_two)
  have "unat (ps_reserve (hp_space sample_pool)) = 109951162778"
    unfolding unat_reserve total by (simp add: nat_div_ceil_def)
  then have h: "unat (ps_headroom (hp_space sample_pool)) = 2 ^ 40 - 109951162778"
    by (simp add: ps_headroom_def unat_ops) (simp add: sample_pool_def unat_power_two)
  have "0 < ratio_val (row_charge row)" using c(2) by simp
  then have nz: "num (row_charge row) \<noteq> 0" using ratio_pos_val [OF c(1)] by simp
  have lo: "2 ^ 20 \<le> unat (row_allowed row)"
    unfolding c(3) by (rule div_floor_greatest [OF c(1) nz]) (simp_all add: c(2) h)
  have "of_nat (unat (row_allowed row)) * (129 / 128 :: rat) \<le> of_nat (2 ^ 40)"
    using div_floor_sound [OF c(1), of "ps_headroom (hp_space sample_pool)"] unfolding c(2,3) h by simp
  then have "(of_nat (unat (row_allowed row)) :: rat) \<le> of_nat (2 ^ 40)" by simp
  then have hi: "unat (row_allowed row) \<le> 2 ^ 40" by (simp only: of_nat_le_iff)
  let ?g = "\<lparr> growth_hosts = rows, growth_allowed = row_allowed row div MIB * MIB \<rparr>"
  have "growth_allowance (Sparse 0) 1 K16 [sample_pool] = Some (Ok ?g)"
    using rows row(1) by (simp add: growth_allowance_def list_min_def min_by_def del: growth_rows.simps)
  moreover have "2 ^ 20 \<le> unat (row_allowed row) div 2 ^ 20 * 2 ^ 20"
    using lo mult_le_mono1 [of 1 "unat (row_allowed row) div 2 ^ 20" "2 ^ 20"] by (simp add: div_greater_zero_iff Suc_le_eq)
  moreover have "unat (row_allowed row) div 2 ^ 20 * 2 ^ 20 \<le> 2 ^ 40"
    using hi div_times_less_eq_dividend order_trans by blast
  ultimately show ?thesis by (auto simp: unat_MIB_floor)
qed

theorem growth_fits_everywhere_witness:
  "\<exists>g. growth_allowance (Sparse 0) 1 K16 [sample_pool] = Some (Ok g) \<and> 2 ^ 20 dvd unat (growth_allowed g)"
proof -
  obtain g where g: "growth_allowance (Sparse 0) 1 K16 [sample_pool] = Some (Ok g)" "2 ^ 20 \<le> unat (growth_allowed g)"
    using sample_growth by blast
  then have "0 < growth_allowed g" by (simp add: word_gt_0 flip: unat_gt_0)
  from growth_fits_everywhere [OF g(1) this] g(1) show ?thesis by auto
qed

lemma growth_is_largest_witness:
  "\<exists>g c. growth_allowance (Sparse 0) 1 K16 [sample_pool] = Some (Ok g)
     \<and> of_nat (unat (ps_headroom (hp_space sample_pool)))
        < of_nat (unat (growth_allowed g) + 2 ^ 20 + in_use_later (Sparse 0)) * growth_charge (Sparse 0) 1 (ratio_val c)"
proof -
  obtain g where g: "growth_allowance (Sparse 0) 1 K16 [sample_pool] = Some (Ok g)" "unat (growth_allowed g) \<le> 2 ^ 40"
    using sample_growth by blast
  have "unat (growth_allowed g) + 2 ^ 20 + in_use_later (Sparse 0) < 2 ^ 64"
    using g(2) by (simp add: in_use_later_def)
  from growth_is_largest [OF _ sample_pool_ok(2) g(1) this] sample_pool_ok(1) g(1) show ?thesis
    by auto
qed

subsection \<open>Placement\<close>

text \<open>
  A copy fits exactly when what it needs and the reserve fit what is available, and then the
  spare is exactly what is left; what BMAC reserves for a full zvol covers it at the pool's charge,
  unless the figure does not fit 64 bits.
\<close>

lemma placement_exact:
  assumes "list_all geo_ok geometry" and "block_ok b"
  shows "(placement_fits (placement_check s needed)
      \<longleftrightarrow> unat needed + unat (ps_reserve s) \<le> unat (ps_available s))
    \<and> (placement_fits (placement_check s needed) \<longleftrightarrow> placement_spare (placement_check s needed) \<noteq> None)
    \<and> (placement_spare (placement_check s needed) = Some left
        \<longrightarrow> unat left = unat (ps_available s) - unat needed - unat (ps_reserve s))
    \<and> (\<exists>c x. charge_per_byte geometry b = Some c \<and> reserved_refreservation v b geometry auto = Some x
        \<and> auto \<le> x \<and> (unat x < 2 ^ 64 - 1 \<longrightarrow> of_nat (unat v) * ratio_val c \<le> of_nat (unat x)))"
proof (intro conjI)
  show fits: "placement_fits (placement_check s needed)
      \<longleftrightarrow> unat needed + unat (ps_reserve s) \<le> unat (ps_available s)"
    by (auto simp: placement_fits_def placement_check_def is_some_and_iff checked_sub_Some_iff
        word_le_nat_alt checked_sub_def unat_sub)
  show "placement_fits (placement_check s needed) \<longleftrightarrow> placement_spare (placement_check s needed) \<noteq> None"
    unfolding fits by (auto simp: placement_spare_def placement_check_def bind_eq_Some_conv checked_sub_Some_iff
        checked_sub_def word_le_nat_alt unat_sub)
  show "placement_spare (placement_check s needed) = Some left
        \<longrightarrow> unat left = unat (ps_available s) - unat needed - unat (ps_reserve s)"
    by (auto simp: placement_spare_def placement_check_def bind_eq_Some_conv checked_sub_Some_iff)
  obtain c where c: "charge_per_byte geometry b = Some c" "ratio_ok c" using charge_spec [OF assms] by blast
  obtain y where y: "mul_ceil c v = Some y"
    "unat y < 2 ^ 64 - 1 \<longrightarrow> of_nat (unat v) * ratio_val c \<le> of_nat (unat y)"
    using mul_ceil_val [OF c(2), of v] by blast
  have le: "unat y \<le> unat (max y auto)" by (simp add: unat_max)
  have "of_nat (unat v) * ratio_val c \<le> of_nat (unat (max y auto))" if "unat (max y auto) < 2 ^ 64 - 1"
  proof -
    have "of_nat (unat v) * ratio_val c \<le> of_nat (unat y)" using y(2) le that by linarith
    also have "\<dots> \<le> of_nat (unat (max y auto))" using le by (rule of_nat_mono)
    finally show ?thesis .
  qed
  then show "\<exists>c x. charge_per_byte geometry b = Some c \<and> reserved_refreservation v b geometry auto = Some x
        \<and> auto \<le> x \<and> (unat x < 2 ^ 64 - 1 \<longrightarrow> of_nat (unat v) * ratio_val c \<le> of_nat (unat x))"
    using c(1) y(1) by (auto simp: reserved_refreservation_def space_needed_def)
qed

lemma placement_exact_witness:
  "placement_fits (placement_check \<lparr> ps_used = 0, ps_available = 100 \<rparr> 90)"
  using placement_exact [OF sample_pool_ok, of "\<lparr> ps_used = 0, ps_available = 100 \<rparr>" 90]
  by (simp add: unat_reserve unat_total nat_div_ceil_def)

end
