(* ===== verification/Core_Disk.thy ===== *)
theory Core_Disk
  imports Core_Ids
begin

section \<open>Disk identity\<close>

text \<open>
  The model of src/v3/crates/bmac-core/src/disk.rs: a disk is known by the WWN it reports or, when
  that is missing, blank or made up by the kernel, by its serial number.
\<close>

datatype disk_identity = Wwn string | Serial string

definition DISK_MAX_LEN :: nat where
  "DISK_MAX_LEN = 128"

definition clean :: "string \<Rightarrow> string option" where
  "clean s =
     (let t = trim s;
          printable = list_all (\<lambda>b. is_ascii_graphic b \<or> b = CHR '' '') t
      in if t \<noteq> [] \<and> length t \<le> DISK_MAX_LEN \<and> printable then Some t else None)"

definition is_synthetic_wwn :: "string \<Rightarrow> bool" where
  "is_synthetic_wwn w = starts_with ''nvme.'' w"

definition from_reported :: "string option \<Rightarrow> string option \<Rightarrow> disk_identity option" where
  "from_reported wwn serial =
     (case option_filter (\<lambda>w. \<not> is_synthetic_wwn w \<and> CHR '' '' \<notin> set w)
             (map_option to_ascii_lowercase (Option.bind wwn clean)) of
        Some w \<Rightarrow> Some (Wwn w)
      | None \<Rightarrow> map_option Serial (Option.bind serial clean))"

fun disk_value :: "disk_identity \<Rightarrow> string" where
  "disk_value (Wwn v) = v"
| "disk_value (Serial v) = v"

definition disk_from_str :: "string \<Rightarrow> (invalid_value, disk_identity) result" where
  "disk_from_str s =
     (let invalid = InvalidValue ''disk identity'' s in
      case strip_prefix ''wwn:'' s of
        Some wwn \<Rightarrow>
          (case from_reported (Some wwn) None of
             Some identity \<Rightarrow>
               if disk_value identity = wwn then Ok identity
               else Err (invalid ''expected a lowercase WWN without spaces'')
           | None \<Rightarrow> Err (invalid ''expected a lowercase WWN without spaces''))
      | None \<Rightarrow>
          (case strip_prefix ''serial:'' s of
             Some serial \<Rightarrow>
               (case clean serial of
                  Some t \<Rightarrow>
                    if t = serial then Ok (Serial t)
                    else Err (invalid ''expected a printable serial number without surrounding spaces'')
                | None \<Rightarrow> Err (invalid ''expected a printable serial number without surrounding spaces''))
           | None \<Rightarrow> Err (invalid ''expected wwn:<value> or serial:<value>'')))"

fun disk_display :: "disk_identity \<Rightarrow> string" where
  "disk_display (Wwn v) = ''wwn:'' @ v"
| "disk_display (Serial v) = ''serial:'' @ v"

fun disk_key :: "disk_identity \<Rightarrow> nat \<times> string" where
  \<comment> \<open>the derived \<open>Ord\<close> compares the variant, then the text\<close>
  "disk_key (Wwn v) = (0, v)"
| "disk_key (Serial v) = (1, v)"

instantiation disk_identity :: linorder
begin

definition less_eq_disk_identity :: "disk_identity \<Rightarrow> disk_identity \<Rightarrow> bool" where
  "less_eq_disk_identity a b = (disk_key a \<le> disk_key b)"

definition less_disk_identity :: "disk_identity \<Rightarrow> disk_identity \<Rightarrow> bool" where
  "less_disk_identity a b = (disk_key a < disk_key b)"

instance
proof
  fix x y :: disk_identity
  assume "x \<le> y" "y \<le> x"
  then have "disk_key x = disk_key y"
    unfolding less_eq_disk_identity_def by (rule order.antisym)
  then show "x = y" by (cases x; cases y) simp_all
qed (auto simp: less_eq_disk_identity_def less_disk_identity_def)

end

fun disk_valid :: "disk_identity \<Rightarrow> bool" where
  "disk_valid (Wwn v) = (from_reported (Some v) None = Some (Wwn v))"
| "disk_valid (Serial v) = (clean v = Some v)"

subsection \<open>Cleaning is idempotent\<close>

lemma clean_clean: "clean s = Some t \<Longrightarrow> clean t = Some t"
  using trim_trimmed [OF trimmed_trim [of s]] by (auto simp: clean_def Let_def split: if_splits)

subsection \<open>Lowercasing keeps a clean text clean\<close>

lemma lower_upper: "is_ascii_uppercase c \<Longrightarrow> is_ascii_lowercase (to_ascii_lowercase_char c)"
proof -
  assume c: "is_ascii_uppercase c"
  then have "65 \<le> (of_char c :: nat)" "(of_char c :: nat) \<le> 90"
    by (simp_all add: is_ascii_uppercase_def less_eq_char_def)
  moreover from this have "(of_char (char_of (of_char c + 32 :: nat)) :: nat) = of_char c + 32"
    by (simp add: of_char_of)
  ultimately show ?thesis
    using c by (simp add: to_ascii_lowercase_char_def is_ascii_lowercase_def less_eq_char_def)
qed

lemma lower_char_eq: "to_ascii_lowercase_char x = c \<Longrightarrow> \<not> is_ascii_lowercase c \<Longrightarrow> x = c"
  using lower_upper [of x] by (auto simp: to_ascii_lowercase_char_def split: if_splits)

lemma lower_lowercase: "is_ascii_lowercase c \<Longrightarrow> to_ascii_lowercase_char c = c"
  by (auto simp: to_ascii_lowercase_char_def is_ascii_lowercase_def is_ascii_uppercase_def less_eq_char_def)

lemma lower_lower [simp]: "to_ascii_lowercase (to_ascii_lowercase s) = to_ascii_lowercase s"
proof -
  have "to_ascii_lowercase_char (to_ascii_lowercase_char c) = to_ascii_lowercase_char c" for c
    using lower_lowercase [OF lower_upper [of c]]
    by (cases "is_ascii_uppercase c") (auto simp: to_ascii_lowercase_char_def)
  then show ?thesis by (simp add: to_ascii_lowercase_def)
qed

lemma map_lower_eq:
  "map to_ascii_lowercase_char s = w \<Longrightarrow> list_all (\<lambda>c. \<not> is_ascii_lowercase c) w \<Longrightarrow> s = w"
  by (induction s arbitrary: w) (auto dest: lower_char_eq [OF refl])

lemma starts_with_lower:
  assumes "list_all (\<lambda>c. \<not> is_ascii_lowercase c) w" and "starts_with w (to_ascii_lowercase s)"
  shows "starts_with w s"
  using map_lower_eq [of "take (length w) s" w] assms
  by (simp add: starts_with_def to_ascii_lowercase_def take_map)

lemma white_space_no_letters: "w \<in> set white_space \<Longrightarrow> list_all (\<lambda>c. \<not> is_ascii_lowercase c) w"
proof -
  have "list_all (list_all (\<lambda>c. \<not> is_ascii_lowercase c)) white_space" by code_simp
  then show "w \<in> set white_space \<Longrightarrow> ?thesis" by (simp add: list_all_iff)
qed

lemma no_prefix_lower:
  assumes "no_prefix ws s" and "\<forall>w\<in>set ws. list_all (\<lambda>c. \<not> is_ascii_lowercase c) w"
  shows "no_prefix ws (to_ascii_lowercase s)"
  using assms starts_with_lower unfolding no_prefix_def by blast

lemma trimmed_lower: "trimmed s \<Longrightarrow> trimmed (to_ascii_lowercase s)"
proof -
  assume t: "trimmed s"
  have "no_prefix white_space (to_ascii_lowercase s)"
    using t white_space_no_letters by (intro no_prefix_lower) (simp_all add: trimmed_def)
  moreover have "\<forall>w\<in>set (map rev white_space). list_all (\<lambda>c. \<not> is_ascii_lowercase c) w"
    using white_space_no_letters by (simp add: list_all_iff)
  then have "no_prefix (map rev white_space) (to_ascii_lowercase (rev s))"
    using t by (intro no_prefix_lower) (simp_all add: trimmed_def)
  ultimately show ?thesis by (simp add: trimmed_def to_ascii_lowercase_def rev_map)
qed

lemma printable_lower:
  "is_ascii_graphic c \<or> c = CHR '' '' \<Longrightarrow>
     is_ascii_graphic (to_ascii_lowercase_char c) \<or> to_ascii_lowercase_char c = CHR '' ''"
proof (cases "is_ascii_uppercase c")
  case True
  then have "is_ascii_lowercase (to_ascii_lowercase_char c)" by (rule lower_upper)
  then show ?thesis by (simp add: is_ascii_lowercase_def is_ascii_graphic_def less_eq_char_def)
qed (simp add: to_ascii_lowercase_char_def)

lemma clean_lower:
  assumes "clean s = Some t"
  shows "clean (to_ascii_lowercase t) = Some (to_ascii_lowercase t)"
proof -
  have t: "t = trim s" "t \<noteq> []" "length t \<le> DISK_MAX_LEN"
    "list_all (\<lambda>b. is_ascii_graphic b \<or> b = CHR '' '') t"
    using assms by (auto simp: clean_def Let_def split: if_splits)
  have "trim (to_ascii_lowercase t) = to_ascii_lowercase t"
    unfolding t(1) by (intro trim_trimmed trimmed_lower trimmed_trim)
  moreover have "list_all (\<lambda>b. is_ascii_graphic b \<or> b = CHR '' '') (to_ascii_lowercase t)"
    using t(4) printable_lower unfolding to_ascii_lowercase_def list_all_iff by auto
  ultimately show ?thesis using t(2,3) by (simp add: clean_def to_ascii_lowercase_def)
qed

lemma from_reported_valid: "from_reported wwn serial = Some i \<Longrightarrow> disk_valid i"
  by (auto simp: from_reported_def bind_eq_Some_conv clean_lower clean_clean split: option.splits)

lemma disk_parse_display: "disk_valid v \<Longrightarrow> disk_from_str (disk_display v) = Ok v"
  by (cases v) (simp_all add: disk_from_str_def strip_prefix_def starts_with_def)

lemma disk_from_str_Ok:
  assumes "disk_from_str s = Ok v"
  shows "disk_valid v \<and> disk_display v = s"
proof (cases "strip_prefix ''wwn:'' s")
  case (Some w)
  then have i: "from_reported (Some w) None = Some v" "disk_value v = w"
    using assms by (auto simp: disk_from_str_def Let_def split: option.splits if_splits)
  then obtain u where "v = Wwn u" by (auto simp: from_reported_def split: option.splits)
  then show ?thesis
    using i Some from_reported_valid [OF i(1)] by (auto simp: strip_prefix_Some_iff)
next
  case None
  then obtain t where "strip_prefix ''serial:'' s = Some t" "clean t = Some t" "v = Serial t"
    using assms by (auto simp: disk_from_str_def Let_def split: option.splits if_splits)
  then show ?thesis by (auto simp: strip_prefix_Some_iff)
qed

interpretation disk: exact_text_form disk_from_str disk_display disk_valid
  by unfold_locales (auto simp: disk_parse_display dest: disk_from_str_Ok)

text \<open>
  Whatever a machine reports, the identity taken from it is one that its text form can carry:
  it displays as a text that parses back to it and to nothing else, and two identities never share
  a text. A text is accepted exactly when it is the text of such an identity.
\<close>

lemma disk_identity_text_form:
  "(case from_reported wwn serial of None \<Rightarrow> True
    | Some i \<Rightarrow> disk_from_str (disk_display i) = Ok i)
   \<and> (disk_from_str s = Ok v \<longleftrightarrow> disk_valid v \<and> disk_display v = s)"
  using from_reported_valid disk.parse_display disk.parse_Ok_iff by (auto split: option.split)

text \<open>
  A disk has no identity exactly when it reports neither a usable WWN (printable, without
  spaces, not made up by the kernel) nor a printable serial; a usable WWN is always preferred.
\<close>

lemma from_reported_prefers_wwn:
  "from_reported wwn serial
     = (case from_reported wwn None of
          Some i \<Rightarrow> Some i
        | None \<Rightarrow> map_option Serial (Option.bind serial clean))
   \<and> (from_reported wwn None = None
      \<longleftrightarrow> (case Option.bind wwn clean of
            None \<Rightarrow> True
          | Some w \<Rightarrow> is_synthetic_wwn (to_ascii_lowercase w) \<or> CHR '' '' \<in> set (to_ascii_lowercase w)))"
  by (auto simp: from_reported_def split: option.splits)

end
