(* ===== verification/Storage_Partition.thy ===== *)
theory Storage_Partition
  imports Core_Units
begin

section \<open>Partition sizes\<close>

text \<open>
  The model of src/v3/crates/bmac-storage/src/partition.rs: where a member's partition ends, what a
  replacement disk needs, and the installer's \<^verbatim>\<open>hdsize\<close>. All arithmetic is on 64-bit words
  and wraps where the sources do not saturate; the properties show that it does not on the disks
  the functions accept.
\<close>

definition RESERVE_BYTES :: u64 where "RESERVE_BYTES = GIB"

definition FIRST_PARTITION_START_BYTES :: u64 where "FIRST_PARTITION_START_BYTES = MIB"

definition GPT_TAIL_BYTES :: u64 where "GPT_TAIL_BYTES = MIB"

definition MIN_DISK_BYTES :: u64 where "MIN_DISK_BYTES = 8 * GIB"

definition HDSIZE_RESERVE_BYTES :: u64 where "HDSIZE_RESERVE_BYTES = 4 * GIB"

definition ESP_BYTES :: u64 where "ESP_BYTES = GIB"

definition LUKS2_HEADER_BYTES :: u64 where "LUKS2_HEADER_BYTES = 16 * MIB"

definition CAPACITY_TOLERANCE_PERCENT :: u64 where "CAPACITY_TOLERANCE_PERCENT = 1"

datatype partition_error = NoDisks | TooSmall bytes | Sector u64 | NoHdsize bytes

definition check_sector :: "u64 \<Rightarrow> (partition_error, unit) result" where
  "check_sector s =
     (if is_power_of_two s \<and> 512 \<le> s \<and> s \<le> 4096 then Ok () else Err (Sector s))"

definition member_end_bytes :: "u64 list \<Rightarrow> (partition_error, u64) result" where
  "member_end_bytes sizes =
     and_then (ok_or NoDisks (list_min sizes)) (\<lambda>smallest.
       if smallest < MIN_DISK_BYTES then Err (TooSmall (Bytes smallest))
       else Ok (smallest div GIB * GIB - RESERVE_BYTES))"

definition member_partition :: "u64 list \<Rightarrow> u64 \<Rightarrow> (partition_error, u64 \<times> u64) result" where
  "member_partition sizes s =
     and_then (check_sector s) (\<lambda>_.
     and_then (member_end_bytes sizes) (\<lambda>end_b.
       Ok (FIRST_PARTITION_START_BYTES div s, end_b div s - 1)))"

definition member_partition_bytes :: "u64 list \<Rightarrow> (partition_error, u64) result" where
  "member_partition_bytes sizes =
     and_then (member_end_bytes sizes) (\<lambda>end_b. Ok (end_b - FIRST_PARTITION_START_BYTES))"

definition replacement_bytes :: "u64 \<Rightarrow> u64 \<Rightarrow> (partition_error, u64) result" where
  "replacement_bytes last_sector s =
     and_then (check_sector s) (\<lambda>_. Ok ((last_sector + 1) * s + GPT_TAIL_BYTES))"

definition installer_hdsize_gib :: "u64 list \<Rightarrow> (partition_error, u64) result" where
  "installer_hdsize_gib sizes =
     and_then (ok_or NoDisks (list_min sizes)) (\<lambda>smallest.
       let hdsize = saturating_sub (smallest div GIB) (HDSIZE_RESERVE_BYTES div GIB) in
       if hdsize = 0 \<or> smallest - hdsize * GIB < HDSIZE_RESERVE_BYTES
       then Err (NoHdsize (Bytes smallest)) else Ok hdsize)"

definition boot_partition_bytes :: "u64 list \<Rightarrow> (partition_error, u64) result" where
  "boot_partition_bytes sizes =
     and_then (installer_hdsize_gib sizes) (\<lambda>gib.
       Ok (saturating_sub (gib * GIB) (ESP_BYTES + FIRST_PARTITION_START_BYTES)))"

definition within_tolerance :: "u64 \<Rightarrow> u64 \<Rightarrow> bool" where
  "within_tolerance a b =
     (let (smaller, larger) = (if a \<le> b then (a, b) else (b, a)) in
      unat (larger - smaller) * 100 \<le> unat larger * unat CAPACITY_TOLERANCE_PERCENT)"

definition meets_expected :: "u64 \<Rightarrow> u64 \<Rightarrow> bool" where
  "meets_expected disk expected =
     (unat expected * unat (100 - CAPACITY_TOLERANCE_PERCENT) \<le> unat disk * 100)"

subsection \<open>Correctness\<close>

lemmas partition_consts = RESERVE_BYTES_def FIRST_PARTITION_START_BYTES_def GPT_TAIL_BYTES_def
  MIN_DISK_BYTES_def HDSIZE_RESERVE_BYTES_def ESP_BYTES_def CAPACITY_TOLERANCE_PERCENT_def

lemma unat_GIB_floor: "unat (m div GIB * GIB) = unat m div 2 ^ 30 * 2 ^ 30"
proof -
  have "unat m div 2 ^ 30 * 2 ^ 30 \<le> unat m" by simp
  then have "unat m div 2 ^ 30 * 2 ^ 30 < 2 ^ 64" using unat_less_power [of m] by simp
  then show ?thesis by (simp add: unat_word_ariths unat_div unat_GIB)
qed

lemma member_end_Ok:
  assumes "member_end_bytes sizes = Ok e"
  shows "\<exists>m. list_min sizes = Some m \<and> 8 * 2 ^ 30 \<le> unat m
    \<and> unat e + 2 ^ 30 = unat m div 2 ^ 30 * 2 ^ 30 \<and> 7 * 2 ^ 30 \<le> unat e"
proof -
  obtain m where m: "list_min sizes = Some m" "MIN_DISK_BYTES \<le> m" "e = m div GIB * GIB - RESERVE_BYTES"
    using assms by (auto simp: member_end_bytes_def and_then_Ok_iff ok_or_Ok_iff split: if_splits)
  have m8: "8 * 2 ^ 30 \<le> unat m" using m(2) by (simp add: word_le_nat_alt MIN_DISK_BYTES_def GIB_def)
  then have "8 \<le> unat m div 2 ^ 30" by (simp add: div_mult_floor)
  then have "8 * 2 ^ 30 \<le> unat m div 2 ^ 30 * 2 ^ 30" by (intro mult_le_mono1)
  then have f: "8 * 2 ^ 30 \<le> unat (m div GIB * GIB)" by (simp only: unat_GIB_floor)
  then have "GIB \<le> m div GIB * GIB" unfolding word_le_nat_alt unat_GIB by simp
  then have "unat e = unat (m div GIB * GIB) - 2 ^ 30" unfolding m(3) RESERVE_BYTES_def by (simp add: unat_sub unat_GIB)
  then have "unat e + 2 ^ 30 = unat (m div GIB * GIB)" "7 * 2 ^ 30 \<le> unat e" using f by linarith+
  then show ?thesis using m(1) m8 by (simp add: unat_GIB_floor)
qed

lemma check_sector_Ok: "check_sector s = Ok () \<Longrightarrow> 512 \<le> unat s \<and> unat s \<le> 4096 \<and> (\<exists>k\<le>12. unat s = 2 ^ k)"
proof -
  assume ok: "check_sector s = Ok ()"
  then have s: "512 \<le> unat s" "unat s \<le> 4096" and "is_power_of_two s"
    by (auto simp: check_sector_def word_le_nat_alt split: if_splits)
  then obtain k where k: "k < 64" "s = 2 ^ k" by (auto simp: is_power_of_two_def)
  have lt: "(2::nat) ^ k < 2 ^ 64" using k(1) by (intro power_strict_increasing) auto
  have "(2::u64) ^ k = of_nat (2 ^ k)" by simp
  then have "unat s = 2 ^ k" unfolding k(2) using lt by (simp only: unat_of_nat) simp
  moreover have "k \<le> 12"
  proof (rule ccontr)
    assume "\<not> k \<le> 12"
    then have "(2::nat) ^ 13 \<le> 2 ^ k" by (intro power_increasing) auto
    then show False using s(2) \<open>unat s = 2 ^ k\<close> by simp
  qed
  ultimately show ?thesis using s by blast
qed

text \<open>
  C15: every member's partition lies within every member disk: it starts after 1 MiB, is not empty,
  and ends at least 1 GiB before the end of the smallest member, so the table can be copied to a
  replacement up to 1 GiB (less the backup table) smaller: what a replacement needs is less than
  any member has.
\<close>

theorem member_partition_fits:
  assumes "member_partition sizes s = Ok (first, last_s)" and "d \<in> set sizes"
  shows "unat first * unat s = 2 ^ 20 \<and> unat first < unat last_s
    \<and> (unat last_s + 1) * unat s + 2 ^ 30 \<le> unat d
    \<and> (\<exists>n. replacement_bytes last_s s = Ok n \<and> unat n = (unat last_s + 1) * unat s + 2 ^ 20
        \<and> unat n + (2 ^ 30 - 2 ^ 20) \<le> unat d)"
proof -
  obtain e where s: "check_sector s = Ok ()" and e: "member_end_bytes sizes = Ok e"
    and first: "first = MIB div s" and last_s: "last_s = e div s - 1"
    using assms(1) by (auto simp: member_partition_def and_then_Ok_iff FIRST_PARTITION_START_BYTES_def)
  obtain k where k: "k \<le> 12" "unat s = 2 ^ k" "512 \<le> unat s" "unat s \<le> 4096"
    using check_sector_Ok [OF s] by blast
  obtain m where m: "list_min sizes = Some m" "unat e + 2 ^ 30 = unat m div 2 ^ 30 * 2 ^ 30" "7 * 2 ^ 30 \<le> unat e"
    using member_end_Ok [OF e] by blast
  have "m \<le> d" using m(1) assms(2) by (simp add: list_min_Some)
  then have md: "unat m div 2 ^ 30 * 2 ^ 30 \<le> unat d"
    by (meson div_times_less_eq_dividend order_trans word_le_nat_alt)
  have dvd: "(2::nat) ^ k dvd 2 ^ 20" using k(1) by (intro le_imp_power_dvd) simp
  then have first': "unat first * unat s = 2 ^ 20"
    unfolding first by (simp add: unat_div unat_MIB k(2))
  have "(2::nat) ^ k dvd 2 ^ 30" using k(1) by (intro le_imp_power_dvd) simp
  then have "2 ^ k dvd unat e + 2 ^ 30" unfolding m(2) by simp
  then have edvd: "unat s dvd unat e"
    using \<open>2 ^ k dvd 2 ^ 30\<close> unfolding k(2) by (simp only: dvd_add_left_iff)
  have big: "2 ^ 20 \<le> unat e div unat s"
  proof -
    have "2 ^ 20 * unat s \<le> 2 ^ 20 * 4096" using k(4) by (intro mult_le_mono2)
    also have "\<dots> \<le> unat e" using m(3) by simp
    finally show ?thesis using k(3) by (simp add: div_mult_floor)
  qed
  then have last_s': "unat last_s + 1 = unat e div unat s"
    unfolding last_s by (simp add: unat_sub word_le_nat_alt unat_div)
  then have end_b: "(unat last_s + 1) * unat s = unat e" using edvd by simp
  have "unat first * 512 \<le> 2 ^ 20"
    using mult_le_mono2 [OF k(3), of "unat first"] first' by simp
  then have "unat first < unat last_s" using big last_s' by simp
  moreover have "(unat last_s + 1) * unat s + 2 ^ 30 \<le> unat d" using end_b m(2) md by simp
  moreover have n: "unat ((last_s + 1) * s + MIB) = (unat last_s + 1) * unat s + 2 ^ 20"
  proof -
    have "last_s + 1 = e div s" unfolding last_s by simp
    then have "unat ((last_s + 1) * s) = unat e"
      using edvd unat_less_power [of e] by (subst unat_word_ariths(2)) (simp add: unat_div)
    moreover have "unat e + 2 ^ 20 < 2 ^ 64"
      using m(2) md unat_less_power [of d] by simp
    ultimately show ?thesis unfolding end_b by (subst unat_word_ariths(1)) (simp add: unat_MIB)
  qed
  moreover have "replacement_bytes last_s s = Ok ((last_s + 1) * s + MIB)"
    using s by (simp add: replacement_bytes_def GPT_TAIL_BYTES_def)
  ultimately show ?thesis using first' by auto
qed

lemma two_disks: "member_partition [2 ^ 40, 2 ^ 41] 4096 = Ok (256, 268173311)"
proof -
  have "list_min [2 ^ 40, 2 ^ 41 :: u64] = Some (2 ^ 40)" by (simp add: list_min_def min_by_def)
  moreover have "is_power_of_two (4096::u64)"
    unfolding is_power_of_two_def by (intro bexI [of _ 12]) simp_all
  ultimately show ?thesis
    by (simp add: member_partition_def member_end_bytes_def check_sector_def partition_consts
        GIB_def MIB_def)
qed

theorem member_partition_fits_witness:
  "(unat (268173311::u64) + 1) * unat (4096::u64) + 2 ^ 30 \<le> unat (2 ^ 40 :: u64)"
  using member_partition_fits [OF two_disks, of "2 ^ 40"] by simp

text \<open>
  The installer's size, when one is given, is positive and leaves at least 4 GiB at the end of
  every boot disk for the LUKS header and size tolerance; it is the largest such whole number of
  GiB, and the boot partition it makes holds it less the ESP and the first MiB.
\<close>

lemma installer_hdsize_reserve:
  assumes "installer_hdsize_gib sizes = Ok h"
  shows "0 < h \<and> list_all (\<lambda>d. unat h * 2 ^ 30 + 4 * 2 ^ 30 \<le> unat d) sizes
    \<and> (\<exists>m\<in>set sizes. unat m < (unat h + 1) * 2 ^ 30 + 4 * 2 ^ 30)
    \<and> (\<exists>n. boot_partition_bytes sizes = Ok n \<and> unat n = unat h * 2 ^ 30 - (2 ^ 30 + 2 ^ 20))"
proof -
  obtain m where m: "list_min sizes = Some m" and h: "h = saturating_sub (m div GIB) (HDSIZE_RESERVE_BYTES div GIB)" "h \<noteq> 0"
    using assms by (auto simp: installer_hdsize_gib_def and_then_Ok_iff ok_or_Ok_iff Let_def split: if_splits)
  have four: "unat (HDSIZE_RESERVE_BYTES div GIB) = 4" by (simp add: HDSIZE_RESERVE_BYTES_def GIB_def)
  have uh: "unat h = unat m div 2 ^ 30 - 4" unfolding h(1) unat_saturating_sub four by (simp add: unat_div unat_GIB)
  moreover have "0 < unat h" using h(2) by (simp add: unat_gt_0)
  ultimately have eq: "unat h + 4 = unat m div 2 ^ 30" by linarith
  then have le: "(unat h + 4) * 2 ^ 30 \<le> unat m" by (simp add: eq)
  have gt: "unat m < (unat h + 5) * 2 ^ 30"
    using dividend_less_div_times [of "2 ^ 30" "unat m"] eq by simp
  have min: "m \<in> set sizes" "\<forall>d\<in>set sizes. unat m \<le> unat d"
    using m by (auto simp: list_min_Some word_le_nat_alt)
  have lt: "unat h * 2 ^ 30 < 2 ^ 64" using le unat_less_power [of m] by simp
  then have "unat (h * GIB) = unat h * 2 ^ 30" by (simp add: unat_word_ariths unat_GIB)
  moreover have "unat (ESP_BYTES + FIRST_PARTITION_START_BYTES) = 2 ^ 30 + 2 ^ 20"
    by (simp add: partition_consts GIB_def MIB_def)
  ultimately have "\<exists>n. boot_partition_bytes sizes = Ok n \<and> unat n = unat h * 2 ^ 30 - (2 ^ 30 + 2 ^ 20)"
    using assms by (simp add: boot_partition_bytes_def unat_ops)
  then show ?thesis
    using le gt min h(2) by (auto simp: list_all_iff word_gt_0 add.commute intro: order_trans)
qed

lemma installer_hdsize_reserve_witness:
  "unat (1020::u64) * 2 ^ 30 + 4 * 2 ^ 30 \<le> unat (2 ^ 40 :: u64)"
proof -
  have "list_min [2 ^ 40 :: u64] = Some (2 ^ 40)" by (simp add: list_min_def min_by_def)
  then have "installer_hdsize_gib [2 ^ 40] = Ok 1020"
    by (simp add: installer_hdsize_gib_def HDSIZE_RESERVE_BYTES_def GIB_def saturating_sub_def Let_def)
  from installer_hdsize_reserve [OF this] show ?thesis by simp
qed

end
