(* ===== verification/Rust_BTree.thy ===== *)
theory Rust_BTree
  imports Rust_Prelude
begin

section \<open>Ordered maps\<close>

text \<open>
  \<^verbatim>\<open>std::collections::BTreeMap\<close> as the sources use it: a map that is iterated in key order.
  The model is the list of its entries in that order. The locale states what a client relies on
  (what \<^verbatim>\<open>get\<close> returns after an update, and that updates keep the order), proves the
  facts about loops that build a map, and is interpreted on the model. A
  \<^verbatim>\<open>BTreeSet\<close> whose order is never observed is a \<open>set\<close>.
\<close>

type_synonym ('k, 'v) btree = "('k \<times> 'v) list"

definition bt_ok :: "('k::linorder, 'v) btree \<Rightarrow> bool" where
  "bt_ok m = sorted_wrt (<) (map fst m)"

definition bt_empty :: "('k, 'v) btree" where
  "bt_empty = []"

definition bt_get :: "('k, 'v) btree \<Rightarrow> 'k \<Rightarrow> 'v option" where
  "bt_get m k = map_of m k"

fun bt_insert :: "'k::linorder \<Rightarrow> 'v \<Rightarrow> ('k, 'v) btree \<Rightarrow> ('k, 'v) btree" where
  "bt_insert k v [] = [(k, v)]"
| "bt_insert k v ((a, b) # m) =
     (if k < a then (k, v) # (a, b) # m
      else if k = a then (k, v) # m
      else (a, b) # bt_insert k v m)"

definition bt_remove :: "'k \<Rightarrow> ('k, 'v) btree \<Rightarrow> ('k, 'v) btree" where
  "bt_remove k m = filter (\<lambda>e. fst e \<noteq> k) m"

definition bt_alter ::
    "'k::linorder \<Rightarrow> ('v option \<Rightarrow> 'v) \<Rightarrow> ('k, 'v) btree \<Rightarrow> ('k, 'v) btree" where
  \<comment> \<open>the entry API: read what is there, store what follows from it\<close>
  "bt_alter k f m = bt_insert k (f (bt_get m k)) m"

definition bt_collect :: "('k::linorder \<times> 'v) list \<Rightarrow> ('k, 'v) btree" where
  \<comment> \<open>\<open>FromIterator\<close>: a later entry replaces an earlier one with its key\<close>
  "bt_collect es = fold (\<lambda>(k, v). bt_insert k v) es bt_empty"

definition bt_keys :: "('k, 'v) btree \<Rightarrow> 'k list" where
  "bt_keys m = map fst m"

definition bt_values :: "('k, 'v) btree \<Rightarrow> 'v list" where
  "bt_values m = map snd m"

definition bt_contains_key :: "('k, 'v) btree \<Rightarrow> 'k \<Rightarrow> bool" where
  "bt_contains_key m k = (bt_get m k \<noteq> None)"

locale ordered_map =
  fixes empty :: 'm
    and insert :: "'k::linorder \<Rightarrow> 'v \<Rightarrow> 'm \<Rightarrow> 'm"
    and remove :: "'k \<Rightarrow> 'm \<Rightarrow> 'm"
    and get :: "'m \<Rightarrow> 'k \<Rightarrow> 'v option"
    and entries :: "'m \<Rightarrow> ('k \<times> 'v) list"
    and ok :: "'m \<Rightarrow> bool"
  assumes get_empty: "get empty k = None"
    and get_insert: "ok m \<Longrightarrow> get (insert k v m) j = (if j = k then Some v else get m j)"
    and get_remove: "ok m \<Longrightarrow> get (remove k m) j = (if j = k then None else get m j)"
    and ok_empty: "ok empty"
    and ok_insert: "ok m \<Longrightarrow> ok (insert k v m)"
    and ok_remove: "ok m \<Longrightarrow> ok (remove k m)"
    and entries_get: "ok m \<Longrightarrow> (k, v) \<in> set (entries m) \<longleftrightarrow> get m k = Some v"
    and entries_order: "ok m \<Longrightarrow> sorted_wrt (<) (map fst (entries m))"
begin

lemma ok_collect: "ok m \<Longrightarrow> ok (fold (\<lambda>(k, v). insert k v) es m)"
  by (induction es arbitrary: m) (auto intro: ok_insert)

lemma get_collect:
  "ok m \<Longrightarrow> get (fold (\<lambda>(k, v). insert k v) es m) j
     = (case map_of (rev es) j of None \<Rightarrow> get m j | Some v \<Rightarrow> Some v)"
proof (induction es arbitrary: m)
  case Nil
  then show ?case by simp
next
  case (Cons e es)
  obtain k v where e: "e = (k, v)" by (cases e)
  have "ok (insert k v m)" using Cons.prems by (rule ok_insert)
  from Cons.IH [OF this] Cons.prems e show ?case
    by (auto simp: map_add_def get_insert split: option.splits)
qed

lemma ok_group:
  "ok m \<Longrightarrow> ok (fold (\<lambda>x m. insert (key x) (step x (get m (key x))) m) xs m)"
  by (induction xs arbitrary: m) (auto intro: ok_insert)

lemma get_group:
  \<comment> \<open>a loop over the entry API is, for each key, a loop over the elements with that key\<close>
  "ok m \<Longrightarrow> get (fold (\<lambda>x m. insert (key x) (step x (get m (key x))) m) xs m) j
     = fold (\<lambda>x acc. Some (step x acc)) (filter (\<lambda>x. key x = j) xs) (get m j)"
  by (induction xs arbitrary: m) (auto simp: get_insert ok_insert)

lemma entries_distinct: "ok m \<Longrightarrow> distinct (map fst (entries m))"
  using entries_order strict_sorted_iff by blast

end

lemma bt_get_empty: "bt_get bt_empty k = None"
  by (simp add: bt_get_def bt_empty_def)

lemma bt_ok_empty: "bt_ok bt_empty"
  by (simp add: bt_ok_def bt_empty_def)

lemma bt_get_insert:
  "bt_get (bt_insert k v m) j = (if j = k then Some v else bt_get m j)"
  by (induction m) (auto simp: bt_get_def)

lemma bt_get_remove: "bt_get (bt_remove k m) j = (if j = k then None else bt_get m j)"
  by (induction m) (auto simp: bt_get_def bt_remove_def)

lemma set_bt_insert_keys: "set (map fst (bt_insert k v m)) = insert k (set (map fst m))"
proof (induction m)
  case Nil
  then show ?case by simp
next
  case (Cons e m)
  obtain a b where "e = (a, b)" by (cases e)
  with Cons.IH show ?case by simp blast
qed

lemma bt_ok_Cons [simp]:
  "bt_ok (e # m) \<longleftrightarrow> (\<forall>x\<in>set m. fst e < fst x) \<and> bt_ok m"
  by (simp add: bt_ok_def)

lemma bt_ok_insert: "bt_ok m \<Longrightarrow> bt_ok (bt_insert k v m)"
proof (induction m)
  case Nil
  then show ?case by (simp add: bt_ok_def)
next
  case (Cons e m)
  obtain a b where e: "e = (a, b)" by (cases e)
  have "\<forall>x\<in>set (bt_insert k v m). fst x = k \<or> (\<exists>y\<in>set m. fst x = fst y)"
    using set_bt_insert_keys [of k v m] by force
  with Cons e show ?case by fastforce
qed

lemma bt_ok_remove: "bt_ok m \<Longrightarrow> bt_ok (bt_remove k m)"
  by (induction m) (auto simp: bt_remove_def)

lemma bt_ok_distinct: "bt_ok m \<Longrightarrow> distinct (map fst m)"
  by (simp add: bt_ok_def strict_sorted_iff)

lemma length_bt_insert:
  "bt_ok m \<Longrightarrow> length (bt_insert k v m) = (if bt_get m k = None then Suc (length m) else length m)"
proof (induction m)
  case (Cons e m)
  obtain a b where e: "e = (a, b)" by (cases e)
  have "bt_get m k = None" if "k \<le> a" using Cons.prems that e
    by (force simp: bt_get_def map_of_eq_None_iff)
  with Cons e show ?case by (auto simp: bt_get_def)
qed (simp add: bt_get_def)

interpretation btm: ordered_map bt_empty bt_insert bt_remove bt_get "\<lambda>m. m" bt_ok
proof unfold_locales
  fix m :: "('k::linorder, 'v) btree" and k v
  assume "bt_ok m"
  then show "(k, v) \<in> set m \<longleftrightarrow> bt_get m k = Some v"
    by (simp add: bt_get_def bt_ok_distinct map_of_eq_Some_iff)
qed (simp_all add: bt_get_insert bt_get_remove bt_ok_insert bt_ok_remove bt_get_empty bt_ok_empty
    bt_ok_def [symmetric])

lemma bt_ok_collect: "bt_ok (bt_collect es)"
  unfolding bt_collect_def by (rule btm.ok_collect [OF btm.ok_empty])

lemma bt_get_collect: "bt_get (bt_collect es) k = map_of (rev es) k"
  unfolding bt_collect_def
  by (subst btm.get_collect [OF btm.ok_empty]) (simp add: bt_get_empty split: option.split)

lemma bt_get_alter: "bt_get (bt_alter k f m) j = (if j = k then Some (f (bt_get m k)) else bt_get m j)"
  by (simp add: bt_alter_def bt_get_insert)

lemma bt_ok_alter: "bt_ok m \<Longrightarrow> bt_ok (bt_alter k f m)"
  by (simp add: bt_alter_def bt_ok_insert)

lemma bt_keys_iff: "k \<in> set (bt_keys m) \<longleftrightarrow> bt_contains_key m k"
  by (simp add: bt_keys_def bt_contains_key_def bt_get_def map_of_eq_None_iff)

lemma bt_values_iff: "bt_ok m \<Longrightarrow> v \<in> set (bt_values m) \<longleftrightarrow> (\<exists>k. bt_get m k = Some v)"
  using btm.entries_get [of m] by (force simp: bt_values_def)

subsection \<open>Maps of sets\<close>

text \<open>
  \<^verbatim>\<open>BTreeMap<K, BTreeSet<V>>\<close> filled with \<^verbatim>\<open>entry(k).or_default().insert(v)\<close>.
\<close>

definition bt_add :: "'k::linorder \<Rightarrow> 'v \<Rightarrow> ('k, 'v set) btree \<Rightarrow> ('k, 'v set) btree" where
  "bt_add k v m = bt_alter k (\<lambda>e. insert v (unwrap_or {} e)) m"

definition bt_elems :: "('k, 'v set) btree \<Rightarrow> 'k \<Rightarrow> 'v set" where
  "bt_elems m k = unwrap_or {} (bt_get m k)"

definition bt_inhabited :: "('k::linorder, 'v set) btree \<Rightarrow> bool" where
  \<comment> \<open>in key order, and no key has an empty set\<close>
  "bt_inhabited m = (bt_ok m \<and> (\<forall>k. bt_get m k \<noteq> Some {}))"

lemma bt_elems_empty [simp]: "bt_elems bt_empty j = {}"
  by (simp add: bt_elems_def bt_get_empty)

lemma bt_elems_add [simp]:
  "bt_elems (bt_add k v m) j = (if j = k then insert v (bt_elems m j) else bt_elems m j)"
  by (simp add: bt_elems_def bt_add_def bt_get_alter)

lemma bt_elems_fold:
  \<comment> \<open>a loop whose turns only add elements adds the union of what they add\<close>
  assumes "\<And>x m. bt_elems (f x m) j = bt_elems m j \<union> R x"
  shows "bt_elems (fold f xs m) j = bt_elems m j \<union> (\<Union>x\<in>set xs. R x)"
  by (induction xs arbitrary: m) (auto simp: assms)

lemma bt_elems_fold_add:
  "bt_elems (fold (\<lambda>x. bt_add (i x) (w x)) xs m) j
   = bt_elems m j \<union> {w x |x. x \<in> set xs \<and> i x = j}"
  by (subst bt_elems_fold [where R = "\<lambda>x. if i x = j then {w x} else {}"]) auto

lemma bt_inhabited_empty: "bt_inhabited bt_empty"
  by (simp add: bt_inhabited_def bt_ok_empty bt_get_empty)

lemma bt_inhabited_add: "bt_inhabited m \<Longrightarrow> bt_inhabited (bt_add k v m)"
  by (simp add: bt_inhabited_def bt_add_def bt_get_alter bt_ok_alter)

lemma bt_inhabited_fold:
  "(\<And>x m. bt_inhabited m \<Longrightarrow> bt_inhabited (f x m)) \<Longrightarrow> bt_inhabited m \<Longrightarrow> bt_inhabited (fold f xs m)"
  by (induction xs arbitrary: m) auto

lemma bt_inhabited_keys: "bt_inhabited m \<Longrightarrow> j \<in> set (bt_keys m) \<longleftrightarrow> (\<exists>w. w \<in> bt_elems m j)"
  by (cases "bt_get m j")
    (auto simp: bt_keys_iff bt_contains_key_def bt_elems_def bt_inhabited_def intro: ccontr)

end
