(* ===== verification/Storage_Checks.thy ===== *)
theory Storage_Checks
  imports Core_Disk Storage_Layout Storage_Partition Rust_BTree
begin

section \<open>The layout checks\<close>

text \<open>
  The model of src/v3/crates/bmac-storage/src/checks.rs: what is refused outright and what is
  warned about before a pool is created. The phases run in the order of the sources and append to
  the findings. A finding keeps its code, vdev and disk; its message, which is built with
  floating-point sizes, is left out.
\<close>

datatype transport = Nvme | Sata | Sas | Usb | OtherTransport

record disk =
  disk_by_id :: string
  disk_identity_of :: "disk_identity option"
  disk_size :: u64
  logical_sector :: u32
  physical_sector :: u32
  disk_transport :: transport
  rotational :: bool
  model :: string
  hardware_raid :: bool
  in_use :: "string option"

datatype target = Host | Appliance

datatype code =
    Structure | UnknownDisk | NoIdentity | HardwareRaid | DuplicateDisk | DiskInUse | DiskTooSmall
  | SpareTooSmall | LuksSingleBoot | BootVdevCount | BootVdevType | BootSectorMismatch
  | BootOnAppliance | AshiftTooSmall
  | MixedCapacity | MixedSpeed | MismatchedRedundancy | MismatchedShape | HelperLessRedundant
  | SingleLog | NonRedundantData | UsbDisk

record finding =
  finding_code :: code
  finding_vdev :: "nat option"
  finding_disk :: "string option"

record findings =
  refused :: "finding list"
  warnings :: "finding list"
  needs_force :: bool

definition findings_default :: findings where
  "findings_default = \<lparr> refused = [], warnings = [], needs_force = False \<rparr>"

definition is_allowed :: "findings \<Rightarrow> bool" where
  "is_allowed f = (refused f = [])"

definition refuse :: "code \<Rightarrow> nat option \<Rightarrow> string option \<Rightarrow> findings \<Rightarrow> findings" where
  "refuse c v d f =
     f\<lparr> refused := refused f @ [\<lparr> finding_code = c, finding_vdev = v, finding_disk = d \<rparr>] \<rparr>"

definition warn :: "code \<Rightarrow> nat option \<Rightarrow> string option \<Rightarrow> findings \<Rightarrow> findings" where
  "warn c v d f =
     f\<lparr> warnings := warnings f @ [\<lparr> finding_code = c, finding_vdev = v, finding_disk = d \<rparr>] \<rparr>"

definition trailing_zeros :: "u32 \<Rightarrow> nat" where
  "trailing_zeros w = length (takeWhile (\<lambda>i. \<not> bit w i) [0..<32])"

definition required_ashift :: "disk list \<Rightarrow> u8" where
  "required_ashift disks =
     (let largest = unwrap_or 0 (list_max (map (\<lambda>d. max (physical_sector d) (logical_sector d)) disks));
          needed = (if is_power_of_two largest then of_nat (trailing_zeros largest) else 0)
      in max needed DEFAULT_ASHIFT)"

fun installer_raid :: "vdev_type \<Rightarrow> string option" where
  "installer_raid Single = Some ''raid0''"
| "installer_raid Mirror = Some ''raid1''"
| "installer_raid Raidz1 = Some ''raidz-1''"
| "installer_raid Raidz2 = Some ''raidz-2''"
| "installer_raid Raidz3 = Some ''raidz-3''"

type_synonym inventory_map = "(string, disk) btree"

subsection \<open>Disks\<close>

definition member_places :: "pool_layout \<Rightarrow> (nat \<times> string) list" where
  \<comment> \<open>every member with the index of its vdev, in the order the loops visit them\<close>
  "member_places l =
     concat (map (\<lambda>(i, v). map (Pair i) (vdev_members v)) (List.enumerate 0 (layout_vdevs l)))"

type_synonym disks_state = "findings \<times> string set \<times> (disk_identity, string) btree"

definition check_disk :: "inventory_map \<Rightarrow> nat \<times> string \<Rightarrow> disks_state \<Rightarrow> disks_state" where
  "check_disk by_id = (\<lambda>(index, member) (f, seen, identities).
     if member \<in> seen then (refuse DuplicateDisk (Some index) (Some member) f, seen, identities)
     else
       let seen = insert member seen in
       case bt_get by_id member of
         None \<Rightarrow> (refuse UnknownDisk (Some index) (Some member) f, seen, identities)
       | Some d \<Rightarrow>
           (let (f, identities) =
              (case disk_identity_of d of
                 None \<Rightarrow> (refuse NoIdentity (Some index) (Some member) f, identities)
               | Some identity \<Rightarrow>
                   (if bt_contains_key identities identity
                    then refuse DuplicateDisk (Some index) (Some member) f else f,
                    bt_insert identity member identities));
                f = (if hardware_raid d then refuse HardwareRaid (Some index) (Some member) f else f);
                f = (if in_use d \<noteq> None then refuse DiskInUse (Some index) (Some member) f else f);
                f = (if disk_size d < MIN_DISK_BYTES then refuse DiskTooSmall (Some index) (Some member) f else f);
                f = (if disk_transport d = Usb then warn UsbDisk (Some index) (Some member) f else f)
            in (f, seen, identities)))"

definition check_disks :: "pool_layout \<Rightarrow> inventory_map \<Rightarrow> findings \<Rightarrow> findings" where
  "check_disks l by_id f = fst (fold (check_disk by_id) (member_places l) (f, {}, bt_empty))"

subsection \<open>The boot vdev, spares and ashift\<close>

definition known_disks :: "inventory_map \<Rightarrow> string list \<Rightarrow> disk list" where
  "known_disks by_id members = filter_map (bt_get by_id) members"

definition check_boot :: "pool_layout \<Rightarrow> inventory_map \<Rightarrow> target \<Rightarrow> findings \<Rightarrow> findings" where
  "check_boot l by_id target f =
     (let boots = boot_vdevs l in
      case target of
        Appliance \<Rightarrow> fold (\<lambda>(index, _). refuse BootOnAppliance (Some index) None) boots f
      | Host \<Rightarrow>
          (if length boots \<noteq> 1 then refuse BootVdevCount None None f
           else
             let (index, boot) = boots ! 0;
                 f = (if installer_raid (vdev_kind boot) = None
                      then refuse BootVdevType (Some index) None f else f);
                 f = (if layout_encryption l = Luks2 \<and> vdev_failures_tolerated boot = 0
                      then refuse LuksSingleBoot (Some index) None f else f);
                 sectors = set (map logical_sector (known_disks by_id (vdev_members boot)))
             in if 1 < card sectors then refuse BootSectorMismatch (Some index) None f else f))"

definition check_spares :: "pool_layout \<Rightarrow> inventory_map \<Rightarrow> findings \<Rightarrow> findings" where
  "check_spares l by_id f =
     (case max_by_key disk_size (known_disks by_id (concat (map vdev_members (data_vdevs l)))) of
        None \<Rightarrow> f
      | Some largest \<Rightarrow>
          fold (\<lambda>(index, v) f.
            fold (\<lambda>member f.
              case bt_get by_id member of
                Some spare \<Rightarrow>
                  if disk_size spare < disk_size largest
                  then refuse SpareTooSmall (Some index) (Some member) f else f
              | None \<Rightarrow> f) (vdev_members v) f)
            (filter (\<lambda>(_, v). vdev_class v = Spare) (List.enumerate 0 (layout_vdevs l))) f)"

definition check_ashift :: "pool_layout \<Rightarrow> inventory_map \<Rightarrow> findings \<Rightarrow> findings" where
  "check_ashift l by_id f =
     fold (\<lambda>member f.
       case bt_get by_id member of
         None \<Rightarrow> f
       | Some d \<Rightarrow>
           if layout_ashift l < required_ashift [d] then refuse AshiftTooSmall None (Some member) f
           else f) (layout_members l) f"

subsection \<open>Warnings\<close>

definition check_vdev_members :: "pool_layout \<Rightarrow> inventory_map \<Rightarrow> findings \<Rightarrow> findings" where
  "check_vdev_members l by_id f =
     fold (\<lambda>(index, v) f.
       let disks = known_disks by_id (vdev_members v) in
       if length disks < 2 \<or> vdev_class v \<in> {Spare, Cache} then f
       else
         let smallest = unwrap_or 0 (list_min (map disk_size disks));
             largest = unwrap_or 0 (list_max (map disk_size disks));
             f = (if \<not> within_tolerance smallest largest then warn MixedCapacity (Some index) None f else f);
             rotational = set (map rotational disks);
             nvme = set (map (\<lambda>d. disk_transport d = Nvme) disks)
         in if 1 < card rotational \<or> 1 < card nvme then warn MixedSpeed (Some index) None f else f)
       (List.enumerate 0 (layout_vdevs l)) f"

definition check_redundancy :: "pool_layout \<Rightarrow> findings \<Rightarrow> findings" where
  "check_redundancy l f =
     (let data = filter (\<lambda>(_, v). vdev_class v = Data) (List.enumerate 0 (layout_vdevs l));
          tolerated = set (map (\<lambda>(_, v). vdev_failures_tolerated v) data);
          shapes = set (map (\<lambda>(_, v). (vdev_kind v, length (vdev_members v))) data);
          weakest = data_redundancy l;
          f = (if 1 < card tolerated
               then (warn MismatchedRedundancy
                       (Some (fst (unwrap_or (data ! 0)
                          (find (\<lambda>(_, v). vdev_failures_tolerated v = weakest) data)))) None f)
                    \<lparr> needs_force := True \<rparr>
               else if 1 < card shapes
               then (warn MismatchedShape None None f)\<lparr> needs_force := True \<rparr>
               else f);
          f = fold (\<lambda>(index, v) f.
                if vdev_failures_tolerated v = 0 then warn NonRedundantData (Some index) None f else f) data f
      in fold (\<lambda>(index, v) f.
           let survives = vdev_failures_tolerated v in
           case vdev_class v of
             Special \<Rightarrow> if survives < weakest then warn HelperLessRedundant (Some index) None f else f
           | Log \<Rightarrow>
               if survives = 0 then warn SingleLog (Some index) None f
               else if survives < weakest then warn HelperLessRedundant (Some index) None f
               else f
           | _ \<Rightarrow> f) (List.enumerate 0 (layout_vdevs l)) f)"

definition check :: "pool_layout \<Rightarrow> disk list \<Rightarrow> target \<Rightarrow> findings" where
  "check l inventory target =
     (let f = findings_default in
      case layout_validate l of
        Err _ \<Rightarrow> refuse Structure None None f
      | Ok _ \<Rightarrow>
          (let by_id = bt_collect (map (\<lambda>d. (disk_by_id d, d)) inventory);
               f = check_disks l by_id f;
               f = check_boot l by_id target f;
               f = check_spares l by_id f;
               f = check_ashift l by_id f;
               f = check_vdev_members l by_id f
           in check_redundancy l f))"

subsection \<open>When a layout is allowed\<close>

lemma refused_refuse [simp]: "refused (refuse c v d f) \<noteq> []"
  "warnings (refuse c v d f) = warnings f" "needs_force (refuse c v d f) = needs_force f"
  by (simp_all add: refuse_def)

lemma refused_warn [simp]: "refused (warn c v d f) = refused f"
  "warnings (warn c v d f) \<noteq> []" "needs_force (warn c v d f) = needs_force f"
  by (simp_all add: warn_def)

lemma refused_if [simp]: "refused (if b then refuse c v d f else f) = [] \<longleftrightarrow> \<not> b \<and> refused f = []"
  by simp

lemma fold_refused:
  \<comment> \<open>a loop refuses nothing when no turn does\<close>
  assumes "\<And>x f. x \<in> set xs \<Longrightarrow> refused (g x f) = [] \<longleftrightarrow> P x \<and> refused f = []"
  shows "refused (fold g xs f) = [] \<longleftrightarrow> (\<forall>x\<in>set xs. P x) \<and> refused f = []"
  using assms by (induction xs arbitrary: f) auto

lemma fold_warns:
  assumes "\<And>x f. refused (g x f) = refused f"
  shows "refused (fold g xs f) = refused f"
  by (induction xs arbitrary: f) (auto simp: assms)

definition disk_usable :: "disk \<Rightarrow> bool" where
  "disk_usable d = (disk_identity_of d \<noteq> None \<and> \<not> hardware_raid d \<and> in_use d = None
     \<and> MIN_DISK_BYTES \<le> disk_size d)"

definition identity_in :: "inventory_map \<Rightarrow> string \<Rightarrow> disk_identity" where
  "identity_in by_id m = the (disk_identity_of (the (bt_get by_id m)))"

lemma check_disk_step:
  assumes "check_disk by_id (i, m) (f, seen, ids) = (f', seen', ids')"
  shows "refused f' = []
    \<longleftrightarrow> refused f = [] \<and> m \<notin> seen \<and> (\<exists>d. bt_get by_id m = Some d \<and> disk_usable d)
      \<and> \<not> bt_contains_key ids (identity_in by_id m)"
    and "refused f' = [] \<Longrightarrow> seen' = insert m seen
      \<and> bt_contains_key ids' k = (k = identity_in by_id m \<or> bt_contains_key ids k)"
proof -
  show "refused f' = []
    \<longleftrightarrow> refused f = [] \<and> m \<notin> seen \<and> (\<exists>d. bt_get by_id m = Some d \<and> disk_usable d)
      \<and> \<not> bt_contains_key ids (identity_in by_id m)"
  proof (cases "m \<in> seen \<or> bt_get by_id m = None")
    case True
    then show ?thesis using assms by (auto simp: check_disk_def split: if_splits)
  next
    case False
    then obtain d where d: "bt_get by_id m = Some d" "m \<notin> seen" by blast
    show ?thesis
      using assms d
      by (cases "disk_identity_of d")
        (auto simp: check_disk_def Let_def disk_usable_def identity_in_def not_less split: if_splits)
  qed
  show "refused f' = [] \<Longrightarrow> seen' = insert m seen
      \<and> bt_contains_key ids' k = (k = identity_in by_id m \<or> bt_contains_key ids k)"
    using assms
    by (auto simp: check_disk_def Let_def identity_in_def bt_contains_key_def bt_get_insert
        split: if_splits option.splits)
qed

lemma check_disk_fold:
  "refused (fst (fold (check_disk by_id) ps (f, seen, ids))) = []
   \<longleftrightarrow> refused f = [] \<and> distinct (map snd ps) \<and> (\<forall>m\<in>set (map snd ps). m \<notin> seen
       \<and> (\<exists>d. bt_get by_id m = Some d \<and> disk_usable d) \<and> \<not> bt_contains_key ids (identity_in by_id m))
     \<and> distinct (map (identity_in by_id) (map snd ps))"
proof (induction ps arbitrary: f seen ids)
  case Nil
  then show ?case by simp
next
  case (Cons p ps)
  obtain i m where p: "p = (i, m)" by (cases p)
  obtain f' seen' ids' where step: "check_disk by_id (i, m) (f, seen, ids) = (f', seen', ids')"
    by (cases "check_disk by_id (i, m) (f, seen, ids)")
  show ?case
  proof (cases "refused f' = []")
    case True
    from check_disk_step(2) [OF step this] have "seen' = insert m seen"
      "\<And>k. bt_contains_key ids' k = (k = identity_in by_id m \<or> bt_contains_key ids k)" by blast+
    with True check_disk_step(1) [OF step] show ?thesis
      unfolding p fold_Cons comp_apply step Cons.IH by (auto simp: image_iff)
  next
    case False
    with check_disk_step(1) [OF step] show ?thesis
      unfolding p fold_Cons comp_apply step Cons.IH by auto
  qed
qed

lemma map_snd_places: "map snd (member_places l) = layout_members l"
proof -
  have "map snd (concat (map (\<lambda>(i, v). map (Pair i) (vdev_members v)) (List.enumerate n vs)))
      = concat (map vdev_members vs)" for n vs
    by (induction vs arbitrary: n) (simp_all add: comp_def)
  then show ?thesis by (simp add: member_places_def layout_members_def)
qed

lemma refused_check_disks:
  "refused (check_disks l by_id f) = []
   \<longleftrightarrow> refused f = [] \<and> distinct (layout_members l)
     \<and> (\<forall>m\<in>set (layout_members l). \<exists>d. bt_get by_id m = Some d \<and> disk_usable d)
     \<and> distinct (map (identity_in by_id) (layout_members l))"
  unfolding check_disks_def check_disk_fold map_snd_places
  by (auto simp: bt_contains_key_def bt_get_empty)

definition boot_allowed :: "pool_layout \<Rightarrow> inventory_map \<Rightarrow> target \<Rightarrow> bool" where
  "boot_allowed l by_id target =
     (case target of
        Appliance \<Rightarrow> boot_vdevs l = []
      | Host \<Rightarrow>
          (case map snd (boot_vdevs l) of
             [v] \<Rightarrow> (layout_encryption l = Luks2 \<longrightarrow> 0 < vdev_failures_tolerated v)
               \<and> card (set (map logical_sector (known_disks by_id (vdev_members v)))) \<le> 1
           | _ \<Rightarrow> False))"

lemma installer_raid_Some: "installer_raid k \<noteq> None"
  by (cases k) simp_all

lemma refused_check_boot:
  "refused (check_boot l by_id target f) = [] \<longleftrightarrow> boot_allowed l by_id target \<and> refused f = []"
proof (cases target)
  case Appliance
  have "refused (fold (\<lambda>(index, _). refuse BootOnAppliance (Some index) None) boots f) = []
      \<longleftrightarrow> boots = [] \<and> refused f = []" for boots :: "(nat \<times> vdev) list"
    by (subst fold_refused [where P = "\<lambda>_. False"]) (cases boots; auto)+
  then show ?thesis using Appliance by (simp add: check_boot_def boot_allowed_def)
next
  case Host
  show ?thesis
  proof (cases "boot_vdevs l")
    case (Cons b bs)
    obtain i v where b: "b = (i, v)" by (cases b)
    show ?thesis
    proof (cases bs)
      case Nil
      then show ?thesis
        using Cons b Host
        by (auto simp: check_boot_def boot_allowed_def Let_def installer_raid_Some not_less)
    qed (use Cons Host in \<open>simp add: check_boot_def boot_allowed_def\<close>)
  qed (use Host in \<open>simp add: check_boot_def boot_allowed_def\<close>)
qed

definition spares_allowed :: "pool_layout \<Rightarrow> inventory_map \<Rightarrow> bool" where
  \<comment> \<open>every spare is at least as large as every data member\<close>
  "spares_allowed l by_id =
     (\<forall>v\<in>set (layout_vdevs l). vdev_class v = Spare \<longrightarrow>
       (\<forall>s\<in>set (known_disks by_id (vdev_members v)).
         \<forall>d\<in>set (known_disks by_id (concat (map vdev_members (data_vdevs l)))). disk_size d \<le> disk_size s))"

lemma ball_enumerate:
  "(\<forall>(i, v)\<in>set (filter (\<lambda>(_, v). P v) (List.enumerate n vs)). Q v) \<longleftrightarrow> (\<forall>v\<in>set vs. P v \<longrightarrow> Q v)"
  by (induction vs arbitrary: n) auto

lemma refused_check_spares:
  "refused (check_spares l by_id f) = [] \<longleftrightarrow> spares_allowed l by_id \<and> refused f = []"
proof -
  let ?data = "known_disks by_id (concat (map vdev_members (data_vdevs l)))"
  show ?thesis
  proof (cases "max_by_key disk_size ?data")
    case None
    then have "?data = []" by (simp add: max_by_key_def)
    then show ?thesis by (simp add: check_spares_def spares_allowed_def max_by_key_def max_by_def)
  next
    case (Some largest)
    then have max: "largest \<in> set ?data" "\<forall>d\<in>set ?data. disk_size d \<le> disk_size largest"
      unfolding max_by_key_def using key.max_by_in [of disk_size] key.max_by_ge [of disk_size] by blast+
    have inner: "refused (fold (\<lambda>member f. case bt_get by_id member of
          Some spare \<Rightarrow> if disk_size spare < disk_size largest
            then refuse SpareTooSmall (Some index) (Some member) f else f
        | None \<Rightarrow> f) ms f) = []
      \<longleftrightarrow> (\<forall>s\<in>set (known_disks by_id ms). disk_size largest \<le> disk_size s) \<and> refused f = []" for ms f index
      by (subst fold_refused [where P = "\<lambda>m. \<forall>s. bt_get by_id m = Some s \<longrightarrow> disk_size largest \<le> disk_size s"])
        (auto simp: known_disks_def not_less split: option.splits)
    have "refused (check_spares l by_id f) = []
      \<longleftrightarrow> (\<forall>(i, v)\<in>set (filter (\<lambda>(_, v). vdev_class v = Spare) (List.enumerate 0 (layout_vdevs l))).
            \<forall>s\<in>set (known_disks by_id (vdev_members v)). disk_size largest \<le> disk_size s) \<and> refused f = []"
      unfolding check_spares_def Some option.case
      by (subst fold_refused [where P = "\<lambda>(i, v). \<forall>s\<in>set (known_disks by_id (vdev_members v)). disk_size largest \<le> disk_size s"])
        (auto simp: inner)
    also have "(\<forall>(i, v)\<in>set (filter (\<lambda>(_, v). vdev_class v = Spare) (List.enumerate 0 (layout_vdevs l))).
            \<forall>s\<in>set (known_disks by_id (vdev_members v)). disk_size largest \<le> disk_size s)
      \<longleftrightarrow> (\<forall>v\<in>set (layout_vdevs l). vdev_class v = Spare \<longrightarrow>
            (\<forall>s\<in>set (known_disks by_id (vdev_members v)). disk_size largest \<le> disk_size s))"
      by (rule ball_enumerate)
    also have "\<dots> \<longleftrightarrow> spares_allowed l by_id"
    proof -
      have "disk_size largest \<le> x \<longleftrightarrow> (\<forall>d\<in>set ?data. disk_size d \<le> x)" for x
        using max order_trans by blast
      then show ?thesis by (simp only: spares_allowed_def)
    qed
    finally show ?thesis .
  qed
qed

lemma refused_check_ashift:
  "refused (check_ashift l by_id f) = []
   \<longleftrightarrow> (\<forall>d\<in>set (known_disks by_id (layout_members l)). required_ashift [d] \<le> layout_ashift l)
     \<and> refused f = []"
  unfolding check_ashift_def
  by (subst fold_refused [where P = "\<lambda>m. \<forall>d. bt_get by_id m = Some d \<longrightarrow> required_ashift [d] \<le> layout_ashift l"])
    (auto simp: known_disks_def not_less split: option.splits)

lemma refused_check_vdev_members: "refused (check_vdev_members l by_id f) = refused f"
  unfolding check_vdev_members_def by (rule fold_warns) (auto simp: Let_def split: prod.splits)

lemma refused_update_force [simp]: "refused (f\<lparr> needs_force := b \<rparr>) = refused f"
  by simp

lemma refused_check_redundancy: "refused (check_redundancy l f) = refused f"
  unfolding check_redundancy_def Let_def
  by (subst fold_warns, simp split: prod.splits vdev_class.split,
      subst fold_warns, simp split: prod.splits, simp)

text \<open>
  C8: a layout is allowed exactly when its structure validates; its members are distinct disks of
  the inventory with distinct identities, none behind a RAID controller, in use or under 8 GiB; a
  host's pool has one boot vdev, redundant when encrypted, of one sector size, and an appliance's
  has none; every spare is as large as every data member; and the ashift suits every disk.
\<close>

theorem check_allows_iff:
  "is_allowed (check l inventory target)
   \<longleftrightarrow> layout_validate l = Ok () \<and> distinct (layout_members l)
     \<and> list_all (\<lambda>m. is_some_and disk_usable (bt_get (bt_collect (map (\<lambda>d. (disk_by_id d, d)) inventory)) m))
         (layout_members l)
     \<and> distinct (map (identity_in (bt_collect (map (\<lambda>d. (disk_by_id d, d)) inventory))) (layout_members l))
     \<and> boot_allowed l (bt_collect (map (\<lambda>d. (disk_by_id d, d)) inventory)) target
     \<and> spares_allowed l (bt_collect (map (\<lambda>d. (disk_by_id d, d)) inventory))
     \<and> list_all (\<lambda>d. required_ashift [d] \<le> layout_ashift l)
         (known_disks (bt_collect (map (\<lambda>d. (disk_by_id d, d)) inventory)) (layout_members l))"
proof (cases "layout_validate l")
  case (Inl e)
  then show ?thesis by (simp add: is_allowed_def check_def)
next
  case (Inr u)
  have "refused findings_default = []" by (simp add: findings_default_def)
  then show ?thesis
    unfolding is_allowed_def check_def Inr Let_def sum.case refused_check_redundancy
      refused_check_vdev_members refused_check_ashift refused_check_spares refused_check_boot
      refused_check_disks
    by (auto simp: list_all_iff is_some_and_iff)
qed

subsection \<open>Forcing\<close>

lemma fold_keeps_force:
  assumes "\<And>x f. needs_force (g x f) = needs_force f"
  shows "needs_force (fold g xs f) = needs_force f"
  by (induction xs arbitrary: f) (auto simp: assms)

lemma fold_keeps_warnings:
  assumes "\<And>x f. warnings f \<noteq> [] \<Longrightarrow> warnings (g x f) \<noteq> []"
  shows "warnings f \<noteq> [] \<Longrightarrow> warnings (fold g xs f) \<noteq> []"
  by (induction xs arbitrary: f) (auto simp: assms)

lemma force_check_disks: "needs_force (check_disks l by_id f) = needs_force f"
proof -
  have "needs_force (fst (check_disk by_id p st)) = needs_force (fst st)" for p st
    by (auto simp: check_disk_def Let_def split: prod.splits option.splits)
  then have "needs_force (fst (fold (check_disk by_id) ps st)) = needs_force (fst st)" for ps st
    by (induction ps arbitrary: st) simp_all
  then show ?thesis by (simp add: check_disks_def)
qed

lemma force_check_boot: "needs_force (check_boot l by_id t f) = needs_force f"
proof -
  have "needs_force (fold (\<lambda>(index, _). refuse BootOnAppliance (Some index) None) boots f) = needs_force f"
    for boots :: "(nat \<times> vdev) list"
    by (rule fold_keeps_force) (simp split: prod.split)
  then show ?thesis by (simp add: check_boot_def Let_def split: target.split prod.split)
qed

lemma force_check_spares: "needs_force (check_spares l by_id f) = needs_force f"
proof -
  have inner: "needs_force (fold (\<lambda>member f. case bt_get by_id member of
          Some spare \<Rightarrow> if disk_size spare < disk_size largest
            then refuse SpareTooSmall (Some index) (Some member) f else f
        | None \<Rightarrow> f) ms f) = needs_force f" for ms f index largest
    by (rule fold_keeps_force) (simp split: option.split)
  show ?thesis
    unfolding check_spares_def
    by (simp add: fold_keeps_force inner split: option.split prod.split)
qed

lemma force_check_ashift: "needs_force (check_ashift l by_id f) = needs_force f"
  unfolding check_ashift_def by (rule fold_keeps_force) (simp split: option.split)

lemma force_check_vdev_members: "needs_force (check_vdev_members l by_id f) = needs_force f"
  unfolding check_vdev_members_def
  by (rule fold_keeps_force) (auto simp: Let_def split: prod.splits)

definition shapes_differ :: "pool_layout \<Rightarrow> bool" where
  "shapes_differ l =
     (1 < card (set (map vdev_failures_tolerated (data_vdevs l)))
      \<or> 1 < card (set (map (\<lambda>v. (vdev_kind v, length (vdev_members v))) (data_vdevs l))))"

lemma map_enumerate_data:
  "map (\<lambda>(i, v). h v) (filter (\<lambda>(_, v). vdev_class v = Data) (List.enumerate n (layout_vdevs l)))
   = map h (data_vdevs l)"
proof -
  have "map (\<lambda>(i, v). h v) (filter (\<lambda>(_, v). vdev_class v = Data) (List.enumerate n vs))
      = map h (filter (\<lambda>v. vdev_class v = Data) vs)" for vs
    by (induction vs arbitrary: n) auto
  then show ?thesis by (simp add: data_vdevs_def)
qed

lemma force_check_redundancy:
  "needs_force (check_redundancy l f) \<longleftrightarrow> needs_force f \<or> shapes_differ l"
  "shapes_differ l \<Longrightarrow> warnings (check_redundancy l f) \<noteq> []"
proof -
  have tail: "needs_force (fold (\<lambda>(index, v) f.
           let survives = vdev_failures_tolerated v in
           case vdev_class v of
             Special \<Rightarrow> if survives < w then warn HelperLessRedundant (Some index) None f else f
           | Log \<Rightarrow>
               if survives = 0 then warn SingleLog (Some index) None f
               else if survives < w then warn HelperLessRedundant (Some index) None f
               else f
           | _ \<Rightarrow> f) xs f) = needs_force f"
    "warnings f \<noteq> [] \<Longrightarrow> warnings (fold (\<lambda>(index, v) f.
           let survives = vdev_failures_tolerated v in
           case vdev_class v of
             Special \<Rightarrow> if survives < w then warn HelperLessRedundant (Some index) None f else f
           | Log \<Rightarrow>
               if survives = 0 then warn SingleLog (Some index) None f
               else if survives < w then warn HelperLessRedundant (Some index) None f
               else f
           | _ \<Rightarrow> f) xs f) \<noteq> []" for w f and xs :: "(nat \<times> vdev) list"
    by (rule fold_keeps_force, simp add: Let_def split: prod.split vdev_class.split)
      (rule fold_keeps_warnings, simp_all add: Let_def split: prod.split vdev_class.split)
  have mid: "needs_force (fold (\<lambda>(index, v) f.
          if vdev_failures_tolerated v = 0 then warn NonRedundantData (Some index) None f else f) xs f) = needs_force f"
    "warnings f \<noteq> [] \<Longrightarrow> warnings (fold (\<lambda>(index, v) f.
          if vdev_failures_tolerated v = 0 then warn NonRedundantData (Some index) None f else f) xs f) \<noteq> []"
    for f and xs :: "(nat \<times> vdev) list"
    by (rule fold_keeps_force, simp split: prod.split)
      (rule fold_keeps_warnings, simp_all split: prod.split)
  show "needs_force (check_redundancy l f) \<longleftrightarrow> needs_force f \<or> shapes_differ l"
    unfolding check_redundancy_def Let_def tail(1) [unfolded Let_def] mid(1) map_enumerate_data
    by (simp add: shapes_differ_def)
  show "shapes_differ l \<Longrightarrow> warnings (check_redundancy l f) \<noteq> []"
    unfolding check_redundancy_def Let_def shapes_differ_def map_enumerate_data
    by (rule tail(2) [unfolded Let_def], rule mid(2)) auto
qed

text \<open>
  ZFS is forced only with a warning to acknowledge: force is needed exactly when a layout of
  valid structure mixes data vdevs of different redundancy, type or width, and then there is a
  warning.
\<close>

lemma force_needs_warning:
  "(needs_force (check l inventory target) \<longleftrightarrow> layout_validate l = Ok () \<and> shapes_differ l)
   \<and> (case check l inventory target of f \<Rightarrow> if needs_force f then warnings f \<noteq> [] else True)"
proof (cases "layout_validate l")
  case (Inl e)
  then show ?thesis by (simp add: check_def findings_default_def)
next
  case (Inr u)
  have "\<not> needs_force findings_default" by (simp add: findings_default_def)
  then show ?thesis
    unfolding check_def Inr Let_def sum.case
    by (simp add: force_check_redundancy force_check_vdev_members force_check_ashift
        force_check_spares force_check_boot force_check_disks)
qed

end
