(* ===== verification/Storage_Journal.thy ===== *)
theory Storage_Journal
  imports Core_Disk Storage_Layout Rust_BTree
begin

section \<open>The host storage journal\<close>

text \<open>
  The model of src/v3/crates/bmac-storage/src/journal.rs: the state a host keeps across storage
  workflows, every operation on it, and the locked update of the file. An operation returns the
  changed state or the error that leaves it unchanged. serde's reader and writer are parameters of
  the update, and so is which of its system calls fail.
\<close>

definition JOURNAL_SCHEMA_VERSION :: u32 where
  "JOURNAL_SCHEMA_VERSION = 1"

definition RECENT_SECONDS :: int where
  "RECENT_SECONDS = 24 * 60 * 60"

definition MAX_SCRUBS :: nat where
  "MAX_SCRUBS = 20"

definition MAX_REMOVALS :: nat where
  "MAX_REMOVALS = 200"

definition MAX_LINE :: nat where
  "MAX_LINE = 500"

datatype journal_error = Invalid string | JournalIo string

record trim_record =
  trim_completed_at :: int

record scrub =
  scrub_completed_at :: int
  scrub_result :: string

definition scrub_clean :: "scrub \<Rightarrow> bool" where
  "scrub_clean s = contains_str ''with 0 errors'' (scrub_result s)"

datatype removal_state = Requested | RemovalFailed | RemovalRetired

record removed_member =
  rm_identity :: "disk_identity option"
  rm_mapper :: "string option"
  rm_size :: "u64 option"

record journal_note =
  note_at :: int
  note_text :: string

record removal =
  removal_id :: string
  removal_vdev :: string
  removal_members :: "removed_member list"
  removal_state :: removal_state
  requested_at :: int
  updated_at :: int
  removal_notes :: "journal_note list"

record replacement =
  rep_leaf :: string
  rep_old :: "disk_identity option"
  rep_mapper :: "string option"
  rep_vdev :: string
  rep_recorded_at :: int

record addition =
  add_number :: u64
  add_class :: vdev_class
  add_kind :: vdev_type
  add_members :: "disk_identity list"
  add_recorded_at :: int

datatype simulation_stage = SimOffline | SimErased

record simulation =
  sim_vdev :: string
  sim_leaf :: string
  sim_disk :: disk_identity
  sim_mapper :: "string option"
  sim_stage :: simulation_stage
  sim_started_at :: int

record journal =
  j_schema_version :: u32
  trims :: "(guest_name, trim_record) btree"
  scrubs :: "scrub list"
  removals :: "removal list"
  replacements :: "(disk_identity, replacement) btree"
  additions :: "addition list"
  last_addition :: u64
  j_simulation :: "simulation option"

definition journal_default :: journal where
  "journal_default =
     \<lparr> j_schema_version = JOURNAL_SCHEMA_VERSION, trims = bt_empty, scrubs = [], removals = [],
       replacements = bt_empty, additions = [], last_addition = 0, j_simulation = None \<rparr>"

definition one_line :: "string \<Rightarrow> string \<Rightarrow> (journal_error, unit) result" where
  "one_line what t =
     (if t = [] \<or> CHR 0x0A \<in> set t \<or> MAX_LINE < length t
      then Err (Invalid (what @ '' must be one line of at most '' @ show_nat MAX_LINE @ '' characters''))
      else Ok ())"

subsection \<open>Operations\<close>

definition journal_validate :: "journal \<Rightarrow> (journal_error, unit) result" where
  "journal_validate s =
     (if j_schema_version s \<noteq> JOURNAL_SCHEMA_VERSION
      then Err (Invalid (''unsupported storage journal schema '' @ show_uint (j_schema_version s)))
      else if 1 < length (filter (\<lambda>r. removal_state r = Requested) (removals s))
      then Err (Invalid ''more than one vdev removal is in progress'')
      else and_then (try_for_each (\<lambda>r.
          if removal_members r = [] then Err (Invalid (''removal '' @ removal_id r @ '' has no members''))
          else Ok ()) (removals s)) (\<lambda>_.
      and_then (try_for_each (\<lambda>scrub. one_line ''a scrub result'' (scrub_result scrub)) (scrubs s)) (\<lambda>_.
      if list_ex (\<lambda>a. last_addition s < add_number a) (additions s)
      then Err (Invalid ''an addition number was never handed out'') else Ok ())))"

definition record_trims :: "guest_name list \<Rightarrow> int \<Rightarrow> journal \<Rightarrow> journal" where
  "record_trims guests now s =
     s\<lparr> trims := fold (\<lambda>guest m. bt_insert guest \<lparr> trim_completed_at = now \<rparr> m) guests (trims s) \<rparr>"

definition recently_trimmed :: "guest_name \<Rightarrow> int \<Rightarrow> journal \<Rightarrow> bool" where
  "recently_trimmed guest now s =
     is_some_and (\<lambda>t. now - trim_completed_at t < RECENT_SECONDS) (bt_get (trims s) guest)"

definition keep_last :: "nat \<Rightarrow> 'a list \<Rightarrow> 'a list" where
  \<comment> \<open>\<open>drain(..excess)\<close>\<close>
  "keep_last n xs = drop (length xs - n) xs"

definition record_scrub :: "string \<Rightarrow> int \<Rightarrow> journal \<Rightarrow> (journal_error, journal) result" where
  "record_scrub result now s =
     and_then (one_line ''a scrub result'' result) (\<lambda>_.
       Ok (s\<lparr> scrubs := keep_last MAX_SCRUBS
               (scrubs s @ [\<lparr> scrub_completed_at = now, scrub_result = result \<rparr>]) \<rparr>))"

definition recent_clean_scrub :: "int \<Rightarrow> journal \<Rightarrow> scrub option" where
  "recent_clean_scrub now s =
     option_filter (\<lambda>c. scrub_clean c \<and> now - scrub_completed_at c < RECENT_SECONDS)
       (if scrubs s = [] then None else Some (last (scrubs s)))"

definition removal_in_progress :: "journal \<Rightarrow> removal option" where
  "removal_in_progress s = find (\<lambda>r. removal_state r = Requested) (removals s)"

definition record_removal ::
    "string \<Rightarrow> removed_member list \<Rightarrow> int \<Rightarrow> journal \<Rightarrow> (journal_error, string \<times> journal) result" where
  "record_removal vdev members now s =
     and_then (one_line ''a vdev name'' vdev) (\<lambda>_.
     if members = [] then Err (Invalid ''a removal needs its members'')
     else if \<not> list_ex (\<lambda>m. rm_identity m \<noteq> None) members
     then Err (Invalid ''at least one member of a removed vdev must be an installed disk'')
     else case removal_in_progress s of
       Some other \<Rightarrow> Err (Invalid (''the removal of '' @ removal_vdev other @ '' is still in progress''))
     | None \<Rightarrow>
         (let new_id = ''removal-'' @ show_int now @ ''-'' @ vdev;
              new = \<lparr> removal_id = new_id, removal_vdev = vdev, removal_members = members,
                      removal_state = Requested, requested_at = now, updated_at = now,
                      removal_notes = [] \<rparr>
          in Ok (new_id, s\<lparr> removals := keep_last MAX_REMOVALS (removals s @ [new]) \<rparr>)))"

definition set_removal ::
    "string \<Rightarrow> removal_state \<Rightarrow> string option \<Rightarrow> int \<Rightarrow> journal \<Rightarrow> (journal_error, journal) result" where
  "set_removal rid state note now s =
     and_then (case note of Some n \<Rightarrow> one_line ''a note'' n | None \<Rightarrow> Ok ()) (\<lambda>_.
     if \<not> list_ex (\<lambda>r. removal_id r = rid) (removals s) then Err (Invalid (''no removal '' @ rid))
     else Ok (s\<lparr> removals := update_first (\<lambda>r. removal_id r = rid)
       (\<lambda>r. r\<lparr> removal_state := state, updated_at := now,
               removal_notes := removal_notes r @
                 (case note of Some n \<Rightarrow> [\<lparr> note_at = now, note_text = n \<rparr>] | None \<Rightarrow> []) \<rparr>)
       (removals s) \<rparr>))"

definition record_replacement ::
    "disk_identity \<Rightarrow> replacement \<Rightarrow> journal \<Rightarrow> (journal_error, journal) result" where
  "record_replacement disk rep s =
     and_then (one_line ''a vdev name'' (rep_vdev rep)) (\<lambda>_.
     and_then (one_line ''a leaf'' (rep_leaf rep)) (\<lambda>_.
     case find (\<lambda>(d, r). d \<noteq> disk \<and> rep_vdev r = rep_vdev rep \<and> rep_leaf r = rep_leaf rep)
            (replacements s) of
       Some (other, _) \<Rightarrow>
         Err (Invalid (disk_value other @ '' is already chosen to replace '' @ rep_leaf rep))
     | None \<Rightarrow> Ok (s\<lparr> replacements := bt_insert disk rep (replacements s) \<rparr>)))"

definition clear_replacement :: "disk_identity \<Rightarrow> journal \<Rightarrow> journal" where
  "clear_replacement disk s = s\<lparr> replacements := bt_remove disk (replacements s) \<rparr>"

definition replacing :: "disk_identity \<Rightarrow> journal \<Rightarrow> replacement option" where
  "replacing disk s = bt_get (replacements s) disk"

definition begin_addition ::
    "vdev_class \<Rightarrow> vdev_type \<Rightarrow> disk_identity list \<Rightarrow> int \<Rightarrow> journal
     \<Rightarrow> (journal_error, u64 \<times> journal) result" where
  "begin_addition cls kind members now s =
     (if members = [] then Err (Invalid ''a new vdev needs disks'')
      else and_then (try_for_each (\<lambda>m.
          case find (\<lambda>a. m \<in> set (add_members a)) (additions s) of
            Some other \<Rightarrow> Err (Invalid (disk_value m @ '' is already chosen for new vdev ''
                                       @ show_uint (add_number other)))
          | None \<Rightarrow> Ok ()) members) (\<lambda>_.
        let number = last_addition s + 1 in
        Ok (number, s\<lparr> last_addition := number,
               additions := additions s @ [\<lparr> add_number = number, add_class = cls, add_kind = kind,
                                             add_members = members, add_recorded_at = now \<rparr>] \<rparr>)))"

definition finish_addition :: "u64 \<Rightarrow> journal \<Rightarrow> journal" where
  "finish_addition number s = s\<lparr> additions := filter (\<lambda>a. add_number a \<noteq> number) (additions s) \<rparr>"

definition begin_simulation :: "simulation \<Rightarrow> journal \<Rightarrow> (journal_error, journal) result" where
  "begin_simulation sim s =
     (case j_simulation s of
        Some other \<Rightarrow> Err (Invalid (''a failure drill on '' @ sim_leaf other @ '' is already under way''))
      | None \<Rightarrow> Ok (s\<lparr> j_simulation := Some sim \<rparr>))"

subsection \<open>The file\<close>

datatype journal_file = Missing | NotRegular | Stored string

datatype io_call =
  IoStat | IoRead | IoMkdir | IoOpenTemporary | IoWriteTemporary | IoRename | IoSyncDir | IoOpenLock | IoLock

definition io_ok :: "(io_call \<Rightarrow> bool) \<Rightarrow> io_call \<Rightarrow> string \<Rightarrow> (journal_error, unit) result" where
  \<comment> \<open>a system call that fails is the error with its message\<close>
  "io_ok fails call what = (if fails call then Err (JournalIo what) else Ok ())"

definition journal_read ::
    "(io_call \<Rightarrow> bool) \<Rightarrow> (string \<Rightarrow> (string, journal) result) \<Rightarrow> journal_file
     \<Rightarrow> (journal_error, journal) result" where
  "journal_read fails from_slice file =
     and_then (io_ok fails IoStat ''cannot read'') (\<lambda>_.
     case file of
       Missing \<Rightarrow> Ok journal_default
     | NotRegular \<Rightarrow> Err (Invalid ''not a regular file'')
     | Stored content \<Rightarrow>
         and_then (io_ok fails IoRead ''cannot read'') (\<lambda>_.
         and_then (map_err Invalid (from_slice content)) (\<lambda>s.
         and_then (journal_validate s) (\<lambda>_. Ok s))))"

definition journal_write ::
    "(io_call \<Rightarrow> bool) \<Rightarrow> (journal \<Rightarrow> (string, string) result) \<Rightarrow> journal \<Rightarrow> journal_file
     \<Rightarrow> journal_file \<times> (journal_error, unit) result" where
  \<comment> \<open>the file changes when the temporary file is renamed over it, and not before\<close>
  "journal_write fails to_vec s file =
     (case and_then (journal_validate s) (\<lambda>_.
           and_then (io_ok fails IoMkdir ''cannot create the directory of'') (\<lambda>_.
           and_then (map_err Invalid (to_vec s)) (\<lambda>content.
           and_then (io_ok fails IoOpenTemporary ''cannot write'') (\<lambda>_.
           and_then (io_ok fails IoWriteTemporary ''cannot write'') (\<lambda>_.
           and_then (io_ok fails IoRename ''cannot replace'') (\<lambda>_. Ok (content @ [CHR 0x0A]))))))) of
        Err e \<Rightarrow> (file, Err e)
      | Ok content \<Rightarrow> (Stored content, io_ok fails IoSyncDir ''cannot sync the directory of''))"

definition journal_update ::
    "(io_call \<Rightarrow> bool) \<Rightarrow> (string \<Rightarrow> (string, journal) result) \<Rightarrow> (journal \<Rightarrow> (string, string) result)
     \<Rightarrow> (journal \<Rightarrow> (journal_error, 'a \<times> journal) result) \<Rightarrow> journal_file
     \<Rightarrow> journal_file \<times> (journal_error, 'a) result" where
  "journal_update fails from_slice to_vec change file =
     (case and_then (io_ok fails IoMkdir ''cannot create the directory of'') (\<lambda>_.
           and_then (io_ok fails IoOpenLock ''cannot open the lock of'') (\<lambda>_.
           and_then (io_ok fails IoLock ''cannot lock'') (\<lambda>_.
           and_then (journal_read fails from_slice file) change))) of
        Err e \<Rightarrow> (file, Err e)
      | Ok (result, s) \<Rightarrow>
          (let (file', written) = journal_write fails to_vec s file
           in (file', and_then written (\<lambda>_. Ok result))))"

subsection \<open>What a good journal is\<close>

definition addition_numbers_ok :: "journal \<Rightarrow> bool" where
  "addition_numbers_ok s =
     (distinct (map add_number (additions s)) \<and> (\<forall>a\<in>set (additions s). add_number a \<le> last_addition s))"

definition addition_disks_ok :: "journal \<Rightarrow> bool" where
  \<comment> \<open>no disk is chosen for two new vdevs\<close>
  "addition_disks_ok s =
     sorted_wrt (\<lambda>a b. set (add_members a) \<inter> set (add_members b) = {}) (additions s)"

definition replacements_ok :: "journal \<Rightarrow> bool" where
  \<comment> \<open>no member is replaced by two disks\<close>
  "replacements_ok s =
     (bt_ok (replacements s)
      \<and> (\<forall>d e r q. bt_get (replacements s) d = Some r \<and> bt_get (replacements s) e = Some q
           \<and> rep_vdev r = rep_vdev q \<and> rep_leaf r = rep_leaf q \<longrightarrow> d = e))"

definition journal_ok :: "journal \<Rightarrow> bool" where
  "journal_ok s =
     (journal_validate s = Ok () \<and> bt_ok (trims s) \<and> length (scrubs s) \<le> MAX_SCRUBS
      \<and> length (removals s) \<le> MAX_REMOVALS \<and> addition_numbers_ok s \<and> addition_disks_ok s
      \<and> replacements_ok s)"

lemma journal_validate_Ok_iff:
  "journal_validate s = Ok ()
   \<longleftrightarrow> j_schema_version s = JOURNAL_SCHEMA_VERSION
     \<and> length (filter (\<lambda>r. removal_state r = Requested) (removals s)) \<le> 1
     \<and> (\<forall>r\<in>set (removals s). removal_members r \<noteq> [])
     \<and> (\<forall>c\<in>set (scrubs s). one_line ''a scrub result'' (scrub_result c) = Ok ())
     \<and> (\<forall>a\<in>set (additions s). add_number a \<le> last_addition s)"
proof -
  have "try_for_each (\<lambda>r. if removal_members r = []
        then Err (Invalid (''removal '' @ removal_id r @ '' has no members'')) else Ok ()) rs = Ok ()
      \<longleftrightarrow> (\<forall>r\<in>set rs. removal_members r \<noteq> [])" for rs
    by (auto simp: try_for_each_Ok_iff)
  then show ?thesis
    by (auto simp: journal_validate_def and_then_Ok_iff try_for_each_Ok_iff list_ex_iff not_less)
      (meson leD)
qed

text \<open>
  A step is an operation the daemon runs under the lock. A changed removal is written only when the
  journal still validates; the daemon also moves and ends a failure drill by assigning the field.
  Fewer than 2^64 additions are ever numbered.
\<close>

inductive journal_step :: "journal \<Rightarrow> journal \<Rightarrow> bool" where
  step_trims: "journal_step s (record_trims guests now s)"
| step_scrub: "record_scrub result now s = Ok t \<Longrightarrow> journal_step s t"
| step_record_removal: "record_removal vdev members now s = Ok (i, t) \<Longrightarrow> journal_step s t"
| step_set_removal: "set_removal i state note now s = Ok t \<Longrightarrow> journal_validate t = Ok ()
     \<Longrightarrow> journal_step s t"
| step_record_replacement: "record_replacement disk rep s = Ok t \<Longrightarrow> journal_step s t"
| step_clear_replacement: "journal_step s (clear_replacement disk s)"
| step_begin_addition: "begin_addition cls kind members now s = Ok (n, t) \<Longrightarrow> last_addition s \<noteq> - 1
     \<Longrightarrow> journal_step s t"
| step_finish_addition: "journal_step s (finish_addition n s)"
| step_begin_simulation: "begin_simulation sim s = Ok t \<Longrightarrow> journal_step s t"
| step_set_simulation: "journal_step s (s\<lparr> j_simulation := drill \<rparr>)"

lemma journal_ok_default: "journal_ok journal_default"
  by (simp add: journal_ok_def journal_validate_Ok_iff journal_default_def bt_ok_empty
      addition_numbers_ok_def addition_disks_ok_def replacements_ok_def bt_get_empty)

lemma set_keep_last: "set (keep_last n xs) \<subseteq> set xs"
  by (simp add: keep_last_def set_drop_subset)

lemma length_keep_last: "length (keep_last n xs) \<le> n"
  by (simp add: keep_last_def)

lemma ok_record_trims: "journal_ok s \<Longrightarrow> journal_ok (record_trims guests now s)"
proof -
  have "bt_ok m \<Longrightarrow> bt_ok (fold (\<lambda>guest m. bt_insert guest \<lparr> trim_completed_at = now \<rparr> m) guests m)" for m
    by (induction guests arbitrary: m) (auto intro: bt_ok_insert)
  then show "journal_ok s \<Longrightarrow> ?thesis"
    by (simp add: journal_ok_def journal_validate_Ok_iff record_trims_def addition_numbers_ok_def
        addition_disks_ok_def replacements_ok_def)
qed

lemma ok_record_scrub: "journal_ok s \<Longrightarrow> record_scrub result now s = Ok t \<Longrightarrow> journal_ok t"
  using set_keep_last [of MAX_SCRUBS "scrubs s @ [\<lparr> scrub_completed_at = now, scrub_result = result \<rparr>]"]
  by (auto simp: journal_ok_def journal_validate_Ok_iff record_scrub_def addition_numbers_ok_def
      addition_disks_ok_def replacements_ok_def and_then_Ok_iff length_keep_last)

lemma removal_in_progress_None:
  "removal_in_progress s = None \<longleftrightarrow> filter (\<lambda>r. removal_state r = Requested) (removals s) = []"
  by (auto simp: removal_in_progress_def find_None_iff filter_empty_conv)

lemma filter_keep_last: "length (filter p (keep_last n xs)) \<le> length (filter p xs)"
proof -
  have "filter p xs = filter p (take (length xs - n) xs) @ filter p (keep_last n xs)"
    by (simp add: keep_last_def flip: filter_append)
  then show ?thesis by (metis le_add2 length_append)
qed

lemma record_removal_Ok:
  assumes "record_removal vdev members now s = Ok (i, t)"
  shows "removal_in_progress s = None \<and> members \<noteq> []
    \<and> t = s\<lparr> removals := keep_last MAX_REMOVALS (removals s @ [\<lparr> removal_id = i, removal_vdev = vdev,
          removal_members = members, removal_state = Requested, requested_at = now, updated_at = now,
          removal_notes = [] \<rparr>]) \<rparr>"
  using assms by (auto simp: record_removal_def and_then_Ok_iff Let_def split: if_splits option.splits)

lemma ok_record_removal:
  assumes "journal_ok s" and "record_removal vdev members now s = Ok (i, t)"
  shows "journal_ok t"
proof -
  let ?rs = "removals s @ [\<lparr> removal_id = i, removal_vdev = vdev, removal_members = members,
    removal_state = Requested, requested_at = now, updated_at = now, removal_notes = [] \<rparr>]"
  have t: "t = s\<lparr> removals := keep_last MAX_REMOVALS ?rs \<rparr>" "members \<noteq> []"
    "filter (\<lambda>r. removal_state r = Requested) (removals s) = []"
    using record_removal_Ok [OF assms(2)] by (auto simp: removal_in_progress_None)
  have "length (filter (\<lambda>r. removal_state r = Requested) (keep_last MAX_REMOVALS ?rs)) \<le> 1"
    using filter_keep_last [of "\<lambda>r. removal_state r = Requested" MAX_REMOVALS ?rs] t(3) by simp
  moreover have "\<forall>r\<in>set (keep_last MAX_REMOVALS ?rs). removal_members r \<noteq> []"
    using set_keep_last [of MAX_REMOVALS ?rs] assms(1) t(2) by (auto simp: journal_ok_def journal_validate_Ok_iff)
  ultimately show ?thesis
    using assms(1) unfolding t(1)
    by (simp add: journal_ok_def journal_validate_Ok_iff addition_numbers_ok_def
        addition_disks_ok_def replacements_ok_def length_keep_last)
qed

lemma ok_set_removal:
  assumes "journal_ok s" and "set_removal i state note now s = Ok t" and "journal_validate t = Ok ()"
  shows "journal_ok t"
  using assms
  by (auto simp: journal_ok_def set_removal_def and_then_Ok_iff addition_numbers_ok_def
      addition_disks_ok_def replacements_ok_def split: if_splits)

lemma ok_record_replacement:
  assumes "journal_ok s" and "record_replacement disk rep s = Ok t"
  shows "journal_ok t"
proof -
  have none: "find (\<lambda>(d, r). d \<noteq> disk \<and> rep_vdev r = rep_vdev rep \<and> rep_leaf r = rep_leaf rep)
      (replacements s) = None" and t: "t = s\<lparr> replacements := bt_insert disk rep (replacements s) \<rparr>"
    using assms(2) by (auto simp: record_replacement_def and_then_Ok_iff split: option.splits)
  have ok: "bt_ok (replacements s)" using assms(1) by (simp add: journal_ok_def replacements_ok_def)
  have "d = disk" if "bt_get (replacements s) d = Some r" "rep_vdev r = rep_vdev rep" "rep_leaf r = rep_leaf rep" for d r
    using none btm.entries_get [OF ok] that by (auto simp: find_None_iff)
  then have "replacements_ok t"
    using assms(1) unfolding t journal_ok_def replacements_ok_def
    by (auto simp: bt_ok_insert bt_get_insert split: if_splits)
  then show ?thesis
    using assms(1) unfolding t
    by (simp add: journal_ok_def journal_validate_Ok_iff addition_numbers_ok_def addition_disks_ok_def)
qed

lemma ok_clear_replacement: "journal_ok s \<Longrightarrow> journal_ok (clear_replacement disk s)"
  by (auto simp: journal_ok_def journal_validate_Ok_iff clear_replacement_def addition_numbers_ok_def
      addition_disks_ok_def replacements_ok_def bt_ok_remove bt_get_remove split: if_splits)

lemma begin_addition_Ok:
  assumes "begin_addition cls kind members now s = Ok (n, t)"
  shows "members \<noteq> [] \<and> n = last_addition s + 1
    \<and> (\<forall>a\<in>set (additions s). set members \<inter> set (add_members a) = {})
    \<and> t = s\<lparr> last_addition := n, additions := additions s @ [\<lparr> add_number = n, add_class = cls,
          add_kind = kind, add_members = members, add_recorded_at = now \<rparr>] \<rparr>"
proof -
  have *: "members \<noteq> []" "n = last_addition s + 1"
    "\<forall>m\<in>set members. find (\<lambda>a. m \<in> set (add_members a)) (additions s) = None"
    "t = s\<lparr> last_addition := n, additions := additions s @ [\<lparr> add_number = n, add_class = cls,
          add_kind = kind, add_members = members, add_recorded_at = now \<rparr>] \<rparr>"
    using assms by (auto simp: begin_addition_def and_then_Ok_iff try_for_each_Ok_iff Let_def
        split: if_splits option.splits)
  from *(3) have "\<forall>a\<in>set (additions s). set members \<inter> set (add_members a) = {}"
    by (auto simp: find_None_iff)
  with * show ?thesis by blast
qed

lemma less_succ_word: "w \<noteq> - 1 \<Longrightarrow> w < w + (1::u64)"
proof -
  assume "w \<noteq> - 1"
  then have "unat w \<noteq> unat (- 1 :: u64)" by (simp add: word_unat_eq_iff [symmetric])
  then have "unat w + 1 < 2 ^ 64" using unat_less_power [of w] by (simp add: unat_minus_one_word)
  then have "unat (w + 1) = unat w + 1" by (simp add: unat_word_ariths)
  then show ?thesis by (simp add: word_less_nat_alt)
qed

lemma ok_begin_addition:
  assumes "journal_ok s" and "begin_addition cls kind members now s = Ok (n, t)" and "last_addition s \<noteq> - 1"
  shows "journal_ok t"
proof -
  have t: "n = last_addition s + 1" "\<forall>a\<in>set (additions s). set members \<inter> set (add_members a) = {}"
    "t = s\<lparr> last_addition := n, additions := additions s @ [\<lparr> add_number = n, add_class = cls,
          add_kind = kind, add_members = members, add_recorded_at = now \<rparr>] \<rparr>"
    using begin_addition_Ok [OF assms(2)] by blast+
  have lt: "last_addition s < n" using less_succ_word assms(3) t(1) by simp
  have le: "\<forall>a\<in>set (additions s). add_number a \<le> last_addition s"
    using assms(1) by (simp add: journal_ok_def addition_numbers_ok_def)
  then have "\<forall>a\<in>set (additions s). add_number a < n" using lt by (blast intro: le_less_trans)
  then have new: "n \<notin> add_number ` set (additions s)" "\<forall>a\<in>set (additions s). add_number a \<le> n" by auto
  show ?thesis
    using assms(1) new t(2) unfolding t(3)
    by (auto simp: journal_ok_def journal_validate_Ok_iff addition_numbers_ok_def addition_disks_ok_def
        replacements_ok_def sorted_wrt_append Int_commute)
qed

lemma ok_finish_addition: "journal_ok s \<Longrightarrow> journal_ok (finish_addition n s)"
  by (auto simp: journal_ok_def journal_validate_Ok_iff finish_addition_def addition_numbers_ok_def
      addition_disks_ok_def replacements_ok_def sorted_wrt_filter distinct_map_filter)

lemma ok_simulation: "journal_ok s \<Longrightarrow> journal_ok (s\<lparr> j_simulation := d \<rparr>)"
  by (simp add: journal_ok_def journal_validate_Ok_iff addition_numbers_ok_def
      addition_disks_ok_def replacements_ok_def)

lemma ok_begin_simulation: "journal_ok s \<Longrightarrow> begin_simulation sim s = Ok t \<Longrightarrow> journal_ok t"
  by (auto simp: begin_simulation_def ok_simulation split: option.splits)

lemmas journal_ops_ok = ok_record_trims ok_record_scrub ok_record_removal ok_set_removal
  ok_record_replacement ok_clear_replacement ok_begin_addition ok_finish_addition ok_simulation
  ok_begin_simulation

lemma journal_step_ok: "journal_ok s \<Longrightarrow> journal_step s t \<Longrightarrow> journal_ok t"
  by (erule journal_step.cases) (auto intro: journal_ops_ok)

interpretation jm: state_machine journal_default journal_step journal_ok
  by unfold_locales (auto intro: journal_ok_default journal_step_ok)

text \<open>
  C9: every journal the daemon can write, from the empty one by any sequence of operations, is good:
  it validates, at most one vdev removal is in progress, at most 20 scrubs and 200 removals are
  kept, pending additions have distinct numbers that were handed out and no disk in common, and no
  member is replaced by two disks.
\<close>

theorem journal_reachable_ok:
  assumes "journal_step\<^sup>*\<^sup>* journal_default s"
  shows "journal_ok s \<and> length (filter (\<lambda>r. removal_state r = Requested) (removals s)) \<le> 1"
  using jm.reachable_inv [OF assms] by (simp add: journal_ok_def journal_validate_Ok_iff)

theorem journal_reachable_ok_witness:
  "journal_ok (finish_addition 1 journal_default)"
proof -
  have "journal_step\<^sup>*\<^sup>* journal_default (finish_addition 1 journal_default)"
    by (rule r_into_rtranclp) (rule step_finish_addition)
  from journal_reachable_ok [OF this] show ?thesis ..
qed

lemma last_addition_mono: "journal_step s t \<Longrightarrow> last_addition s \<le> last_addition t"
proof (induction rule: journal_step.induct)
  case (step_begin_addition cls kind members now s n t)
  then show ?case
    using begin_addition_Ok [OF step_begin_addition(1)] less_succ_word [of "last_addition s"] by simp
qed (auto simp: record_trims_def record_scrub_def set_removal_def record_replacement_def
    clear_replacement_def finish_addition_def begin_simulation_def and_then_Ok_iff
    dest: record_removal_Ok split: if_splits option.splits)

text \<open>
  An addition number is never reused: once one is handed out, every number handed out after any
  further sequence of operations is greater, whether the earlier addition is finished or not.
\<close>

lemma addition_numbers_fresh:
  assumes "journal_ok s" and "begin_addition cls kind members now s = Ok (n, t)" and "last_addition s \<noteq> - 1"
    and "journal_step\<^sup>*\<^sup>* t u"
    and "begin_addition cls' kind' members' now' u = Ok (n', v)" and "last_addition u \<noteq> - 1"
  shows "n < n' \<and> n \<notin> set (map add_number (additions s))"
proof -
  have s: "n = last_addition s + 1" "last_addition t = n" using begin_addition_Ok [OF assms(2)] by auto
  have t: "journal_ok t" by (rule ok_begin_addition [OF assms(1-3)])
  have "n \<le> last_addition u"
    using jm.steps_mono [of last_addition, OF last_addition_mono t assms(4)] s(2) by simp
  also have "\<dots> < n'"
    using begin_addition_Ok [OF assms(5)] less_succ_word [OF assms(6)] by simp
  finally have "n < n'" .
  moreover have "last_addition s < n" using less_succ_word [OF assms(3)] s(1) by simp
  then have "n \<notin> set (map add_number (additions s))"
    using assms(1) by (auto simp: journal_ok_def addition_numbers_ok_def)
  ultimately show ?thesis by simp
qed

lemma addition_numbers_fresh_witness:
  "(1::u64) < 2 \<and> 1 \<notin> set (map add_number (additions journal_default))"
proof -
  let ?add = "\<lambda>n d. \<lparr> add_number = n, add_class = Data, add_kind = Single, add_members = [Serial d], add_recorded_at = 0 \<rparr>"
  let ?t = "journal_default\<lparr> last_addition := 1, additions := [?add 1 ''a''] \<rparr>"
  let ?v = "journal_default\<lparr> last_addition := 2, additions := [?add 1 ''a'', ?add 2 ''b''] \<rparr>"
  have "begin_addition Data Single [Serial ''a''] 0 journal_default = Ok (1, ?t)"
    by (simp add: begin_addition_def journal_default_def)
  moreover have "begin_addition Data Single [Serial ''b''] 0 ?t = Ok (2, ?v)"
    by (simp add: begin_addition_def journal_default_def)
  ultimately show ?thesis
    using addition_numbers_fresh [OF journal_ok_default, of Data Single "[Serial ''a'']" 0 1 ?t ?t
        Data Single "[Serial ''b'']" 0 2 ?v]
    by (simp add: journal_default_def)
qed

text \<open>
  C13: the journal file is replaced whole or not at all. When the update succeeds, the file holds the
  text of the changed state, which validates; when it fails the file is unchanged, except when only
  the directory could not be synced after the new file was already in place.
\<close>

theorem journal_update_atomic:
  assumes "journal_update fails from_slice to_vec change file = (file', r)"
  shows "(r \<noteq> Err (JournalIo ''cannot sync the directory of'') \<and> \<not> is_ok r \<longrightarrow> file' = file)
    \<and> (file' \<noteq> file \<or> is_ok r \<longrightarrow>
        (\<exists>s x t content. journal_read fails from_slice file = Ok s \<and> change s = Ok (x, t)
          \<and> journal_validate t = Ok () \<and> to_vec t = Ok content \<and> file' = Stored (content @ [CHR 0x0A])
          \<and> (is_ok r \<longrightarrow> r = Ok x)))"
proof (cases "and_then (io_ok fails IoMkdir ''cannot create the directory of'') (\<lambda>_.
           and_then (io_ok fails IoOpenLock ''cannot open the lock of'') (\<lambda>_.
           and_then (io_ok fails IoLock ''cannot lock'') (\<lambda>_.
           and_then (journal_read fails from_slice file) change)))")
  case (Inl e)
  then show ?thesis using assms by (auto simp: journal_update_def)
next
  case (Inr p)
  obtain x t where p: "p = (x, t)" by (cases p)
  obtain s where s: "journal_read fails from_slice file = Ok s" "change s = Ok (x, t)"
    using Inr p by (auto simp: and_then_Ok_iff)
  have r: "file' = fst (journal_write fails to_vec t file)"
    "r = and_then (snd (journal_write fails to_vec t file)) (\<lambda>_. Ok x)"
    using assms Inr p by (auto simp: journal_update_def Let_def split: prod.splits)
  show ?thesis
  proof (cases "fst (journal_write fails to_vec t file) = file \<and> \<not> is_ok (snd (journal_write fails to_vec t file))")
    case True
    then show ?thesis unfolding r by (cases "snd (journal_write fails to_vec t file)") auto
  next
    case False
    then obtain content where w: "journal_validate t = Ok ()" "to_vec t = Ok content"
      "journal_write fails to_vec t file
        = (Stored (content @ [CHR 0x0A]), io_ok fails IoSyncDir ''cannot sync the directory of'')"
      by (auto simp: journal_write_def and_then_Ok_iff map_err_Ok_iff split: sum.splits)
    then show ?thesis
      using s unfolding r by (auto simp: io_ok_def)
  qed
qed

theorem journal_update_atomic_witness:
  "\<exists>content. journal_update (\<lambda>_. False) (\<lambda>_. Err ''bad'') (\<lambda>_. Ok ''{}'') (\<lambda>s. Ok ((), finish_addition 1 s)) Missing
     = (Stored content, Ok ())"
proof -
  obtain new r where u: "journal_update (\<lambda>_. False) (\<lambda>_. Err ''bad'') (\<lambda>_. Ok ''{}'')
      (\<lambda>s. Ok ((), finish_addition 1 s)) Missing = (new, r)" by fastforce
  have "is_ok r"
    using u ok_finish_addition [OF journal_ok_default, of 1]
    by (auto simp: journal_update_def journal_read_def journal_write_def io_ok_def journal_ok_def Let_def)
  with journal_update_atomic [OF u] u show ?thesis by auto
qed

text \<open>
  The identifier of a removal is not unique: a removal that fails and is requested again within
  one second gets the same identifier, and closing it then changes the old record and leaves the new
  one in progress, which blocks every later removal.
\<close>

lemma removal_id_reused:
  "\<exists>s1 s2 s3 s4. record_removal ''m'' [\<lparr> rm_identity = Some (Serial ''a''), rm_mapper = None, rm_size = None \<rparr>] 7 journal_default
        = Ok (''removal-7-m'', s1)
     \<and> set_removal ''removal-7-m'' RemovalFailed None 7 s1 = Ok s2
     \<and> record_removal ''m'' [\<lparr> rm_identity = Some (Serial ''a''), rm_mapper = None, rm_size = None \<rparr>] 7 s2
        = Ok (''removal-7-m'', s3)
     \<and> set_removal ''removal-7-m'' RemovalRetired None 8 s3 = Ok s4
     \<and> removal_in_progress s4 \<noteq> None"
proof -
  have seven: "show_int 7 = ''7''"
    by (simp add: show_int_def show_nat.simps [of 7] digit_char_def char_of_def bit_Suc_0_iff)
  show ?thesis
    by (simp add: record_removal_def set_removal_def seven one_line_def MAX_LINE_def journal_default_def
        removal_in_progress_def keep_last_def MAX_REMOVALS_def Let_def)
qed

end
