(* ===== verification/Backup_Retention.thy ===== *)
theory Backup_Retention
  imports Rust_BTree
begin

section \<open>Retention\<close>

text \<open>
  The model of src/v3/crates/bmac-backup/src/retention.rs: the calendar, the newest point in
  time (PIT) of each period, local retention on the cluster and appliance retention.

  The time zone database is jiff's, so the day of a time in a zone is the function a calendar
  carries; it returns \<open>None\<close> where jiff refuses the time, and the sources panic. No property
  below assumes that later times fall on later days. Times and days are \<^verbatim>\<open>i64\<close> in the
  sources and integers here; \<open>i64_min\<close> is written out where the code uses it.

  The specification \<open>kept_for\<close> says declaratively why a PIT is kept. The loops are shown to
  compute exactly that relation, and the policy comparison \<^verbatim>\<open>weakens\<close>, which decides whether
  a change waits for the weakening delay, is shown to be sound for it.
\<close>

subsection \<open>The calendar\<close>

definition WEEK_DAYS :: int where
  "WEEK_DAYS = 7"

definition YEAR_MONTHS :: int where
  "YEAR_MONTHS = 12"

record calendar =
  zone_day :: "int \<Rightarrow> int option"
  test_day_s :: "int option"

definition calendar_new :: "(int \<Rightarrow> int option) \<Rightarrow> int option \<Rightarrow> calendar" where
  "calendar_new zone day_s = \<lparr> zone_day = zone, test_day_s = option_filter (\<lambda>s. 0 < s) day_s \<rparr>"

definition calendar_day :: "calendar \<Rightarrow> int \<Rightarrow> int option" where
  "calendar_day cal t_s =
     (case test_day_s cal of Some day_s \<Rightarrow> Some (t_s div day_s) | None \<Rightarrow> zone_day cal t_s)"

record period =
  start_day :: int
  days :: int

definition period_of :: "period \<Rightarrow> int \<Rightarrow> int" where
  "period_of p day = (day - start_day p) div days p"

subsection \<open>The newest PIT of each period\<close>

type_synonym dated = "uuid \<times> int \<times> int"

definition keep_newest ::
    "'k::linorder \<Rightarrow> int \<times> uuid \<Rightarrow> ('k, int \<times> uuid) btree \<Rightarrow> ('k, int \<times> uuid) btree" where
  \<comment> \<open>\<open>entry(k).or_insert(v)\<close>, replaced when \<open>v\<close> is greater\<close>
  "keep_newest k v m =
     bt_alter k (\<lambda>e. case e of None \<Rightarrow> v | Some old \<Rightarrow> if old < v then v else old) m"

definition winners :: "dated list \<Rightarrow> (int \<Rightarrow> int) \<Rightarrow> int \<times> int \<Rightarrow> uuid list" where
  "winners pits in_period periods =
     map snd (bt_values (fold (\<lambda>(pit, day, taken) by_period.
        let period = in_period day in
        if \<not> (fst periods \<le> period \<and> period \<le> snd periods) then by_period
        else keep_newest period (taken, pit) by_period) pits bt_empty))"

definition back_periods :: "int \<Rightarrow> u32 option \<Rightarrow> int \<times> int" where
  "back_periods current before =
     (case before of Some n \<Rightarrow> (current - int (unat n), current) | None \<Rightarrow> (i64_min, current))"

definition last_periods :: "int \<Rightarrow> u32 \<Rightarrow> int \<times> int" where
  "last_periods current count =
     (case checked_sub count 1 of
        Some before \<Rightarrow> back_periods current (Some before)
      | None \<Rightarrow> (current + 1, current))"

subsection \<open>Local retention\<close>

record local_retention =
  lr_newest :: u32
  lr_days :: u32
  lr_weeks :: u32

record local_pit =
  lp_pit_uuid :: uuid
  lp_taken_s :: int
  lp_backed_up :: bool

definition first_day :: "calendar \<Rightarrow> int list \<Rightarrow> int option option" where
  \<comment> \<open>the outer \<open>None\<close> is the panic of \<open>calendar.day\<close>\<close>
  "first_day cal taken =
     (case list_min taken of None \<Rightarrow> Some None | Some t \<Rightarrow> map_option Some (calendar_day cal t))"

definition start_or_first :: "calendar \<Rightarrow> int option \<Rightarrow> int list \<Rightarrow> int \<Rightarrow> int option" where
  \<comment> \<open>\<open>start_day.or_else(first_day(..)).unwrap_or(fallback)\<close>\<close>
  "start_or_first cal start taken fallback =
     (case start of
        Some d \<Rightarrow> Some d
      | None \<Rightarrow> map_option (unwrap_or fallback) (first_day cal taken))"

definition lr_default :: local_retention where
  "lr_default = \<lparr> lr_newest = 0, lr_days = 0, lr_weeks = 0 \<rparr>"

definition lr_is_none :: "local_retention \<Rightarrow> bool" where
  "lr_is_none r = (r = lr_default)"

definition newest_first :: "local_pit list \<Rightarrow> local_pit list" where
  \<comment> \<open>the stable sort by \<open>Reverse((taken_s, pit_uuid))\<close>\<close>
  "newest_first pits = rev (sort_key (\<lambda>p. (lp_taken_s p, lp_pit_uuid p)) (rev pits))"

definition dated_local :: "calendar \<Rightarrow> local_pit \<Rightarrow> dated option" where
  "dated_local cal p =
     map_option (\<lambda>d. (lp_pit_uuid p, d, lp_taken_s p)) (calendar_day cal (lp_taken_s p))"

definition lr_keep ::
    "local_retention \<Rightarrow> local_pit list \<Rightarrow> calendar \<Rightarrow> int option \<Rightarrow> int \<Rightarrow> uuid set option" where
  "lr_keep r pits cal start now_s = do {
     let backed_up = newest_first (filter lp_backed_up pits);
     let keep = set (map lp_pit_uuid (take (unat (lr_newest r)) backed_up));
     all \<leftarrow> those (map (dated_local cal) (filter (\<lambda>p. lp_taken_s p \<le> now_s) pits));
     today \<leftarrow> calendar_day cal now_s;
     let keep = keep \<union> set (winners all (\<lambda>d. d) (last_periods today (lr_days r)));
     start \<leftarrow> start_or_first cal start (map lp_taken_s pits) today;
     let week = \<lparr> start_day = start, days = WEEK_DAYS \<rparr>;
     Some (keep \<union> set (winners all (period_of week)
                        (last_periods (period_of week today) (lr_weeks r))))
   }"

definition lr_claims_slot ::
    "local_retention \<Rightarrow> local_pit list \<Rightarrow> calendar \<Rightarrow> int option \<Rightarrow> int \<Rightarrow> bool option" where
  "lr_claims_slot r pits cal start slot_s = do {
     slot_day \<leftarrow> calendar_day cal slot_s;
     start \<leftarrow> start_or_first cal start (map lp_taken_s pits) slot_day;
     let week = \<lparr> start_day = start, days = WEEK_DAYS \<rparr>;
     ds \<leftarrow> those (map (\<lambda>p. calendar_day cal (lp_taken_s p)) pits);
     Some ((0 < lr_days r \<and> slot_day \<notin> set ds)
           \<or> (0 < lr_weeks r \<and> \<not> list_ex (\<lambda>d. period_of week d = period_of week slot_day) ds))
   }"

subsection \<open>Appliance retention\<close>

record appliance_retention =
  daily :: u32
  weekly :: u32
  monthly :: u32
  month_days :: u32
  yearly :: bool

definition ar_default :: appliance_retention where
  "ar_default = \<lparr> daily = 7, weekly = 4, monthly = 12, month_days = 30, yearly = True \<rparr>"

definition ar_validate :: "appliance_retention \<Rightarrow> (string, unit) result" where
  "ar_validate r =
     (if month_days r < 28 \<or> 31 < month_days r then Err ''a month must be 28 to 31 days'' else Ok ())"

definition weakens :: "appliance_retention \<Rightarrow> appliance_retention \<Rightarrow> bool" where
  "weakens new before =
     (daily new < daily before
      \<or> weekly new < weekly before
      \<or> (yearly new \<and> yearly before \<and> monthly new < monthly before)
      \<or> month_days new \<noteq> month_days before
      \<or> (yearly new \<and> \<not> yearly before))"

datatype keep_reason =
    Latest | Today | Daily | Weekly | Monthly | Yearly | BranchHead | BranchRoot
  | CommonAncestor | RestoreGrant | CloneOrigin | Hold | PeerRepair | Transfer

record appliance_pit =
  ap_pit_uuid :: uuid
  ap_taken_s :: int
  ap_branch :: string
  ap_parent :: "uuid option"

record clock =
  clock_calendar :: calendar
  clock_start_day :: "int option"
  clock_now_s :: int

type_synonym keep_map = "(uuid, keep_reason set) btree"

definition dated_pit :: "calendar \<Rightarrow> appliance_pit \<Rightarrow> dated option" where
  "dated_pit cal p =
     map_option (\<lambda>d. (ap_pit_uuid p, d, ap_taken_s p)) (calendar_day cal (ap_taken_s p))"

definition keep_tiers ::
    "appliance_retention \<Rightarrow> int \<Rightarrow> (period \<times> u32 option \<times> keep_reason) list" where
  "keep_tiers policy start =
     (let week = \<lparr> start_day = start, days = WEEK_DAYS \<rparr>;
          month = \<lparr> start_day = start, days = int (unat (max (month_days policy) 1)) \<rparr>;
          year = \<lparr> start_day = start, days = days month * YEAR_MONTHS \<rparr>;
          day = \<lparr> start_day = start, days = 1 \<rparr>;
          tiers = [(day, Some (daily policy), Daily),
                   (week, Some (weekly policy), Weekly),
                   (month, if yearly policy then Some (monthly policy) else None, Monthly)]
      in if yearly policy then tiers @ [(year, None, Yearly)] else tiers)"

definition add_today :: "int \<Rightarrow> dated list \<Rightarrow> keep_map \<Rightarrow> keep_map" where
  "add_today today dated keep =
     fold (\<lambda>(pit, day, _) keep. if today \<le> day then bt_add pit Today keep else keep) dated keep"

definition add_tiers ::
    "int \<Rightarrow> dated list \<Rightarrow> (period \<times> u32 option \<times> keep_reason) list \<Rightarrow> keep_map \<Rightarrow> keep_map" where
  "add_tiers today dated tiers keep =
     fold (\<lambda>(period, count, why) keep.
        fold (\<lambda>pit keep. bt_add pit why keep)
          (winners dated (period_of period) (back_periods (period_of period today) count)) keep)
       tiers keep"

type_synonym branch_ends = "(string, int \<times> uuid) btree"

definition branch_step ::
    "(uuid, appliance_pit) btree \<Rightarrow> appliance_pit \<Rightarrow> keep_map \<times> branch_ends \<times> branch_ends
     \<Rightarrow> keep_map \<times> branch_ends \<times> branch_ends" where
  \<comment> \<open>one turn of the loop over the PITs: the branch heads, the seeds and the roots\<close>
  "branch_step by_id p = (\<lambda>(keep, heads, seeds).
     let heads = keep_newest (ap_branch p) (ap_taken_s p, ap_pit_uuid p) heads in
     case ap_parent p of
       None \<Rightarrow> (keep, heads, keep_newest (ap_branch p) (ap_taken_s p, ap_pit_uuid p) seeds)
     | Some parent \<Rightarrow>
         (case bt_get by_id parent of
            Some q \<Rightarrow>
              if ap_branch q \<noteq> ap_branch p
              then (bt_add (ap_pit_uuid q) CommonAncestor
                      (bt_add (ap_pit_uuid p) BranchRoot keep), heads, seeds)
              else (keep, heads, seeds)
          | None \<Rightarrow> (keep, heads, seeds)))"

definition add_branches :: "appliance_pit list \<Rightarrow> keep_map \<Rightarrow> keep_map" where
  "add_branches pits keep =
     (let by_id = bt_collect (map (\<lambda>p. (ap_pit_uuid p, p)) pits);
          (keep, heads, seeds) = fold (branch_step by_id) pits (keep, bt_empty, bt_empty);
          keep = fold (\<lambda>(_, pit) keep. bt_add pit BranchHead keep) (bt_values heads) keep
      in fold (\<lambda>(_, pit) keep. bt_add pit BranchRoot keep) (bt_values seeds) keep)"

definition add_pinned :: "(uuid, keep_reason list) btree \<Rightarrow> keep_map \<Rightarrow> keep_map" where
  "add_pinned pinned keep =
     fold (\<lambda>(pit, reasons) keep. fold (bt_add pit) reasons keep) pinned keep"

definition appliance_keep ::
    "appliance_pit list \<Rightarrow> appliance_retention \<Rightarrow> clock \<Rightarrow> (uuid, keep_reason list) btree
     \<Rightarrow> keep_map option" where
  "appliance_keep pits policy clock pinned = do {
     let keep = (case max_by_key (\<lambda>p. (ap_taken_s p, ap_pit_uuid p)) pits of
                   Some p \<Rightarrow> bt_add (ap_pit_uuid p) Latest bt_empty | None \<Rightarrow> bt_empty);
     today \<leftarrow> calendar_day (clock_calendar clock) (clock_now_s clock);
     dated \<leftarrow> those (map (dated_pit (clock_calendar clock)) pits);
     let keep = add_today today dated keep;
     start \<leftarrow> start_or_first (clock_calendar clock) (clock_start_day clock)
                (map ap_taken_s pits) today;
     let keep = add_tiers today dated (keep_tiers policy start) keep;
     let keep = add_branches pits keep;
     Some (add_pinned pinned keep)
   }"

subsection \<open>The specification\<close>

text \<open>
  A PIT is the newest of a group when no other PIT of the group has a greater time and, at the
  same time, a greater identifier.
\<close>

definition pit_stamp :: "appliance_pit \<Rightarrow> int \<times> uuid" where
  "pit_stamp p = (ap_taken_s p, ap_pit_uuid p)"

definition newest_in :: "appliance_pit set \<Rightarrow> appliance_pit \<Rightarrow> bool" where
  "newest_in pits p = (p \<in> pits \<and> (\<forall>q\<in>pits. pit_stamp q \<le> pit_stamp p))"

definition in_tier :: "int \<Rightarrow> period \<Rightarrow> u32 option \<Rightarrow> int \<Rightarrow> bool" where
  "in_tier today period count day =
     (period_of period day \<le> period_of period today
      \<and> (case count of
           Some n \<Rightarrow> period_of period today - int (unat n) \<le> period_of period day
         | None \<Rightarrow> i64_min \<le> period_of period day))"

inductive kept_for ::
    "appliance_pit list \<Rightarrow> appliance_retention \<Rightarrow> (int \<Rightarrow> int) \<Rightarrow> int \<Rightarrow> int
     \<Rightarrow> (uuid, keep_reason list) btree \<Rightarrow> uuid \<Rightarrow> keep_reason \<Rightarrow> bool"
  for pits :: "appliance_pit list" and policy :: appliance_retention and day :: "int \<Rightarrow> int"
    and start :: int and today :: int and pinned :: "(uuid, keep_reason list) btree"
where
  latest: "newest_in (set pits) p
     \<Longrightarrow> kept_for pits policy day start today pinned (ap_pit_uuid p) Latest"
| today: "p \<in> set pits \<Longrightarrow> today \<le> day (ap_taken_s p)
     \<Longrightarrow> kept_for pits policy day start today pinned (ap_pit_uuid p) Today"
| tier: "(period, count, why) \<in> set (keep_tiers policy start)
     \<Longrightarrow> in_tier today period count (day (ap_taken_s p))
     \<Longrightarrow> newest_in {q \<in> set pits. period_of period (day (ap_taken_s q))
                               = period_of period (day (ap_taken_s p))} p
     \<Longrightarrow> kept_for pits policy day start today pinned (ap_pit_uuid p) why"
| head: "newest_in {q \<in> set pits. ap_branch q = ap_branch p} p
     \<Longrightarrow> kept_for pits policy day start today pinned (ap_pit_uuid p) BranchHead"
| seed: "newest_in {q \<in> set pits. ap_branch q = ap_branch p \<and> ap_parent q = None} p
     \<Longrightarrow> kept_for pits policy day start today pinned (ap_pit_uuid p) BranchRoot"
| root: "p \<in> set pits \<Longrightarrow> q \<in> set pits \<Longrightarrow> ap_parent p = Some (ap_pit_uuid q)
     \<Longrightarrow> ap_branch q \<noteq> ap_branch p
     \<Longrightarrow> kept_for pits policy day start today pinned (ap_pit_uuid p) BranchRoot"
| ancestor: "p \<in> set pits \<Longrightarrow> q \<in> set pits \<Longrightarrow> ap_parent p = Some (ap_pit_uuid q)
     \<Longrightarrow> ap_branch q \<noteq> ap_branch p
     \<Longrightarrow> kept_for pits policy day start today pinned (ap_pit_uuid q) CommonAncestor"
| pinned: "(pit, reasons) \<in> set pinned \<Longrightarrow> why \<in> set reasons
     \<Longrightarrow> kept_for pits policy day start today pinned pit why"

subsection \<open>Loops that keep the newest\<close>

lemma fold_newest:
  "fold (\<lambda>x acc. Some (case acc of None \<Rightarrow> v x | Some old \<Rightarrow> if old < v x then v x else old)) xs
     (Some (a::'b::linorder)) = Some (fold (\<lambda>y m. if m \<le> y then y else m) (map v xs) a)"
  by (induction xs arbitrary: a) (auto simp: le_less)

lemma get_newest_group:
  "bt_get (fold (\<lambda>x. keep_newest (k x) (v x)) xs bt_empty) j
   = list_max (map v (filter (\<lambda>x. k x = j) xs))"
proof -
  have "bt_get (fold (\<lambda>x. keep_newest (k x) (v x)) xs bt_empty) j
    = fold (\<lambda>x acc. Some (case acc of None \<Rightarrow> v x | Some old \<Rightarrow> if old < v x then v x else old))
        (filter (\<lambda>x. k x = j) xs) None"
    unfolding keep_newest_def bt_alter_def
    by (subst btm.get_group [OF btm.ok_empty]) (simp add: bt_get_empty)
  also have "\<dots> = list_max (map v (filter (\<lambda>x. k x = j) xs))"
    by (cases "filter (\<lambda>x. k x = j) xs") (simp_all add: list_max_def max_by_def fold_newest)
  finally show ?thesis .
qed

lemma ok_newest_group: "bt_ok (fold (\<lambda>x. keep_newest (k x) (v x)) xs bt_empty)"
  unfolding keep_newest_def bt_alter_def by (rule btm.ok_group [OF btm.ok_empty])

lemma values_newest_group:
  "set (bt_values (fold (\<lambda>x. keep_newest (k x) (v x)) xs bt_empty))
   = v ` {x \<in> set xs. \<forall>y\<in>set xs. k y = k x \<longrightarrow> v y \<le> v x}"
  unfolding set_eq_iff bt_values_iff [OF ok_newest_group] get_newest_group list_max_Some by auto

lemma fold_filter:
  "fold (\<lambda>x m. if P x then f x m else m) xs m = fold f (filter P xs) m"
  by (induction xs arbitrary: m) auto

definition in_periods :: "(int \<Rightarrow> int) \<Rightarrow> int \<times> int \<Rightarrow> dated \<Rightarrow> bool" where
  "in_periods f periods = (\<lambda>(i, d, t). fst periods \<le> f d \<and> f d \<le> snd periods)"

lemma winners_group:
  "winners ds f periods
   = map snd (bt_values (fold (\<lambda>x. keep_newest (f (fst (snd x))) (snd (snd x), fst x))
       (filter (in_periods f periods) ds) bt_empty))"
proof -
  have "(\<lambda>(pit, day, taken) by_period.
        let period = f day in
        if \<not> (fst periods \<le> period \<and> period \<le> snd periods) then by_period
        else keep_newest period (taken, pit) by_period)
    = (\<lambda>x m. if in_periods f periods x then keep_newest (f (fst (snd x))) (snd (snd x), fst x) m else m)"
    by (auto simp: fun_eq_iff Let_def in_periods_def)
  then show ?thesis by (simp add: winners_def fold_filter)
qed

lemma winners_iff:
  "pit \<in> set (winners ds f periods)
   \<longleftrightarrow> (\<exists>d t. (pit, d, t) \<in> set ds \<and> fst periods \<le> f d \<and> f d \<le> snd periods
         \<and> (\<forall>(i, e, u)\<in>set ds. f e = f d \<longrightarrow> (u, i) \<le> (t, pit)))"
proof -
  let ?in = "in_periods f periods"
  have "set (winners ds f periods)
    = {fst x |x. x \<in> set ds \<and> ?in x
        \<and> (\<forall>y\<in>set ds. ?in y \<longrightarrow> f (fst (snd y)) = f (fst (snd x)) \<longrightarrow> (snd (snd y), fst y) \<le> (snd (snd x), fst x))}"
    unfolding winners_group set_map values_newest_group image_image snd_conv set_filter by blast
  also have "\<dots> = {i. \<exists>d t. (i, d, t) \<in> set ds \<and> ?in (i, d, t)
      \<and> (\<forall>(j, e, u)\<in>set ds. ?in (j, e, u) \<longrightarrow> f e = f d \<longrightarrow> (u, j) \<le> (t, i))}"
    by (simp add: Ball_def del: less_eq_prod_simp)
  finally show ?thesis
    by (simp add: Ball_def in_periods_def del: less_eq_prod_simp) (metis (no_types, lifting))
qed

subsection \<open>The phases of the keep set\<close>

lemma reasons_today:
  "bt_elems (add_today today ds m) j
   = bt_elems m j \<union> {Today |d t. (j, d, t) \<in> set ds \<and> today \<le> d}"
proof -
  have "add_today today ds m = fold (\<lambda>x. bt_add (fst x) Today) (filter (\<lambda>x. today \<le> fst (snd x)) ds) m"
    unfolding add_today_def fold_filter [symmetric]
    by (rule arg_cong [where f = "\<lambda>g. fold g ds m"]) (auto simp: fun_eq_iff)
  then show ?thesis by (auto simp: bt_elems_fold_add)
qed

lemma reasons_tiers:
  "bt_elems (add_tiers today ds tiers m) j
   = bt_elems m j
     \<union> {w |p c w. (p, c, w) \<in> set tiers
              \<and> j \<in> set (winners ds (period_of p) (back_periods (period_of p today) c))}"
  unfolding add_tiers_def
  by (subst bt_elems_fold [where R = "\<lambda>(p, c, w).
        {w |x. x \<in> set (winners ds (period_of p) (back_periods (period_of p today) c)) \<and> x = j}"])
    (auto simp: bt_elems_fold_add)

lemma reasons_pinned:
  "bt_elems (add_pinned pinned m) j
   = bt_elems m j \<union> {w |w rs. (j, rs) \<in> set pinned \<and> w \<in> set rs}"
proof -
  have "fold (bt_add i) rs m = fold (\<lambda>w. bt_add i w) rs m" for i rs m by simp
  show ?thesis
    unfolding add_pinned_def
    by (subst bt_elems_fold [where R = "\<lambda>(i, rs). {w |w. w \<in> set rs \<and> i = j}"])
      (auto simp: bt_elems_fold_add [where w = "\<lambda>x. x"])
qed

subsection \<open>The loop over the branches\<close>

definition cross_parent ::
    "(uuid, appliance_pit) btree \<Rightarrow> appliance_pit \<Rightarrow> appliance_pit option" where
  \<comment> \<open>the parent of a PIT when it is on another branch\<close>
  "cross_parent by_id p =
     option_filter (\<lambda>q. ap_branch q \<noteq> ap_branch p) (Option.bind (ap_parent p) (bt_get by_id))"

definition add_cross :: "(uuid, appliance_pit) btree \<Rightarrow> appliance_pit \<Rightarrow> keep_map \<Rightarrow> keep_map" where
  "add_cross by_id p keep =
     (case cross_parent by_id p of
        None \<Rightarrow> keep
      | Some q \<Rightarrow> bt_add (ap_pit_uuid q) CommonAncestor (bt_add (ap_pit_uuid p) BranchRoot keep))"

lemma branch_step_split:
  "branch_step by_id p (keep, heads, seeds)
   = (add_cross by_id p keep, keep_newest (ap_branch p) (pit_stamp p) heads,
      if ap_parent p = None then keep_newest (ap_branch p) (pit_stamp p) seeds else seeds)"
  by (auto simp: branch_step_def add_cross_def cross_parent_def pit_stamp_def Let_def
      split: option.splits)

lemma branch_fold_split:
  "fold (branch_step by_id) pits (keep, heads, seeds)
   = (fold (add_cross by_id) pits keep,
      fold (\<lambda>p. keep_newest (ap_branch p) (pit_stamp p)) pits heads,
      fold (\<lambda>p. keep_newest (ap_branch p) (pit_stamp p)) (filter (\<lambda>p. ap_parent p = None) pits) seeds)"
  by (induction pits arbitrary: keep heads seeds) (auto simp: branch_step_split)

lemma reasons_cross:
  "bt_elems (fold (add_cross by_id) pits m) j
   = bt_elems m j
     \<union> {BranchRoot |p q. p \<in> set pits \<and> cross_parent by_id p = Some q \<and> ap_pit_uuid p = j}
     \<union> {CommonAncestor |p q. p \<in> set pits \<and> cross_parent by_id p = Some q \<and> ap_pit_uuid q = j}"
  by (subst bt_elems_fold [where R = "\<lambda>p. {BranchRoot |q. cross_parent by_id p = Some q \<and> ap_pit_uuid p = j}
        \<union> {CommonAncestor |q. cross_parent by_id p = Some q \<and> ap_pit_uuid q = j}"])
    (auto simp: add_cross_def split: option.splits)

lemma branch_ends_iff:
  "x \<in> set (bt_values (fold (\<lambda>p. keep_newest (ap_branch p) (pit_stamp p)) (filter P pits) bt_empty))
   \<longleftrightarrow> (\<exists>p. newest_in {q \<in> set pits. ap_branch q = ap_branch p \<and> P q} p \<and> x = pit_stamp p)"
  unfolding values_newest_group newest_in_def by auto

lemma snd_pit_stamp [simp]: "snd (pit_stamp p) = ap_pit_uuid p"
  by (simp add: pit_stamp_def)

lemma reasons_ends:
  "bt_elems (fold (\<lambda>(_, i). bt_add i w)
      (bt_values (fold (\<lambda>p. keep_newest (ap_branch p) (pit_stamp p)) (filter P pits) bt_empty)) m) j
   = bt_elems m j
     \<union> {w |p. newest_in {q \<in> set pits. ap_branch q = ap_branch p \<and> P q} p \<and> ap_pit_uuid p = j}"
  unfolding case_prod_beta bt_elems_fold_add branch_ends_iff by (auto simp: pit_stamp_def)

lemma reasons_branches:
  "bt_elems (add_branches pits m) j
   = bt_elems m j
     \<union> {BranchRoot |p q. p \<in> set pits
          \<and> cross_parent (bt_collect (map (\<lambda>p. (ap_pit_uuid p, p)) pits)) p = Some q \<and> ap_pit_uuid p = j}
     \<union> {CommonAncestor |p q. p \<in> set pits
          \<and> cross_parent (bt_collect (map (\<lambda>p. (ap_pit_uuid p, p)) pits)) p = Some q \<and> ap_pit_uuid q = j}
     \<union> {BranchHead |p. newest_in {q \<in> set pits. ap_branch q = ap_branch p \<and> True} p \<and> ap_pit_uuid p = j}
     \<union> {BranchRoot |p. newest_in {q \<in> set pits. ap_branch q = ap_branch p \<and> ap_parent q = None} p
          \<and> ap_pit_uuid p = j}"
  unfolding add_branches_def branch_fold_split Let_def prod.case reasons_cross [symmetric]
    reasons_ends [symmetric] by simp

subsection \<open>The loops compute the specification\<close>

abbreviation day_of :: "calendar \<Rightarrow> int \<Rightarrow> int" where
  "day_of cal t \<equiv> the (calendar_day cal t)"

lemma in_tier_back:
  "in_tier today p c d
   \<longleftrightarrow> fst (back_periods (period_of p today) c) \<le> period_of p d
     \<and> period_of p d \<le> snd (back_periods (period_of p today) c)"
  by (auto simp: in_tier_def back_periods_def split: option.splits)

lemma winners_pits:
  "j \<in> set (winners (map (\<lambda>p. (ap_pit_uuid p, day (ap_taken_s p), ap_taken_s p)) pits) f periods)
   \<longleftrightarrow> (\<exists>p. newest_in {q \<in> set pits. f (day (ap_taken_s q)) = f (day (ap_taken_s p))} p
         \<and> fst periods \<le> f (day (ap_taken_s p)) \<and> f (day (ap_taken_s p)) \<le> snd periods
         \<and> ap_pit_uuid p = j)"
  unfolding winners_iff newest_in_def pit_stamp_def
  by (auto simp del: less_eq_prod_simp)

lemma dated_pits:
  "those (map (dated_pit cal) pits) = Some ds
   \<longleftrightarrow> (\<forall>p\<in>set pits. calendar_day cal (ap_taken_s p) \<noteq> None)
     \<and> ds = map (\<lambda>p. (ap_pit_uuid p, day_of cal (ap_taken_s p), ap_taken_s p)) pits"
  unfolding those_map_Some_iff by (auto simp: dated_pit_def option.map_sel)

lemma reasons_today_pits:
  "bt_elems (add_today today
      (map (\<lambda>p. (ap_pit_uuid p, day_of cal (ap_taken_s p), ap_taken_s p)) pits) m) j
   = bt_elems m j
     \<union> {Today |p. p \<in> set pits \<and> today \<le> day_of cal (ap_taken_s p) \<and> ap_pit_uuid p = j}"
  unfolding reasons_today by (auto simp: image_iff)

lemma cross_parent_iff:
  assumes "distinct (map ap_pit_uuid pits)"
  shows "cross_parent (bt_collect (map (\<lambda>p. (ap_pit_uuid p, p)) pits)) p = Some q
    \<longleftrightarrow> q \<in> set pits \<and> ap_parent p = Some (ap_pit_uuid q) \<and> ap_branch q \<noteq> ap_branch p"
proof -
  have "distinct (map fst (rev (map (\<lambda>p. (ap_pit_uuid p, p)) pits)))"
    using assms by (simp add: rev_map [symmetric] comp_def)
  from map_of_eq_Some_iff [OF this] show ?thesis
    by (auto simp: cross_parent_def bt_get_collect bind_eq_Some_conv)
qed

lemma reasons_latest:
  "bt_elems (case max_by_key pit_stamp pits of
       Some p \<Rightarrow> bt_add (ap_pit_uuid p) Latest bt_empty | None \<Rightarrow> bt_empty) j
   = {Latest |p. newest_in (set pits) p \<and> ap_pit_uuid p = j}"
proof (cases "max_by_key pit_stamp pits")
  case None
  then show ?thesis by (simp add: newest_in_def) (simp add: max_by_key_def)
next
  case (Some p)
  then have "newest_in (set pits) p"
    unfolding max_by_key_def newest_in_def
    using key.max_by_in [of pit_stamp pits] key.max_by_ge [of pit_stamp pits] by blast
  moreover have "ap_pit_uuid q = ap_pit_uuid p" if "newest_in (set pits) q" for q
  proof -
    have "pit_stamp q = pit_stamp p"
      using that \<open>newest_in (set pits) p\<close> unfolding newest_in_def by (meson order.antisym)
    then show ?thesis by (metis snd_pit_stamp)
  qed
  ultimately have "(\<exists>q. newest_in (set pits) q \<and> ap_pit_uuid q = j) \<longleftrightarrow> ap_pit_uuid p = j"
    by metis
  then have "{Latest |q. newest_in (set pits) q \<and> ap_pit_uuid q = j}
      = (if ap_pit_uuid p = j then {Latest} else {})" by (simp only: if_split) blast
  then show ?thesis unfolding Some by (cases "ap_pit_uuid p = j") simp_all
qed

lemma appliance_keep_reasons:
  assumes "distinct (map ap_pit_uuid pits)"
    and "calendar_day cal now = Some today"
    and "start_or_first cal st (map ap_taken_s pits) today = Some start"
    and "appliance_keep pits policy \<lparr> clock_calendar = cal, clock_start_day = st, clock_now_s = now \<rparr> pinned
      = Some keep"
  shows "w \<in> bt_elems keep j \<longleftrightarrow> kept_for pits policy (day_of cal) start today pinned j w"
proof -
  from assms(2-4) have keep: "keep = add_pinned pinned (add_branches pits (add_tiers today
      (map (\<lambda>p. (ap_pit_uuid p, day_of cal (ap_taken_s p), ap_taken_s p)) pits) (keep_tiers policy start)
      (add_today today (map (\<lambda>p. (ap_pit_uuid p, day_of cal (ap_taken_s p), ap_taken_s p)) pits)
        (case max_by_key pit_stamp pits of
           Some p \<Rightarrow> bt_add (ap_pit_uuid p) Latest bt_empty | None \<Rightarrow> bt_empty))))"
    by (auto simp: appliance_keep_def bind_eq_Some_conv dated_pits pit_stamp_def [abs_def])
  show ?thesis
    unfolding keep reasons_pinned reasons_branches reasons_tiers reasons_today_pits reasons_latest
      cross_parent_iff [OF assms(1)] winners_pits [where day = "day_of cal"]
  proof (rule iffI, goal_cases)
    case 1
    then show ?case by (auto intro: kept_for.intros simp: in_tier_back)
  next
    case 2
    then show ?case by cases (auto simp: in_tier_back)
  qed
qed

subsection \<open>The kept PITs\<close>

lemma keep_wf_cross: "bt_inhabited m \<Longrightarrow> bt_inhabited (add_cross by_id p m)"
  by (simp add: add_cross_def bt_inhabited_add split: option.split)

lemma keep_wf_phases:
  assumes "bt_inhabited m"
  shows "bt_inhabited (add_today today ds m)" "bt_inhabited (add_tiers today ds tiers m)"
    "bt_inhabited (add_branches pits m)" "bt_inhabited (add_pinned pinned m)"
  unfolding add_today_def add_tiers_def add_branches_def add_pinned_def branch_fold_split
  by (auto intro!: bt_inhabited_fold bt_inhabited_add keep_wf_cross assms split: prod.splits)

lemma keep_wf_keep: "appliance_keep pits policy clock pinned = Some keep \<Longrightarrow> bt_inhabited keep"
  by (auto simp: appliance_keep_def bind_eq_Some_conv keep_wf_phases bt_inhabited_add bt_inhabited_empty
      split: option.splits)

lemma start_or_first_Some:
  assumes "\<forall>t\<in>set taken. calendar_day cal t \<noteq> None"
  shows "start_or_first cal st taken today \<noteq> None"
  using assms list_min_Some [of taken] by (auto simp: start_or_first_def first_day_def split: option.splits)

text \<open>
  The appliance's keep set is computed, without a panic, exactly when the calendar knows the
  day of the current time and of every PIT; then every kept PIT has a reason and the map is in
  key order.
\<close>

lemma appliance_keep_total:
  "(appliance_keep pits policy clock pinned \<noteq> None
      \<longleftrightarrow> (calendar_day (clock_calendar clock) (clock_now_s clock) \<noteq> None
          \<and> list_all (\<lambda>p. calendar_day (clock_calendar clock) (ap_taken_s p) \<noteq> None) pits))
   \<and> (case appliance_keep pits policy clock pinned of None \<Rightarrow> True | Some keep \<Rightarrow> bt_inhabited keep)"
proof
  let ?day = "calendar_day (clock_calendar clock)"
  have "start_or_first (clock_calendar clock) (clock_start_day clock) (map ap_taken_s pits) today \<noteq> None"
    if "list_all (\<lambda>p. ?day (ap_taken_s p) \<noteq> None) pits" for today
    using that by (intro start_or_first_Some) (auto simp: list_all_iff)
  then show "appliance_keep pits policy clock pinned \<noteq> None
      \<longleftrightarrow> (?day (clock_now_s clock) \<noteq> None \<and> list_all (\<lambda>p. ?day (ap_taken_s p) \<noteq> None) pits)"
    by (auto simp: appliance_keep_def bind_eq_Some_conv dated_pits list_all_iff)
qed (simp add: keep_wf_keep split: option.split)

text \<open>
  C2: the appliance keeps a PIT for a reason exactly when the specification gives that reason:
  the newest of all, of today, the newest of a period within its tier, the newest of its branch,
  the root of a branch or the ancestor two branches share, or pinned by the caller.
\<close>

theorem appliance_keep_spec:
  assumes "distinct (map ap_pit_uuid pits)"
    and "calendar_day cal now = Some today"
    and "start_or_first cal st (map ap_taken_s pits) today = Some start"
    and "appliance_keep pits policy \<lparr> clock_calendar = cal, clock_start_day = st, clock_now_s = now \<rparr> pinned
      = Some keep"
  shows "(w \<in> bt_elems keep j \<longleftrightarrow> kept_for pits policy (day_of cal) start today pinned j w)
    \<and> (j \<in> set (bt_keys keep) \<longleftrightarrow> (\<exists>w. kept_for pits policy (day_of cal) start today pinned j w))"
  using appliance_keep_reasons [OF assms] bt_inhabited_keys [OF keep_wf_keep [OF assms(4)]] by simp

definition sample_pits :: "appliance_pit list" where
  "sample_pits =
    [\<lparr> ap_pit_uuid = 1, ap_taken_s = 0, ap_branch = ''a'', ap_parent = None \<rparr>,
     \<lparr> ap_pit_uuid = 2, ap_taken_s = 100, ap_branch = ''b'', ap_parent = Some 1 \<rparr>]"

definition sample_calendar :: calendar where
  "sample_calendar = calendar_new (\<lambda>_. None) (Some 10)"

abbreviation sample_keep :: "appliance_retention \<Rightarrow> keep_map option" where
  "sample_keep policy \<equiv> appliance_keep sample_pits policy
     \<lparr> clock_calendar = sample_calendar, clock_start_day = None, clock_now_s = 105 \<rparr> []"

lemmas sample_defs = sample_pits_def sample_calendar_def calendar_new_def calendar_day_def
  start_or_first_def first_day_def list_min_def min_by_def

lemma sample_facts:
  "distinct (map ap_pit_uuid sample_pits)" "calendar_day sample_calendar 105 = Some 10"
  "start_or_first sample_calendar None (map ap_taken_s sample_pits) 10 = Some 0"
  by (simp_all add: sample_defs)

lemma sample_keep_Some: "\<exists>keep. sample_keep policy = Some keep"
  by (simp add: appliance_keep_def sample_facts) (simp add: sample_defs dated_pit_def)

theorem appliance_keep_spec_witness:
  "\<exists>keep. sample_keep ar_default = Some keep
     \<and> (BranchHead \<in> bt_elems keep 2
        \<longleftrightarrow> kept_for sample_pits ar_default (day_of sample_calendar) 0 10 [] 2 BranchHead)"
  using sample_keep_Some [of ar_default] appliance_keep_spec [OF sample_facts, of ar_default "[]"]
  by blast

subsection \<open>Weakening\<close>

definition days_in_range :: "(int \<Rightarrow> int) \<Rightarrow> appliance_pit list \<Rightarrow> int \<Rightarrow> int \<Rightarrow> bool" where
  \<comment> \<open>no difference of two days leaves \<open>i64\<close>\<close>
  "days_in_range day pits start today =
     list_all (\<lambda>d. - (2 ^ 62) \<le> d \<and> d < 2 ^ 62) (start # today # map (\<lambda>p. day (ap_taken_s p)) pits)"

lemma period_of_mono: "0 < days p \<Longrightarrow> d \<le> e \<Longrightarrow> period_of p d \<le> period_of p e"
  by (simp add: period_of_def zdiv_mono1)

lemma period_of_ge_min:
  assumes "0 < days p" and "- (2 ^ 62) \<le> d" and "start_day p < 2 ^ 62"
  shows "i64_min \<le> period_of p d"
proof -
  have "- (2 ^ 63) \<le> - (2 ^ 63) div days p"
    using zdiv_mono2_neg [of "- (2 ^ 63)" 1 "days p"] assms(1) by simp
  also have "\<dots> \<le> (d - start_day p) div days p"
    using assms by (intro zdiv_mono1) simp_all
  finally show ?thesis by (simp add: i64_min_def period_of_def)
qed

lemma newest_in_subset: "newest_in B p \<Longrightarrow> A \<subseteq> B \<Longrightarrow> p \<in> A \<Longrightarrow> newest_in A p"
  by (auto simp: newest_in_def)

lemma in_tier_more: "in_tier today p (Some m) d \<Longrightarrow> m \<le> n \<Longrightarrow> in_tier today p (Some n) d"
  by (auto simp: in_tier_def word_le_def)

lemma in_tier_None:
  assumes "0 < days p" and "- (2 ^ 62) \<le> d" and "start_day p < 2 ^ 62"
    and "period_of p d \<le> period_of p today"
  shows "in_tier today p None d"
  using period_of_ge_min [OF assms(1-3)] assms(4) by (simp add: in_tier_def)

definition month_period :: "appliance_retention \<Rightarrow> int \<Rightarrow> period" where
  "month_period policy start = \<lparr> start_day = start, days = int (unat (max (month_days policy) 1)) \<rparr>"

definition year_period :: "appliance_retention \<Rightarrow> int \<Rightarrow> period" where
  "year_period policy start =
     \<lparr> start_day = start, days = int (unat (max (month_days policy) 1)) * YEAR_MONTHS \<rparr>"

lemma mem_keep_tiers:
  "(p, c, w) \<in> set (keep_tiers policy start)
   \<longleftrightarrow> p = \<lparr> start_day = start, days = 1 \<rparr> \<and> c = Some (daily policy) \<and> w = Daily
     \<or> p = \<lparr> start_day = start, days = WEEK_DAYS \<rparr> \<and> c = Some (weekly policy) \<and> w = Weekly
     \<or> p = month_period policy start \<and> w = Monthly
       \<and> c = (if yearly policy then Some (monthly policy) else None)
     \<or> p = year_period policy start \<and> c = None \<and> w = Yearly \<and> yearly policy"
  by (auto simp: keep_tiers_def month_period_def year_period_def Let_def)

lemma month_days_pos: "0 < days (month_period policy start)"
proof -
  have "unat (1::u32) \<le> unat (max (month_days policy) 1)"
    unfolding word_le_nat_alt [symmetric] by simp
  then have "0 < unat (max (month_days policy) 1)" by simp
  then show ?thesis by (simp only: month_period_def period.simps of_nat_0_less_iff)
qed

lemma year_of_month:
  "period_of (year_period policy start) d = period_of (month_period policy start) d div YEAR_MONTHS"
  by (simp add: period_of_def year_period_def month_period_def YEAR_MONTHS_def zdiv_zmult2_eq)

lemma year_winner_kept:
  \<comment> \<open>the newest PIT of a year is the newest of its month, since years are whole months\<close>
  assumes range: "days_in_range day pits start today"
    and "newest_in {q \<in> set pits. period_of (year_period policy start) (day (ap_taken_s q))
             = period_of (year_period policy start) (day (ap_taken_s p))} p"
    and "\<not> yearly policy"
  shows "\<exists>w. kept_for pits policy day start today pinned (ap_pit_uuid p) w"
proof (cases "today \<le> day (ap_taken_s p)")
  case True
  then show ?thesis using assms(2) by (auto simp: newest_in_def intro: kept_for.today)
next
  case False
  let ?m = "month_period policy start"
  have p: "p \<in> set pits" using assms(2) by (simp add: newest_in_def)
  have "period_of ?m (day (ap_taken_s p)) \<le> period_of ?m today"
    using False month_days_pos by (intro period_of_mono) auto
  then have "in_tier today ?m None (day (ap_taken_s p))"
    using range p by (intro in_tier_None month_days_pos)
      (auto simp: days_in_range_def list_all_iff month_period_def)
  moreover have "newest_in {q \<in> set pits. period_of ?m (day (ap_taken_s q))
             = period_of ?m (day (ap_taken_s p))} p"
    using assms(2) p by (rule_tac newest_in_subset) (auto simp: year_of_month)
  moreover have "(?m, None, Monthly) \<in> set (keep_tiers policy start)"
    using assms(3) by (simp add: mem_keep_tiers)
  ultimately show ?thesis by (blast intro: kept_for.tier)
qed

lemma not_weakens_kept:
  assumes range: "days_in_range day pits start today"
    and "\<not> weakens new before"
    and "kept_for pits before day start today pinned j w"
  shows "\<exists>w. kept_for pits new day start today pinned j w"
  using assms(3)
proof cases
  case (tier period count p)
  have eq: "month_period before start = month_period new start"
    "year_period before start = year_period new start"
    using assms(2) by (simp_all add: weakens_def month_period_def year_period_def)
  have more: "in_tier today period count' (day (ap_taken_s p)) \<Longrightarrow>
      (period, count', why) \<in> set (keep_tiers new start) \<Longrightarrow> ?thesis" for count' why
    using tier by (blast intro: kept_for.tier)
  have p: "p \<in> set pits" using tier by (simp add: newest_in_def)
  consider "period = \<lparr> start_day = start, days = 1 \<rparr>" "count = Some (daily before)"
    | "period = \<lparr> start_day = start, days = WEEK_DAYS \<rparr>" "count = Some (weekly before)"
    | "period = month_period new start" "count = (if yearly before then Some (monthly before) else None)"
    | "period = year_period new start" "count = None" "yearly before"
    using tier(2) eq by (auto simp: mem_keep_tiers)
  then show ?thesis
  proof cases
    case 1
    then show ?thesis using tier(3) assms(2) by (intro more [of "Some (daily new)" Daily])
        (auto simp: mem_keep_tiers weakens_def intro: in_tier_more)
  next
    case 2
    then show ?thesis using tier(3) assms(2) by (intro more [of "Some (weekly new)" Weekly])
        (auto simp: mem_keep_tiers weakens_def intro: in_tier_more)
  next
    case 3
    have "in_tier today period None (day (ap_taken_s p))"
      using range p tier(3) month_days_pos [of new start] unfolding 3
      by (intro in_tier_None) (auto simp: days_in_range_def list_all_iff month_period_def in_tier_def)
    with 3 show ?thesis using tier(3) assms(2)
      by (intro more [of "if yearly new then Some (monthly new) else None" Monthly])
        (auto simp: mem_keep_tiers weakens_def not_less intro: in_tier_more)
  next
    case 4
    show ?thesis
    proof (cases "yearly new")
      case True
      with 4 tier(3) show ?thesis by (intro more [of None Yearly]) (auto simp: mem_keep_tiers)
    next
      case False
      with 4 tier(1,4) show ?thesis using year_winner_kept [OF range] by blast
    qed
  qed
qed (blast intro: kept_for.intros)+

text \<open>
  C1: a change of policy that \<^verbatim>\<open>weakens\<close> does not report keeps every PIT the old policy kept,
  so nothing is pruned earlier by a change that takes effect at once. (Days must be small enough
  that their differences fit \<^verbatim>\<open>i64\<close>.)
\<close>

theorem not_weakens_keeps_all:
  assumes "distinct (map ap_pit_uuid pits)"
    and "\<not> weakens new before"
    and "calendar_day cal now = Some today"
    and "start_or_first cal st (map ap_taken_s pits) today = Some start"
    and "days_in_range (day_of cal) pits start today"
    and "appliance_keep pits before \<lparr> clock_calendar = cal, clock_start_day = st, clock_now_s = now \<rparr> pinned
      = Some keep"
    and "appliance_keep pits new \<lparr> clock_calendar = cal, clock_start_day = st, clock_now_s = now \<rparr> pinned
      = Some keep'"
  shows "set (bt_keys keep) \<subseteq> set (bt_keys keep')"
  unfolding subset_iff bt_inhabited_keys [OF keep_wf_keep [OF assms(6)]]
    bt_inhabited_keys [OF keep_wf_keep [OF assms(7)]]
    appliance_keep_reasons [OF assms(1,3,4,6)] appliance_keep_reasons [OF assms(1,3,4,7)]
  using not_weakens_kept [OF assms(5,2)] by blast

theorem not_weakens_keeps_all_witness:
  "\<exists>keep keep'. sample_keep ar_default = Some keep
     \<and> sample_keep (ar_default\<lparr> yearly := False \<rparr>) = Some keep'
     \<and> set (bt_keys keep) \<subseteq> set (bt_keys keep')"
proof -
  have "\<not> weakens (ar_default\<lparr> yearly := False \<rparr>) ar_default"
    by (simp add: weakens_def ar_default_def)
  moreover have "days_in_range (day_of sample_calendar) sample_pits 0 10"
    by (simp add: days_in_range_def sample_defs)
  ultimately show ?thesis
    using sample_keep_Some not_weakens_keeps_all [OF sample_facts(1) _ sample_facts(2,3)] by meson
qed

subsection \<open>Local retention\<close>

lemma length_winners: "length (winners ds f periods) \<le> card {fst periods..snd periods}"
proof -
  let ?m = "fold (\<lambda>x. keep_newest (f (fst (snd x))) (snd (snd x), fst x))
       (filter (in_periods f periods) ds) bt_empty"
  have "length (winners ds f periods) = length (map fst ?m)"
    by (simp add: winners_group bt_values_def)
  also have "\<dots> = card (set (map fst ?m))"
    by (rule distinct_card [symmetric, OF bt_ok_distinct [OF ok_newest_group]])
  also have "set (map fst ?m) \<subseteq> {fst periods..snd periods}"
    unfolding bt_keys_def [symmetric]
    by (auto simp: bt_keys_iff bt_contains_key_def get_newest_group filter_empty_conv in_periods_def)
  then have "card (set (map fst ?m)) \<le> card {fst periods..snd periods}"
    by (intro card_mono) auto
  finally show ?thesis .
qed

lemma card_last_periods:
  "card {fst (last_periods current count)..snd (last_periods current count)} = unat count"
proof (cases "count = 0")
  case True
  then show ?thesis by (simp add: last_periods_def checked_sub_def)
next
  case False
  then have "1 \<le> count" by (simp add: word_le_nat_alt Suc_le_eq unat_gt_0)
  moreover from this have "unat (count - 1) = unat count - 1" "0 < unat count"
    by (simp_all add: unat_sub word_le_nat_alt)
  ultimately show ?thesis by (simp add: last_periods_def checked_sub_def back_periods_def)
qed

text \<open>
  Local retention keeps only PITs it was given, and at most as many as the policy names: the
  newest N, one for each of D days and one for each of W weeks. It can
  only panic when the calendar does not know the day of the current time or of a PIT.
\<close>

lemma local_keep_bounded:
  "case lr_keep r pits cal st now of
     None \<Rightarrow> \<not> list_all (\<lambda>t. calendar_day cal t \<noteq> None) (now # map lp_taken_s pits)
   | Some keep \<Rightarrow> keep \<subseteq> lp_pit_uuid ` set pits
       \<and> card keep \<le> unat (lr_newest r) + unat (lr_days r) + unat (lr_weeks r)"
proof (cases "lr_keep r pits cal st now")
  case None
  have "lr_keep r pits cal st now \<noteq> None"
    if ok: "list_all (\<lambda>t. calendar_day cal t \<noteq> None) (now # map lp_taken_s pits)"
  proof -
    from ok obtain today where "calendar_day cal now = Some today" by auto
    moreover from ok obtain all where
      "those (map (dated_local cal) (filter (\<lambda>p. lp_taken_s p \<le> now) pits)) = Some all"
      by (auto simp: list_all_iff dated_local_def those_map_Some_iff)
    moreover from ok obtain start where
      "start_or_first cal st (map lp_taken_s pits) today = Some start"
      using start_or_first_Some [of "map lp_taken_s pits" cal st today] by (auto simp: list_all_iff)
    ultimately show ?thesis by (simp add: lr_keep_def Let_def)
  qed
  with None show ?thesis by auto
next
  case (Some keep)
  then obtain today start where keep:
    "keep = set (map lp_pit_uuid (take (unat (lr_newest r)) (newest_first (filter lp_backed_up pits))))
      \<union> set (winners (map (\<lambda>p. the (dated_local cal p)) (filter (\<lambda>p. lp_taken_s p \<le> now) pits))
          (\<lambda>d. d) (last_periods today (lr_days r)))
      \<union> set (winners (map (\<lambda>p. the (dated_local cal p)) (filter (\<lambda>p. lp_taken_s p \<le> now) pits))
          (period_of \<lparr> start_day = start, days = WEEK_DAYS \<rparr>)
          (last_periods (period_of \<lparr> start_day = start, days = WEEK_DAYS \<rparr> today) (lr_weeks r)))"
    (is "_ = ?n \<union> ?d \<union> ?w")
    and dated: "\<forall>p\<in>set pits. lp_taken_s p \<le> now \<longrightarrow> dated_local cal p \<noteq> None"
    by (auto simp: lr_keep_def bind_eq_Some_conv those_map_Some_iff Let_def)
  have "?n \<subseteq> lp_pit_uuid ` set pits"
    by (auto simp: newest_first_def dest!: in_set_takeD)
  moreover have "set (winners (map (\<lambda>p. the (dated_local cal p)) (filter (\<lambda>p. lp_taken_s p \<le> now) pits)) f periods)
      \<subseteq> lp_pit_uuid ` set pits" for f periods
    using dated by (force simp: winners_iff dated_local_def)
  ultimately have "keep \<subseteq> lp_pit_uuid ` set pits" unfolding keep by blast
  moreover have "card ?d \<le> unat (lr_days r)" "card ?w \<le> unat (lr_weeks r)"
    by (rule order_trans [OF card_length order_trans [OF length_winners]],
        simp only: card_last_periods order.refl)+
  moreover have "card ?n \<le> unat (lr_newest r)"
    by (rule order_trans [OF card_length]) simp
  ultimately show ?thesis
    using Some card_Un_le [of "?n \<union> ?d" ?w] card_Un_le [of ?n ?d] unfolding keep by simp
qed

lemma start_or_first_snoc:
  assumes "\<forall>t\<in>set taken. t \<le> slot" and "calendar_day cal slot = Some d"
  shows "start_or_first cal st (taken @ [slot]) d = start_or_first cal st taken d"
proof (cases "list_min taken")
  case None
  then have "list_min (taken @ [slot]) = Some slot" by (auto simp: list_min_Some)
  with None assms(2) show ?thesis
    by (simp add: start_or_first_def first_day_def list_min_def min_by_def split: option.split)
next
  case (Some m)
  then have "list_min (taken @ [slot]) = Some m" using assms(1) by (auto simp: list_min_Some)
  with Some show ?thesis by (cases st) (simp_all add: start_or_first_def first_day_def)
qed

lemma last_periods_current:
  "0 < count \<Longrightarrow> fst (last_periods current count) \<le> current \<and> current \<le> snd (last_periods current count)"
  by (auto simp: last_periods_def checked_sub_def back_periods_def word_le_nat_alt word_less_nat_alt)

lemma only_in_period_wins:
  assumes "(i, d, t) \<in> set ds" and "\<forall>(j, e, u)\<in>set ds. f e = f d \<longrightarrow> j = i \<and> u = t" and "0 < count"
  shows "i \<in> set (winners ds f (last_periods (f d) count))"
  unfolding winners_iff using assms last_periods_current by fastforce

text \<open>
  When a slot is claimed, the PIT captured at it is kept by local retention: whenever
  \<^verbatim>\<open>claims_slot\<close> is true for the PITs before the slot, the keep set computed at the slot,
  with the new PIT, contains it.
\<close>

lemma claimed_slot_is_kept:
  assumes "lr_claims_slot r pits cal st slot = Some True"
    and "\<forall>p\<in>set pits. lp_taken_s p \<le> slot"
    and "lp_taken_s new = slot"
  shows "\<exists>keep. lr_keep r (pits @ [new]) cal st slot = Some keep \<and> lp_pit_uuid new \<in> keep"
proof -
  from assms(1) obtain today start where today: "calendar_day cal slot = Some today"
    and start: "start_or_first cal st (map lp_taken_s pits) today = Some start"
    and known: "\<forall>p\<in>set pits. calendar_day cal (lp_taken_s p) \<noteq> None"
    and claim: "0 < lr_days r \<and> (\<forall>p\<in>set pits. day_of cal (lp_taken_s p) \<noteq> today)
      \<or> 0 < lr_weeks r \<and> (\<forall>p\<in>set pits. period_of \<lparr> start_day = start, days = WEEK_DAYS \<rparr> (day_of cal (lp_taken_s p))
           \<noteq> period_of \<lparr> start_day = start, days = WEEK_DAYS \<rparr> today)"
    by (auto simp: lr_claims_slot_def bind_eq_Some_conv those_map_Some_iff Let_def list_ex_iff)
  let ?week = "period_of \<lparr> start_day = start, days = WEEK_DAYS \<rparr>"
  define ds where "ds = map (\<lambda>p. the (dated_local cal p)) (pits @ [new])"
  have all: "those (map (dated_local cal) (filter (\<lambda>p. lp_taken_s p \<le> slot) (pits @ [new]))) = Some ds"
  proof -
    have "filter (\<lambda>p. lp_taken_s p \<le> slot) (pits @ [new]) = pits @ [new]" using assms(2,3) by simp
    moreover have "\<forall>p\<in>set (pits @ [new]). dated_local cal p \<noteq> None"
      using known today assms(3) by (auto simp: dated_local_def)
    ultimately show ?thesis by (simp only: those_map_Some_iff ds_def)
  qed
  have start': "start_or_first cal st (map lp_taken_s (pits @ [new])) today = Some start"
    using start_or_first_snoc [of "map lp_taken_s pits" slot cal today st] assms(2,3) today start by simp
  have mem: "x \<in> set ds \<longleftrightarrow> x = (lp_pit_uuid new, today, slot)
      \<or> (\<exists>p\<in>set pits. x = (lp_pit_uuid p, day_of cal (lp_taken_s p), lp_taken_s p))" for x
    using known today assms(3) by (auto simp: ds_def dated_local_def option.map_sel)
  have "lp_pit_uuid new \<in> set (winners ds (\<lambda>d. d) (last_periods today (lr_days r)))
      \<union> set (winners ds ?week (last_periods (?week today) (lr_weeks r)))"
    using claim
  proof
    assume "0 < lr_days r \<and> (\<forall>p\<in>set pits. day_of cal (lp_taken_s p) \<noteq> today)"
    then have "lp_pit_uuid new \<in> set (winners ds (\<lambda>d. d) (last_periods today (lr_days r)))"
      by (intro only_in_period_wins [where t = slot]) (auto simp: mem)
    then show ?thesis ..
  next
    assume "0 < lr_weeks r \<and> (\<forall>p\<in>set pits. ?week (day_of cal (lp_taken_s p)) \<noteq> ?week today)"
    then have "lp_pit_uuid new \<in> set (winners ds ?week (last_periods (?week today) (lr_weeks r)))"
      by (intro only_in_period_wins [where t = slot]) (auto simp: mem)
    then show ?thesis ..
  qed
  with all start' today show ?thesis by (simp add: lr_keep_def Let_def)
qed

lemma claimed_slot_is_kept_witness:
  "\<exists>keep. lr_keep \<lparr> lr_newest = 0, lr_days = 1, lr_weeks = 0 \<rparr>
      ([\<lparr> lp_pit_uuid = 1, lp_taken_s = 5, lp_backed_up = True \<rparr>] @ [\<lparr> lp_pit_uuid = 2, lp_taken_s = 12, lp_backed_up = False \<rparr>])
      sample_calendar None 12 = Some keep
    \<and> lp_pit_uuid \<lparr> lp_pit_uuid = 2, lp_taken_s = 12, lp_backed_up = False \<rparr> \<in> keep"
  by (rule claimed_slot_is_kept)
    (simp_all add: lr_claims_slot_def sample_defs)

end
