(* ===== verification/Backup_Appliance.thy ===== *)
theory Backup_Appliance
  imports Backup_Retention Rust_Text
begin

section \<open>Backup settings and appliance states\<close>

text \<open>
  The models of src/v3/crates/bmac-backup/src/settings.rs and states.rs: the cluster-wide backup
  settings with their validation, and the state of an appliance, which is worked out from what
  the cluster recorded and never stored. Times are \<^verbatim>\<open>i64\<close> seconds, here integers.
\<close>

subsection \<open>Settings\<close>

record backup_settings =
  checkin_interval_s :: int
  late_after_s :: int
  ready_window_s :: int
  claim_window_s :: int
  stalled_after_s :: int
  delinquency_s :: int
  streams_per_appliance :: u32
  min_healthy_appliances :: u32
  settings_test_day_s :: "int option"

definition settings_calendar :: "backup_settings \<Rightarrow> (int \<Rightarrow> int option) \<Rightarrow> calendar" where
  "settings_calendar s zone = calendar_new zone (settings_test_day_s s)"

definition settings_default :: backup_settings where
  "settings_default =
     \<lparr> checkin_interval_s = 60, late_after_s = 3 * 60, ready_window_s = 5 * 60,
       claim_window_s = 5 * 60, stalled_after_s = 10 * 60, delinquency_s = 72 * 3600,
       streams_per_appliance = 1, min_healthy_appliances = 1, settings_test_day_s = None \<rparr>"

definition settings_validate :: "backup_settings \<Rightarrow> (string, unit) result" where
  "settings_validate s =
     (let positive =
        [(''checkin_interval_s'', checkin_interval_s s),
         (''late_after_s'', late_after_s s),
         (''ready_window_s'', ready_window_s s),
         (''claim_window_s'', claim_window_s s),
         (''stalled_after_s'', stalled_after_s s),
         (''delinquency_s'', delinquency_s s)] in
      and_then (try_for_each (\<lambda>(name, value).
          if value \<le> 0 then Err (name @ '' must be positive'') else Ok ()) positive) (\<lambda>_.
      if late_after_s s \<le> checkin_interval_s s
      then Err ''an appliance must be allowed more than one check-in interval before it is late''
      else if delinquency_s s \<le> late_after_s s
      then Err ''the delinquency period must be longer than the late threshold''
      else if is_some_and (\<lambda>d. d \<le> 0) (settings_test_day_s s)
      then Err ''test_day_s must be positive''
      else if streams_per_appliance s = 0
      then Err ''an appliance needs at least one stream''
      else Ok ()))"

subsection \<open>States\<close>

datatype appliance_state =
    Pending | Seeding | Active | Late | Delinquent | Repairing | ReseedRequired | Paused | Retired

datatype progress = ProgressNormal | ProgressRepairing | ProgressReseedRequired

record appliance_facts =
  last_checkin_s :: "int option"
  last_published_s :: "int option"
  oldest_unpublished_offer_s :: "int option"
  facts_progress :: progress
  locked :: bool
  paused :: bool
  retired :: bool

definition state_of :: "appliance_facts \<Rightarrow> int \<Rightarrow> backup_settings \<Rightarrow> appliance_state" where
  "state_of facts now_s settings =
     (if retired facts then Retired
      else if paused facts then Paused
      else case last_checkin_s facts of
        None \<Rightarrow> Pending
      | Some last_s \<Rightarrow>
          (let silent = now_s - last_s;
              behind = is_some_and (\<lambda>offered. delinquency_s settings < now_s - offered)
                         (oldest_unpublished_offer_s facts)
          in if delinquency_s settings < silent \<or> behind then Delinquent
             else if late_after_s settings < silent then Late
             else (case facts_progress facts of
               ProgressRepairing \<Rightarrow> Repairing
             | ProgressReseedRequired \<Rightarrow> ReseedRequired
             | ProgressNormal \<Rightarrow> if last_published_s facts = None then Seeding else Active)))"

definition available :: "appliance_facts \<Rightarrow> int \<Rightarrow> backup_settings \<Rightarrow> bool" where
  "available facts now_s settings =
     (\<not> locked facts \<and> \<not> paused facts \<and> \<not> retired facts
      \<and> is_some_and (\<lambda>last. now_s - last \<le> ready_window_s settings) (last_checkin_s facts))"

definition healthy :: "appliance_facts \<Rightarrow> int \<Rightarrow> backup_settings \<Rightarrow> bool" where
  "healthy facts now_s settings = (\<not> locked facts \<and> state_of facts now_s settings = Active)"

subsection \<open>Correctness\<close>

text \<open>
  The settings validate exactly when every interval is positive, an appliance may miss a
  check-in before it is late and is late before it is delinquent, the test day (if any) is
  positive and there is a stream; the default settings validate.
\<close>

lemma settings_validate_iff:
  "(settings_validate s = Ok ()
    \<longleftrightarrow> 0 < checkin_interval_s s \<and> checkin_interval_s s < late_after_s s
      \<and> late_after_s s < delinquency_s s \<and> 0 < ready_window_s s \<and> 0 < claim_window_s s
      \<and> 0 < stalled_after_s s \<and> settings_test_day_s s \<notin> Some ` {..0}
      \<and> streams_per_appliance s \<noteq> 0)
   \<and> settings_validate settings_default = Ok ()"
proof
  show "settings_validate s = Ok ()
    \<longleftrightarrow> 0 < checkin_interval_s s \<and> checkin_interval_s s < late_after_s s
      \<and> late_after_s s < delinquency_s s \<and> 0 < ready_window_s s \<and> 0 < claim_window_s s
      \<and> 0 < stalled_after_s s \<and> settings_test_day_s s \<notin> Some ` {..0}
      \<and> streams_per_appliance s \<noteq> 0"
    by (cases "settings_test_day_s s")
      (auto simp: settings_validate_def and_then_Ok_iff split: if_splits)
  show "settings_validate settings_default = Ok ()"
    by (simp add: settings_validate_def settings_default_def)
qed

fun state_rank :: "appliance_state \<Rightarrow> nat" where
  \<comment> \<open>how far silence has taken an appliance\<close>
  "state_rank Late = 1"
| "state_rank Delinquent = 2"
| "state_rank _ = 0"

text \<open>
  With the same recorded facts, time alone only moves an appliance from its reported state to
  late and from late to delinquent, never back, and a delinquent
  appliance stays delinquent until a new fact is recorded.
\<close>

lemma state_only_degrades:
  assumes "now \<le> later"
  shows "state_rank (state_of f now s) \<le> state_rank (state_of f later s)
    \<and> (state_of f later s \<noteq> state_of f now s
        \<longrightarrow> state_of f later s \<in> {Late, Delinquent})
    \<and> (state_of f now s = Delinquent \<longrightarrow> state_of f later s = Delinquent)"
  using assms by (auto simp: state_of_def Let_def is_some_and_def
      split: option.splits progress.splits)

lemma state_only_degrades_witness:
  "state_of \<lparr> last_checkin_s = Some 0, last_published_s = Some 0,
       oldest_unpublished_offer_s = None, facts_progress = ProgressNormal,
       locked = False, paused = False, retired = False \<rparr> 300000 settings_default = Delinquent"
proof -
  let ?f = "\<lparr> last_checkin_s = Some 0, last_published_s = Some 0,
       oldest_unpublished_offer_s = None, facts_progress = ProgressNormal,
       locked = False, paused = False, retired = False \<rparr>"
  have "state_of ?f 270000 settings_default = Delinquent"
    by (simp add: state_of_def settings_default_def)
  then show ?thesis using state_only_degrades [of 270000 300000 ?f settings_default] by simp
qed

text \<open>
  An appliance counts as healthy exactly when it is unlocked, in service, has published, is
  not repairing or reseeding, was heard from within the late threshold and has no offer overdue;
  under settings that validate, an offer is overdue only after the delinquency period.
\<close>

lemma healthy_iff:
  assumes "settings_validate s = Ok ()"
  shows "healthy f now s
    \<longleftrightarrow> \<not> locked f \<and> \<not> retired f \<and> \<not> paused f \<and> last_published_s f \<noteq> None
      \<and> facts_progress f = ProgressNormal
      \<and> is_some_and (\<lambda>last. now - last \<le> late_after_s s) (last_checkin_s f)
      \<and> \<not> is_some_and (\<lambda>offered. delinquency_s s < now - offered) (oldest_unpublished_offer_s f)"
proof -
  have "late_after_s s < delinquency_s s"
    using assms by (auto simp: settings_validate_def and_then_Ok_iff split: if_splits)
  then show ?thesis
    by (auto simp: healthy_def state_of_def Let_def is_some_and_def
        split: option.splits progress.splits)
qed

lemma healthy_iff_witness:
  "healthy \<lparr> last_checkin_s = Some 0, last_published_s = Some 0,
       oldest_unpublished_offer_s = None, facts_progress = ProgressNormal,
       locked = False, paused = False, retired = False \<rparr> 180 settings_default"
  by (subst healthy_iff) (simp_all add: settings_validate_def settings_default_def)

end
