(* ===== verification/Backup_Lifetime.thy ===== *)
theory Backup_Lifetime
  imports Backup_Appliance
begin

section \<open>Snapshots and bookmarks on the cluster\<close>

text \<open>
  The model of src/v3/crates/bmac-backup/src/lifetime.rs: which PITs keep their snapshots and
  which their bookmarks. The daemon destroys what the plan does not name, so the properties say
  what the plan always names, and that it names nothing else.
\<close>

datatype offer =
    Open (offered_s: int)
  | Claimed (progress_s: int) (claimed_bytes: u64)
  | Published
  | Failed

fun holds :: "offer \<Rightarrow> int \<Rightarrow> backup_settings \<Rightarrow> bool" where
  "holds (Open offered) now_s settings = (now_s - offered \<le> claim_window_s settings)"
| "holds (Claimed progress _) now_s settings = (now_s - progress \<le> stalled_after_s settings)"
| "holds Published _ _ = False"
| "holds Failed _ _ = False"

record cluster_pit =
  cp_pit_uuid :: uuid
  cp_taken_s :: int
  cp_branch :: string
  cp_offers :: "(string, offer) btree"

record head =
  head_appliance :: string
  head_pit_uuid :: uuid
  head_delinquent :: bool

datatype snapshot_need =
  NeedOffer | NeedLocalRetention | NeedStagingClone | NeedRestore | NeedApplianceHead | NeedBranchStart

datatype bookmark_need = MarkApplianceHead | MarkNewest | MarkBranchStart

record inputs =
  pits :: "cluster_pit list"
  heads :: "head list"
  local_retention_ids :: "uuid set"
  staging_origins :: "uuid set"
  restores :: "uuid set"
  branch_starts :: "uuid set"
  bookmarks_proven :: bool

record plan =
  snapshots :: "(uuid, snapshot_need set) btree"
  bookmarks :: "(uuid, bookmark_need set) btree"

definition releases_snapshot :: "plan \<Rightarrow> uuid \<Rightarrow> bool" where
  "releases_snapshot p pit = (\<not> bt_contains_key (snapshots p) pit)"


definition known_pits :: "inputs \<Rightarrow> uuid set" where
  "known_pits i = set (map cp_pit_uuid (pits i))"

definition live_heads :: "inputs \<Rightarrow> uuid set" where
  "live_heads i = set (map head_pit_uuid
     (filter (\<lambda>h. \<not> head_delinquent h \<and> head_pit_uuid h \<in> known_pits i) (heads i)))"

definition for_set :: "uuid set \<Rightarrow> 'n \<Rightarrow> (uuid, 'n set) btree \<Rightarrow> (uuid, 'n set) btree" where
  \<comment> \<open>a loop over a \<open>BTreeSet\<close>, in its order\<close>
  "for_set ids need m = fold (\<lambda>pit. bt_add pit need) (sorted_list_of_set ids) m"

definition plan_snapshots ::
    "inputs \<Rightarrow> int \<Rightarrow> backup_settings \<Rightarrow> (uuid, snapshot_need set) btree" where
  "plan_snapshots i now_s settings =
     (let m = fold (\<lambda>pit m.
            if list_ex (\<lambda>offer. holds offer now_s settings) (bt_values (cp_offers pit))
            then bt_add (cp_pit_uuid pit) NeedOffer m else m) (pits i) bt_empty;
          known = known_pits i;
          m = fold (\<lambda>(ids, need). for_set (ids \<inter> known) need)
            [(local_retention_ids i, NeedLocalRetention),
             (staging_origins i, NeedStagingClone),
             (restores i, NeedRestore)] m
      in if bookmarks_proven i then m else for_set (live_heads i) NeedApplianceHead m)"

definition plan_of :: "inputs \<Rightarrow> int \<Rightarrow> backup_settings \<Rightarrow> plan" where
  "plan_of i now_s settings =
     (let snaps = plan_snapshots i now_s settings;
          marks = (if bookmarks_proven i then for_set (live_heads i) MarkApplianceHead bt_empty
                   else bt_empty);
          marks = (case max_by_key (\<lambda>p. (cp_taken_s p, cp_pit_uuid p)) (pits i) of
                     Some newest \<Rightarrow> bt_add (cp_pit_uuid newest) MarkNewest marks
                   | None \<Rightarrow> marks);
          starts = branch_starts i \<inter> known_pits i
      in if bookmarks_proven i
         then \<lparr> snapshots = snaps, bookmarks = for_set starts MarkBranchStart marks \<rparr>
         else \<lparr> snapshots = for_set starts NeedBranchStart snaps, bookmarks = marks \<rparr>)"

subsection \<open>What the plan contains\<close>

lemma finite_known [simp]: "finite (known_pits i)" "finite (live_heads i)"
  by (simp_all add: known_pits_def live_heads_def)

lemma elems_for_set [simp]:
  "finite ids \<Longrightarrow> bt_elems (for_set ids need m) j = bt_elems m j \<union> (if j \<in> ids then {need} else {})"
  unfolding for_set_def bt_elems_fold_add by auto

lemma inhabited_for_set: "bt_inhabited m \<Longrightarrow> bt_inhabited (for_set ids need m)"
  unfolding for_set_def by (intro bt_inhabited_fold bt_inhabited_add)

definition offer_held :: "inputs \<Rightarrow> int \<Rightarrow> backup_settings \<Rightarrow> uuid \<Rightarrow> bool" where
  "offer_held i now_s settings j =
     list_ex (\<lambda>p. cp_pit_uuid p = j
       \<and> list_ex (\<lambda>offer. holds offer now_s settings) (bt_values (cp_offers p))) (pits i)"

lemma offer_held_known: "offer_held i now s j \<Longrightarrow> j \<in> known_pits i"
  by (auto simp: offer_held_def known_pits_def list_ex_iff)

lemma live_heads_known: "live_heads i \<subseteq> known_pits i"
  by (auto simp: live_heads_def)

lemma elems_plan_snapshots:
  "bt_elems (plan_snapshots i now s) j
   = (if offer_held i now s j then {NeedOffer} else {})
     \<union> (if j \<in> local_retention_ids i \<inter> known_pits i then {NeedLocalRetention} else {})
     \<union> (if j \<in> staging_origins i \<inter> known_pits i then {NeedStagingClone} else {})
     \<union> (if j \<in> restores i \<inter> known_pits i then {NeedRestore} else {})
     \<union> (if \<not> bookmarks_proven i \<and> j \<in> live_heads i then {NeedApplianceHead} else {})"
proof -
  have "bt_elems (fold (\<lambda>pit m.
            if list_ex (\<lambda>offer. holds offer now s) (bt_values (cp_offers pit))
            then bt_add (cp_pit_uuid pit) NeedOffer m else m) (pits i) bt_empty) j
        = (if offer_held i now s j then {NeedOffer} else {})"
    unfolding fold_filter bt_elems_fold_add by (auto simp: offer_held_def list_ex_iff)
  then show ?thesis
    by (cases "bookmarks_proven i") (simp_all add: plan_snapshots_def Let_def Un_assoc split del: if_split)
qed

lemma inhabited_plan_snapshots: "bt_inhabited (plan_snapshots i now s)"
  unfolding plan_snapshots_def Let_def
  by (auto intro!: inhabited_for_set bt_inhabited_fold bt_inhabited_add bt_inhabited_empty)

lemma inhabited_plan:
  "bt_inhabited (snapshots (plan_of i now s))" "bt_inhabited (bookmarks (plan_of i now s))"
  unfolding plan_of_def Let_def
  by (auto intro!: inhabited_for_set inhabited_plan_snapshots bt_inhabited_add bt_inhabited_empty
      split: option.split)

definition newest_pit :: "inputs \<Rightarrow> uuid \<Rightarrow> bool" where
  "newest_pit i j =
     list_ex (\<lambda>p. cp_pit_uuid p = j
       \<and> list_all (\<lambda>q. (cp_taken_s q, cp_pit_uuid q) \<le> (cp_taken_s p, cp_pit_uuid p)) (pits i)) (pits i)"

lemma newest_pit_max:
  "newest_pit i j
   \<longleftrightarrow> (\<exists>p. max_by_key (\<lambda>p. (cp_taken_s p, cp_pit_uuid p)) (pits i) = Some p \<and> cp_pit_uuid p = j)"
  using max_by_key_ex [of "\<lambda>p. (cp_taken_s p, cp_pit_uuid p)" "pits i" "\<lambda>k. snd k = j"]
  unfolding newest_pit_def list_ex_iff list_all_iff by simp

lemma elems_plan:
  "bt_elems (snapshots (plan_of i now s)) j
   = bt_elems (plan_snapshots i now s) j
     \<union> (if \<not> bookmarks_proven i \<and> j \<in> branch_starts i \<inter> known_pits i then {NeedBranchStart} else {})"
  "bt_elems (bookmarks (plan_of i now s)) j
   = (if bookmarks_proven i \<and> j \<in> live_heads i then {MarkApplianceHead} else {})
     \<union> (if newest_pit i j then {MarkNewest} else {})
     \<union> (if bookmarks_proven i \<and> j \<in> branch_starts i \<inter> known_pits i then {MarkBranchStart} else {})"
  unfolding newest_pit_max plan_of_def Let_def
  by (cases "bookmarks_proven i"; cases "max_by_key (\<lambda>p. (cp_taken_s p, cp_pit_uuid p)) (pits i)"; auto)+

lemma releases_iff: "releases_snapshot (plan_of i now s) j \<longleftrightarrow> bt_elems (snapshots (plan_of i now s)) j = {}"
  using bt_inhabited_keys [OF inhabited_plan(1)] by (auto simp: releases_snapshot_def bt_keys_iff [symmetric])


subsection \<open>Correctness\<close>

text \<open>
  C10: the plan releases a PIT's snapshot exactly when nothing needs it: no offer of it is still
  within its window, it is not kept by local retention, no staging clone comes from it, no
  restore uses it and, while bookmarks are not proven, no live appliance has it as its head and
  no new branch starts from it. Needs of PITs the cluster does not know are never planned.
\<close>

theorem plan_releases_iff:
  "releases_snapshot (plan_of i now s) j
   \<longleftrightarrow> \<not> offer_held i now s j
     \<and> j \<notin> known_pits i \<inter> (local_retention_ids i \<union> staging_origins i \<union> restores i
           \<union> (if bookmarks_proven i then {} else live_heads i \<union> branch_starts i))"
  using live_heads_known [of i]
  unfolding releases_iff elems_plan elems_plan_snapshots by (auto split: if_splits)


definition sample_inputs :: inputs where
  "sample_inputs =
    \<lparr> pits = [\<lparr> cp_pit_uuid = 1, cp_taken_s = 0, cp_branch = ''a'', cp_offers = [(''b1'', Published)] \<rparr>,
              \<lparr> cp_pit_uuid = 2, cp_taken_s = 900, cp_branch = ''a'', cp_offers = [(''b1'', Open 900)] \<rparr>],
      heads = [\<lparr> head_appliance = ''b1'', head_pit_uuid = 1, head_delinquent = False \<rparr>],
      local_retention_ids = {}, staging_origins = {}, restores = {}, branch_starts = {},
      bookmarks_proven = True \<rparr>"


text \<open>
  The plan only names PITs the cluster knows, each with at least one need and in key order.
\<close>

lemma plan_only_known:
  "set (bt_keys (snapshots (plan_of i now s))) \<union> set (bt_keys (bookmarks (plan_of i now s)))
     \<subseteq> known_pits i
   \<and> bt_inhabited (snapshots (plan_of i now s)) \<and> bt_inhabited (bookmarks (plan_of i now s))"
proof -
  have "newest_pit i j \<Longrightarrow> j \<in> known_pits i" for j
    by (auto simp: newest_pit_def known_pits_def list_ex_iff)
  then show ?thesis
    using live_heads_known [of i] offer_held_known [of i now s]
    by (auto simp: bt_inhabited_keys inhabited_plan elems_plan elems_plan_snapshots split: if_splits)
qed

lemma holds_antimono: "now \<le> later \<Longrightarrow> holds offer later s \<Longrightarrow> holds offer now s"
  by (cases offer) auto

text \<open>
  With nothing new recorded, waiting only releases snapshots: what is released now is
  released at every later time.
\<close>

lemma plan_release_stable:
  assumes "now \<le> later" and "releases_snapshot (plan_of i now s) j"
  shows "releases_snapshot (plan_of i later s) j"
proof -
  have "offer_held i later s j \<Longrightarrow> offer_held i now s j"
    using holds_antimono [OF assms(1)] by (fastforce simp: offer_held_def list_ex_iff)
  then show ?thesis
    using assms(2) unfolding releases_iff elems_plan elems_plan_snapshots by (auto split: if_splits)
qed

lemma plan_release_stable_witness: "releases_snapshot (plan_of sample_inputs 2000 settings_default) 1"
proof (rule plan_release_stable [of 1000 2000])
  show "releases_snapshot (plan_of sample_inputs 1000 settings_default) 1"
    unfolding releases_iff elems_plan elems_plan_snapshots
    by (simp add: sample_inputs_def offer_held_def bt_values_def)
qed simp

end
