(* ===== verification/Backup_Json.thy ===== *)
theory Backup_Json
  imports Rust_Text
begin

section \<open>Canonical JSON\<close>

text \<open>
  Models \<^verbatim>\<open>canonical\<close> and \<^verbatim>\<open>write_canonical\<close> of
  src/v3/crates/bmac-backup/src/manifest.rs, the text every digest is taken over. A
  \<^verbatim>\<open>serde_json::Value\<close> is the datatype below, with the floating-point type left open and
  an object as its entries in whatever order its map keeps. How serde_json writes a scalar is the
  parameter \<open>to_string\<close>; \<open>scalar_texts\<close> states what JSON promises of it. The theorem says
  that two values have the same canonical text exactly when they differ in key order only.
\<close>

datatype 'f number = Integer int | Float 'f

datatype 'f json =
    JNull
  | JBool bool
  | JNumber "'f number"
  | JString string
  | JArray "'f json list"
  | JObject "(string \<times> 'f json) list"

fun json_get :: "'f json \<Rightarrow> string \<Rightarrow> 'f json option" where
  "json_get (JObject fs) k = map_of fs k"
| "json_get _ k = None"

fun as_object :: "'f json \<Rightarrow> (string \<times> 'f json) list option" where
  "as_object (JObject fs) = Some fs"
| "as_object _ = None"

fun value_as_str :: "'f json \<Rightarrow> string option" where
  "value_as_str (JString s) = Some s"
| "value_as_str _ = None"

lemma size_json_entry [termination_simp]:
  "(k, v) \<in> set fs \<Longrightarrow> size v < Suc (size_list (size_prod (\<lambda>_. 0) size) fs)"
  by (induction fs) auto

fun write_canonical :: "('f json \<Rightarrow> string) \<Rightarrow> 'f json \<Rightarrow> string" where
  \<comment> \<open>what the function pushes to its output\<close>
  "write_canonical to_string (JObject fs) =
     (let keys = sort (map fst fs);
          texts = map (\<lambda>(k, v). (k, write_canonical to_string v)) fs
      in ''{'' @ join_with '',''
            (map (\<lambda>key. to_string (JString key) @ '':'' @ unwrap_or [] (map_of texts key)) keys)
         @ ''}'')"
| "write_canonical to_string (JArray vs) =
     ''['' @ join_with '','' (map (write_canonical to_string) vs) @ '']''"
| "write_canonical to_string scalar = to_string scalar"

definition canonical :: "('f json \<Rightarrow> string) \<Rightarrow> 'f json \<Rightarrow> string" where
  "canonical to_string v = write_canonical to_string v"

subsection \<open>Values up to key order\<close>

fun json_ok :: "'f json \<Rightarrow> bool" where
  \<comment> \<open>a map holds each key once\<close>
  "json_ok (JObject fs) = (distinct (map fst fs) \<and> (\<forall>(k, v)\<in>set fs. json_ok v))"
| "json_ok (JArray vs) = (\<forall>v\<in>set vs. json_ok v)"
| "json_ok _ = True"

fun normal :: "'f json \<Rightarrow> 'f json" where
  \<comment> \<open>the same value with the entries of every object in key order\<close>
  "normal (JObject fs) = JObject (sort_key fst (map (\<lambda>(k, v). (k, normal v)) fs))"
| "normal (JArray vs) = JArray (map normal vs)"
| "normal scalar = scalar"

fun plain :: "('f json \<Rightarrow> string) \<Rightarrow> 'f json \<Rightarrow> string" where
  \<comment> \<open>the compact text in the order the entries are in\<close>
  "plain ts (JObject fs) =
     ''{'' @ join_with '','' (map (\<lambda>(k, v). ts (JString k) @ '':'' @ plain ts v) fs) @ ''}''"
| "plain ts (JArray vs) = ''['' @ join_with '','' (map (plain ts) vs) @ '']''"
| "plain ts scalar = ts scalar"

lemma sort_key_fst_map:
  assumes "distinct (map fst fs)"
  shows "sort_key fst fs = map (\<lambda>k. (k, the (map_of fs k))) (sort (map fst fs))"
proof (rule map_sorted_distinct_set_unique [where f = fst])
  show "inj_on fst (set (sort_key fst fs) \<union> set (map (\<lambda>k. (k, the (map_of fs k))) (sort (map fst fs))))"
    using assms by (auto simp: inj_on_def dest: eq_key_imp_eq_value)
  show "set (sort_key fst fs) = set (map (\<lambda>k. (k, the (map_of fs k))) (sort (map fst fs)))"
    using assms by (force simp: map_of_is_SomeI)
qed (use assms in \<open>simp_all add: comp_def distinct_map\<close>)

lemma canonical_plain:
  "json_ok v \<Longrightarrow> write_canonical ts v = plain ts (normal v)"
proof (induction ts v rule: write_canonical.induct)
  case (1 ts fs)
  let ?g = "\<lambda>(k, v). (k, normal v)"
  have fst_g: "map fst (map ?g fs) = map fst fs" by auto
  have "map_of (map (\<lambda>(k, v). (k, write_canonical ts v)) fs) k
      = map_option (plain ts) (map_of (map ?g fs) k)" for k
  proof -
    have "map (\<lambda>(k, v). (k, write_canonical ts v)) fs
        = map (\<lambda>(k, v). (k, plain ts v)) (map ?g fs)"
      using 1 by (auto simp: comp_def)
    then show ?thesis by (simp only: map_of_map) simp
  qed
  moreover have "sort_key fst (map ?g fs)
      = map (\<lambda>k. (k, the (map_of (map ?g fs) k))) (sort (map fst fs))"
    using sort_key_fst_map [of "map ?g fs"] 1(2) unfolding fst_g by simp
  moreover have "unwrap_or [] (map_option (plain ts) (map_of (map ?g fs) k))
      = plain ts (the (map_of (map ?g fs) k))" if "k \<in> set (map fst fs)" for k
    using that map_of_eq_None_iff [of "map ?g fs" k] unfolding set_map [symmetric] fst_g
    by (cases "map_of (map ?g fs) k") auto
  ultimately show ?case
    by (auto simp: comp_def intro!: arg_cong [where f = "join_with '',''"] map_cong)
next
  case (2 ts vs)
  then show ?case by (auto cong: map_cong)
qed simp_all

subsection \<open>Texts are unambiguous\<close>

definition number_chars :: string where
  "number_chars = ''+-.0123456789eE''"

definition scalar_texts :: "('f json \<Rightarrow> string) \<Rightarrow> bool" where
  \<comment> \<open>what JSON promises: the literals, numbers made of their characters, each number with a text
    of its own, and strings that start and end with a quote no other string's text contains
    at that place\<close>
  "scalar_texts ts =
     (ts JNull = ''null'' \<and> ts (JBool True) = ''true'' \<and> ts (JBool False) = ''false''
      \<and> (\<forall>n. ts (JNumber n) \<noteq> [] \<and> set (ts (JNumber n)) \<subseteq> set number_chars)
      \<and> (\<forall>m n. ts (JNumber m) = ts (JNumber n) \<longrightarrow> m = n)
      \<and> (\<forall>s. \<exists>t. ts (JString s) = CHR 0x22 # t)
      \<and> (\<forall>s t x y. ts (JString s) @ x = ts (JString t) @ y \<longrightarrow> s = t))"

definition delimited :: "string \<Rightarrow> bool" where
  \<comment> \<open>what can follow a value\<close>
  "delimited x = (case x of [] \<Rightarrow> True | c # _ \<Rightarrow> c \<in> {CHR '','', CHR '']'', CHR ''}''})"

lemma delimited_simps [simp]:
  "delimited []" "delimited (c # x) \<longleftrightarrow> c \<in> {CHR '','', CHR '']'', CHR ''}''}"
  by (simp_all add: delimited_def)

definition unambiguous :: "('a \<Rightarrow> string) \<Rightarrow> 'a \<Rightarrow> bool" where
  \<comment> \<open>an element is determined by a text that starts with its text, and its text is not empty
    and does not start like what can follow a value\<close>
  "unambiguous f a =
     ((\<forall>b x y. delimited x \<longrightarrow> delimited y \<longrightarrow> f a @ x = f b @ y \<longrightarrow> a = b \<and> x = y)
      \<and> \<not> delimited (f a))"

lemma unambiguousI:
  assumes "\<And>b x y. delimited x \<Longrightarrow> delimited y \<Longrightarrow> f a @ x = f b @ y \<Longrightarrow> a = b \<and> x = y"
    and "\<not> delimited (f a)"
  shows "unambiguous f a"
  using assms by (simp add: unambiguous_def)

lemma unambiguousD:
  "unambiguous f a \<Longrightarrow> f a @ x = f b @ y \<Longrightarrow> delimited x \<Longrightarrow> delimited y \<Longrightarrow> a = b \<and> x = y"
  by (simp add: unambiguous_def)

lemma unambiguous_start: "unambiguous f a \<Longrightarrow> \<exists>c t. f a = c # t \<and> \<not> delimited (c # t)"
  by (cases "f a") (auto simp: unambiguous_def)

lemma join_Cons_rest:
  "\<exists>r. join_with '','' (map f (a # xs)) @ c # x = f a @ r
      \<and> (r = c # x \<and> xs = [] \<or> r = CHR '','' # join_with '','' (map f xs) @ c # x \<and> xs \<noteq> [])"
  by (cases "xs = []") (auto simp: join_with_Cons)

lemma join_unambiguous:
  assumes "\<forall>a\<in>set xs. unambiguous f a" "\<forall>a\<in>set ys. \<not> delimited (f a)"
    and "c \<in> {CHR '']'', CHR ''}''}"
    and "join_with '','' (map f xs) @ c # x = join_with '','' (map f ys) @ c # y"
  shows "xs = ys \<and> x = y"
  using assms
proof (induction xs arbitrary: ys)
  case Nil
  show ?case
  proof (cases ys)
    case (Cons b bs)
    obtain r where "join_with '','' (map f (b # bs)) @ c # y = f b @ r"
      using join_Cons_rest [of f b bs c y] by blast
    with Nil Cons show ?thesis by (cases "f b") auto
  qed (use Nil in simp)
next
  case (Cons a xs)
  obtain r where r: "join_with '','' (map f (a # xs)) @ c # x = f a @ r"
      "r = c # x \<and> xs = [] \<or> r = CHR '','' # join_with '','' (map f xs) @ c # x \<and> xs \<noteq> []"
    using join_Cons_rest [of f a xs c x] by blast
  have a: "unambiguous f a" using Cons.prems by simp
  show ?case
  proof (cases ys)
    case Nil
    with Cons.prems r unambiguous_start [OF a] show ?thesis by auto
  next
    case (Cons b bs)
    obtain q where q: "join_with '','' (map f (b # bs)) @ c # y = f b @ q"
        "q = c # y \<and> bs = [] \<or> q = CHR '','' # join_with '','' (map f bs) @ c # y \<and> bs \<noteq> []"
      using join_Cons_rest [of f b bs c y] by blast
    have "delimited r" "delimited q" using r(2) q(2) Cons.prems(3) by auto
    with unambiguousD [OF a, of r b q] r(1) q(1) Cons.prems(4) Cons have "a = b" "r = q" by auto
    with r(2) q(2) Cons.prems Cons Cons.IH [of bs] show ?thesis by auto
  qed
qed

lemma scalar_textsD:
  assumes "scalar_texts ts"
  shows "ts JNull = ''null''" "ts (JBool b) = (if b then ''true'' else ''false'')"
    "ts (JNumber n) \<noteq> []" "set (ts (JNumber n)) \<subseteq> set number_chars"
    "ts (JNumber m) = ts (JNumber n) \<Longrightarrow> m = n"
    "\<exists>t. ts (JString s) = CHR 0x22 # t"
    "ts (JString s) @ x = ts (JString t) @ y \<Longrightarrow> s = t"
proof -
  have lit: "ts JNull = ''null''" "ts (JBool True) = ''true''" "ts (JBool False) = ''false''"
    and num: "\<forall>n. ts (JNumber n) \<noteq> [] \<and> set (ts (JNumber n)) \<subseteq> set number_chars"
    and quote: "\<forall>s. \<exists>t. ts (JString s) = CHR 0x22 # t"
    and inj: "\<forall>m n. ts (JNumber m) = ts (JNumber n) \<longrightarrow> m = n"
      "\<forall>s t x y. ts (JString s) @ x = ts (JString t) @ y \<longrightarrow> s = t"
    using assms unfolding scalar_texts_def by - (elim conjE, assumption)+
  show "ts JNull = ''null''" by (rule lit(1))
  show "ts (JBool b) = (if b then ''true'' else ''false'')" by (simp add: lit)
  show "ts (JNumber n) \<noteq> []" "set (ts (JNumber n)) \<subseteq> set number_chars" using num by simp_all
  show "\<exists>t. ts (JString s) = CHR 0x22 # t" using quote by simp
  show "m = n" if "ts (JNumber m) = ts (JNumber n)" using inj(1) that by blast
  show "s = t" if "ts (JString s) @ x = ts (JString t) @ y" using inj(2) that by blast
qed

lemma number_text_end:
  assumes "scalar_texts ts" and "delimited x"
  shows "takeWhile (\<lambda>c. c \<in> set number_chars) (ts (JNumber n) @ x) = ts (JNumber n)"
proof -
  have "takeWhile (\<lambda>c. c \<in> set number_chars) x = []"
    using assms(2) by (cases x) (auto simp: number_chars_def)
  moreover have "\<And>c. c \<in> set (ts (JNumber n)) \<Longrightarrow> c \<in> set number_chars"
    using scalar_textsD(4) [OF assms(1), of n] by blast
  ultimately show ?thesis by (subst takeWhile_append2) simp_all
qed

definition value_kind :: "'f json \<Rightarrow> nat" where
  "value_kind v = (case v of JNull \<Rightarrow> 0 | JBool b \<Rightarrow> (if b then 1 else 2) | JNumber _ \<Rightarrow> 3
     | JString _ \<Rightarrow> 4 | JArray _ \<Rightarrow> 5 | JObject _ \<Rightarrow> 6)"

definition char_kind :: "char \<Rightarrow> nat" where
  \<comment> \<open>the kind of value a text that starts with the character is of\<close>
  "char_kind c = (if c = CHR ''n'' then 0 else if c = CHR ''t'' then 1 else if c = CHR ''f'' then 2
     else if c \<in> set number_chars then 3 else if c = CHR 0x22 then 4 else if c = CHR ''['' then 5
     else if c = CHR ''{'' then 6 else 7)"

lemma plain_start:
  assumes "scalar_texts ts"
  shows "\<exists>c t. plain ts v = c # t \<and> char_kind c = value_kind v"
proof (cases v)
  case (JNumber n)
  obtain c t where n: "ts (JNumber n) = c # t" "c \<in> set number_chars"
    using scalar_textsD(3,4) [OF assms, of n] by (cases "ts (JNumber n)") auto
  moreover have "c \<notin> {CHR ''n'', CHR ''t'', CHR ''f''}"
    using n(2) unfolding number_chars_def by fastforce
  ultimately have "char_kind c = 3" by (simp add: char_kind_def)
  with n JNumber show ?thesis by (simp add: value_kind_def)
next
  case (JString s)
  obtain t where "ts (JString s) = CHR 0x22 # t" using scalar_textsD(6) [OF assms] by blast
  with JString show ?thesis by (simp add: value_kind_def char_kind_def number_chars_def)
qed (simp_all add: scalar_textsD(1,2) [OF assms] value_kind_def char_kind_def number_chars_def)

lemma value_kind_less: "value_kind v < 7"
  by (cases v) (auto simp: value_kind_def)

lemma plain_not_delimited: "scalar_texts ts \<Longrightarrow> \<not> delimited (plain ts v)"
  using plain_start [of ts v] value_kind_less [of v]
  by (auto simp: char_kind_def number_chars_def)

lemma plain_kind:
  assumes "scalar_texts ts" and "plain ts v @ x = plain ts w @ y"
  shows "value_kind v = value_kind w"
  using plain_start [OF assms(1), of v] plain_start [OF assms(1), of w] assms(2) by auto

lemma entry_unambiguous:
  assumes ts: "scalar_texts ts" and v: "unambiguous (plain ts) (snd e)"
  shows "unambiguous (\<lambda>(k, v). ts (JString k) @ CHR '':'' # plain ts v) e"
proof (rule unambiguousI, unfold split_beta)
  fix d x y
  assume d: "delimited x" "delimited y"
    and "(ts (JString (fst e)) @ CHR '':'' # plain ts (snd e)) @ x
      = (ts (JString (fst d)) @ CHR '':'' # plain ts (snd d)) @ y"
  then have eq: "ts (JString (fst e)) @ CHR '':'' # plain ts (snd e) @ x
      = ts (JString (fst d)) @ CHR '':'' # plain ts (snd d) @ y"
    by simp
  then have k: "fst e = fst d" by (rule scalar_textsD(7) [OF ts])
  with eq have "plain ts (snd e) @ x = plain ts (snd d) @ y" by simp
  from unambiguousD [OF v this d] k show "e = d \<and> x = y" by (simp add: prod_eq_iff)
next
  show "\<not> delimited (ts (JString (fst e)) @ CHR '':'' # plain ts (snd e))"
    using scalar_textsD(6) [OF ts, of "fst e"] by auto
qed

lemma kind_cases:
  "value_kind w = value_kind JNull \<Longrightarrow> w = JNull"
  "value_kind w = value_kind (JBool b) \<Longrightarrow> w = JBool b"
  "value_kind w = value_kind (JNumber n) \<Longrightarrow> \<exists>m. w = JNumber m"
  "value_kind w = value_kind (JString s) \<Longrightarrow> \<exists>t. w = JString t"
  "value_kind w = value_kind (JArray vs) \<Longrightarrow> \<exists>ws. w = JArray ws"
  "value_kind w = value_kind (JObject fs) \<Longrightarrow> \<exists>gs. w = JObject gs"
  by (cases w; simp add: value_kind_def split: if_splits)+

lemma plain_unambiguousI:
  assumes "scalar_texts ts"
    and "\<And>w x y. delimited x \<Longrightarrow> delimited y \<Longrightarrow> plain ts v @ x = plain ts w @ y \<Longrightarrow> v = w \<and> x = y"
  shows "unambiguous (plain ts) v"
  using assms(2) plain_not_delimited [OF assms(1)] by (rule unambiguousI)

lemma plain_unambiguous:
  assumes ts: "scalar_texts ts"
  shows "unambiguous (plain ts) v"
proof (induction v)
  case (JArray vs)
  show ?case
  proof (rule plain_unambiguousI [OF ts])
    fix w x y
    assume eq: "plain ts (JArray vs) @ x = plain ts w @ y"
    from kind_cases(5) [OF plain_kind [OF ts eq, symmetric]] obtain ws where w: "w = JArray ws" ..
    with eq have "join_with '','' (map (plain ts) vs) @ CHR '']'' # x
        = join_with '','' (map (plain ts) ws) @ CHR '']'' # y" by simp
    from join_unambiguous [OF _ _ _ this] JArray w show "JArray vs = w \<and> x = y"
      by (simp add: plain_not_delimited [OF ts])
  qed
next
  case (JObject fs)
  let ?f = "\<lambda>(k, v). ts (JString k) @ CHR '':'' # plain ts v"
  have all: "\<forall>e\<in>set fs. unambiguous ?f e"
    using JObject by (auto intro!: entry_unambiguous [OF ts] simp: snds.intros)
  have start: "\<not> delimited (?f e)" for e
    using scalar_textsD(6) [OF ts, of "fst e"] by (cases e) auto
  show ?case
  proof (rule plain_unambiguousI [OF ts])
    fix w x y
    assume eq: "plain ts (JObject fs) @ x = plain ts w @ y"
    from kind_cases(6) [OF plain_kind [OF ts eq, symmetric]] obtain gs where w: "w = JObject gs" ..
    with eq have "join_with '','' (map ?f fs) @ CHR ''}'' # x
        = join_with '','' (map ?f gs) @ CHR ''}'' # y" by simp
    from join_unambiguous [OF all _ _ this] start w show "JObject fs = w \<and> x = y" by simp
  qed
next
  case (JNumber n)
  show ?case
  proof (rule plain_unambiguousI [OF ts])
    fix w x y
    assume d: "delimited x" "delimited y" and eq: "plain ts (JNumber n) @ x = plain ts w @ y"
    from kind_cases(3) [OF plain_kind [OF ts eq, symmetric]] obtain m where w: "w = JNumber m" ..
    have "ts (JNumber n) = ts (JNumber m)"
      using number_text_end [OF ts d(1), of n] number_text_end [OF ts d(2), of m] eq w by simp
    with eq w scalar_textsD(5) [OF ts, of n m] show "JNumber n = w \<and> x = y" by simp
  qed
next
  case (JString s)
  show ?case
  proof (rule plain_unambiguousI [OF ts])
    fix w x y
    assume eq: "plain ts (JString s) @ x = plain ts w @ y"
    from kind_cases(4) [OF plain_kind [OF ts eq, symmetric]] obtain t where w: "w = JString t" ..
    with eq scalar_textsD(7) [OF ts, of s x t y] show "JString s = w \<and> x = y" by simp
  qed
next
  case JNull
  show ?case
    using plain_kind [OF ts, THEN sym, THEN kind_cases(1)]
    by (intro plain_unambiguousI [OF ts]) fastforce
next
  case (JBool b)
  show ?case
    using plain_kind [OF ts, THEN sym, THEN kind_cases(2)]
    by (intro plain_unambiguousI [OF ts]) fastforce
qed

lemma canonical_eq_iff:
  assumes "scalar_texts ts" and "json_ok v" and "json_ok w"
  shows "canonical ts v = canonical ts w \<longleftrightarrow> normal v = normal w"
  using unambiguousD [OF plain_unambiguous [OF assms(1), of "normal v"], of "[]" "normal w" "[]"]
    canonical_plain [OF assms(2)] canonical_plain [OF assms(3)]
  by (auto simp: canonical_def)

subsection \<open>A text form with these promises\<close>

text \<open>
  The promises can be kept: integers in decimal, strings in quotes with the quote and the
  backslash escaped, over a type with one floating-point value.
\<close>

fun escape :: "char \<Rightarrow> string" where
  "escape c = (if c = CHR 0x22 \<or> c = CHR 0x5C then [CHR 0x5C, c] else [c])"

fun simple_text :: "unit json \<Rightarrow> string" where
  "simple_text JNull = ''null''"
| "simple_text (JBool b) = (if b then ''true'' else ''false'')"
| "simple_text (JNumber (Integer n)) = show_int n"
| "simple_text (JNumber (Float _)) = ''0.5''"
| "simple_text (JString s) = CHR 0x22 # concat (map escape s) @ [CHR 0x22]"
| "simple_text v = []"

lemma escape_inj:
  "concat (map escape s) @ CHR 0x22 # x = concat (map escape t) @ CHR 0x22 # y \<Longrightarrow> s = t"
proof (induction s arbitrary: t)
  case Nil
  then show ?case by (cases t) (auto split: if_splits)
next
  case (Cons c s)
  then show ?case by (cases t) (auto split: if_splits)
qed

lemma digit_in_number_chars: "is_ascii_digit c \<Longrightarrow> c \<in> set number_chars"
proof -
  assume c: "is_ascii_digit c"
  have "list_all (\<lambda>d. digit_char d \<in> set number_chars) [0..<10]" by code_simp
  moreover have "digit_value c < 10" using c by (rule digit_value_less)
  ultimately have "digit_char (digit_value c) \<in> set number_chars" by (simp add: list_all_iff)
  then show ?thesis using c by simp
qed

lemma show_int_chars: "c \<in> set (show_int n) \<Longrightarrow> c = CHR ''-'' \<or> is_ascii_digit c" "show_int n \<noteq> []"
  using show_nat_digits [of "nat n"] show_nat_digits [of "nat (- n)"]
  by (auto simp: show_int_def list_all_iff split: if_splits)

lemma show_nat_not_minus: "show_nat n \<noteq> CHR ''-'' # t"
proof
  assume "show_nat n = CHR ''-'' # t"
  then have "is_ascii_digit (CHR ''-'')" using show_nat_digits [of n] by simp
  then show False by (simp add: is_ascii_digit_def less_eq_char_def)
qed

lemma show_int_inj: "show_int m = show_int n \<Longrightarrow> m = n"
  using show_nat_not_minus by (fastforce simp: show_int_def split: if_splits dest: sym)

lemma simple_texts: "scalar_texts simple_text"
  unfolding scalar_texts_def
proof (intro conjI allI impI)
  fix n :: "unit number"
  show "simple_text (JNumber n) \<noteq> []" using show_int_chars(2) by (cases n) simp_all
  show "set (simple_text (JNumber n)) \<subseteq> set number_chars"
  proof (cases n)
    case (Integer i)
    have "CHR ''-'' \<in> set number_chars" by (simp add: number_chars_def)
    with Integer show ?thesis using show_int_chars(1) [of _ i] digit_in_number_chars by auto
  qed (simp add: number_chars_def)
next
  fix m n :: "unit number"
  have "\<not> is_ascii_digit (CHR ''.'')" by (simp add: is_ascii_digit_def less_eq_char_def)
  then have "show_int i \<noteq> ''0.5''" for i using show_int_chars(1) [of "CHR ''.''" i] by auto
  then show "simple_text (JNumber m) = simple_text (JNumber n) \<Longrightarrow> m = n"
    using show_int_inj by (cases m; cases n) (auto dest: sym)
next
  fix s t x y
  assume "simple_text (JString s) @ x = simple_text (JString t) @ y"
  then show "s = t" using escape_inj [of s x t y] by simp
qed simp_all

end
