(* ===== verification/Backup_Names.thy ===== *)
theory Backup_Names
  imports Rust_Text
begin

unbundle bit_operations_syntax

section \<open>PIT snapshot names\<close>

text \<open>
  Models src/v3/crates/bmac-backup/src/names.rs. The time stamp of a name is written and read by
  the jiff crate, so the two directions are parameters: \<open>strftime t\<close> is the stamp of an
  epoch second, \<open>None\<close> outside the range of a \<^verbatim>\<open>Timestamp\<close> (where
  \<^verbatim>\<open>PitName::new\<close> panics), and \<open>strptime s\<close> the epoch second of a stamp,
  \<open>None\<close> when jiff refuses it. \<open>stamps\<close> states what the code relies on. The random name
  for the current time, \<^verbatim>\<open>PitName::now\<close>, only draws its arguments and is left out.
\<close>

definition PREFIX :: string where
  "PREFIX = ''bmac-pit-''"

definition REPLICATION_PREFIX :: string where
  "REPLICATION_PREFIX = ''__replicate_''"

record pit_name =
  pit_text :: string
  pit_taken_s :: int

datatype not_a_pit_name = NotAPitName string

definition pit_name_new :: "(int \<Rightarrow> string option) \<Rightarrow> int \<Rightarrow> u32 \<Rightarrow> pit_name option" where
  "pit_name_new strftime taken nonce =
     map_option (\<lambda>stamp.
         \<lparr> pit_text = PREFIX @ stamp @ ''-'' @ hex_fixed 6 (unat (nonce AND 0xffffff)),
           pit_taken_s = taken \<rparr>)
       (strftime taken)"

definition pit_name_from_str ::
    "(int \<Rightarrow> string option) \<Rightarrow> (string \<Rightarrow> int option) \<Rightarrow> string
     \<Rightarrow> (not_a_pit_name, pit_name) result option" where
  \<comment> \<open>\<open>None\<close> is the panic of \<open>PitName::new\<close>\<close>
  "pit_name_from_str strftime strptime s =
     (let bad = Err (NotAPitName s) in
      case strip_prefix PREFIX s of
        None \<Rightarrow> Some bad
      | Some rest \<Rightarrow>
        (case split_once (CHR ''-'') rest of
           None \<Rightarrow> Some bad
         | Some (stamp, nonce) \<Rightarrow>
             if length nonce \<noteq> 6 \<or> \<not> list_all is_lower_hex nonce then Some bad
             else if length stamp \<noteq> 16 \<or> \<not> list_all (\<lambda>c. of_char c < (128::nat)) stamp then Some bad
             else (case strptime stamp of
                 None \<Rightarrow> Some bad
               | Some taken \<Rightarrow>
                   map_option (\<lambda>name. if pit_text name \<noteq> s then bad else Ok name)
                     (pit_name_new strftime taken (of_nat (hex_value nonce))))))"

definition is_pit :: "(int \<Rightarrow> string option) \<Rightarrow> (string \<Rightarrow> int option) \<Rightarrow> string \<Rightarrow> bool option" where
  "is_pit strftime strptime s = map_option is_ok (pit_name_from_str strftime strptime s)"

subsection \<open>Names read back\<close>

definition stamps :: "(int \<Rightarrow> string option) \<Rightarrow> (string \<Rightarrow> int option) \<Rightarrow> bool" where
  \<comment> \<open>a stamp is 16 ASCII characters without a hyphen and reads back to its second; a stamp that
    can be read is of a second in range\<close>
  "stamps strftime strptime =
     ((\<forall>t s. strftime t = Some s \<longrightarrow> length s = 16 \<and> list_all (\<lambda>c. of_char c < (128::nat)) s
         \<and> CHR ''-'' \<notin> set s \<and> strptime s = Some t)
      \<and> (\<forall>s t. strptime s = Some t \<longrightarrow> strftime t \<noteq> None))"

lemma stampsD:
  assumes "stamps strftime strptime" and "strftime t = Some s"
  shows "length s = 16" "list_all (\<lambda>c. of_char c < (128::nat)) s" "CHR ''-'' \<notin> set s"
    "strptime s = Some t"
  using assms by (auto simp: stamps_def)

lemma nonce_mask: "(n::u32) AND 0xffffff = take_bit 24 n"
  by (simp add: take_bit_eq_mask mask_eq_exp_minus_1)

lemma unat_nonce_less: "unat ((n::u32) AND 0xffffff) < 16 ^ 6"
  by (simp add: nonce_mask take_bit_eq_mod unat_mod_distrib)

lemma nonce_mask_idem: "(of_nat (unat ((n::u32) AND 0xffffff)) :: u32) AND 0xffffff = n AND 0xffffff"
  by (simp add: and.assoc)

lemma pit_name_new_parses:
  assumes st: "stamps strftime strptime" and new: "pit_name_new strftime taken nonce = Some name"
  shows "pit_name_from_str strftime strptime (pit_text name) = Some (Ok name)"
proof -
  obtain stamp where s: "strftime taken = Some stamp"
      "name = \<lparr> pit_text = PREFIX @ stamp @ CHR ''-'' # hex_fixed 6 (unat (nonce AND 0xffffff)),
                pit_taken_s = taken \<rparr>"
    using new by (auto simp: pit_name_new_def)
  note d = stampsD [OF st s(1)]
  let ?n = "hex_fixed 6 (unat (nonce AND 0xffffff))"
  have "split_once (CHR ''-'') (stamp @ CHR ''-'' # ?n) = Some (stamp, ?n)"
    using d(3) by (simp add: split_once_Some_iff)
  moreover have "hex_value ?n = unat (nonce AND 0xffffff)"
    by (rule hex_value_fixed [OF unat_nonce_less])
  ultimately show ?thesis
    using s d by (simp add: pit_name_from_str_def hex_fixed_hex pit_name_new_def and.assoc)
qed

lemma pit_name_from_str_Ok:
  assumes "pit_name_from_str strftime strptime s = Some (Ok name)"
  shows "pit_text name = s \<and> starts_with PREFIX s
    \<and> (\<exists>nonce. pit_name_new strftime (pit_taken_s name) nonce = Some name)"
proof -
  obtain rest stamp nonce taken where s: "strip_prefix PREFIX s = Some rest"
      "split_once (CHR ''-'') rest = Some (stamp, nonce)" "strptime stamp = Some taken"
    and n: "pit_name_new strftime taken (of_nat (hex_value nonce)) = Some name" "pit_text name = s"
    using assms
    by (auto simp: pit_name_from_str_def Let_def split: option.splits prod.splits if_splits)
  from n(1) have "pit_taken_s name = taken" by (auto simp: pit_name_new_def)
  with n s(1) show ?thesis by (auto simp: strip_prefix_Some_iff)
qed

lemma pit_name_from_str_total:
  "stamps strftime strptime \<Longrightarrow> pit_name_from_str strftime strptime s \<noteq> None"
  by (auto simp: pit_name_from_str_def Let_def stamps_def pit_name_new_def
      split: option.splits prod.splits)

lemma is_pit_not_replication:
  "is_pit strftime strptime s = Some True \<Longrightarrow> \<not> starts_with REPLICATION_PREFIX s"
proof -
  assume "is_pit strftime strptime s = Some True"
  then obtain name where "pit_name_from_str strftime strptime s = Some (Ok name)"
    by (auto simp: is_pit_def is_ok_iff)
  from pit_name_from_str_Ok [OF this] show ?thesis
    by (auto simp: PREFIX_def REPLICATION_PREFIX_def starts_with_iff)
qed

text \<open>
  The names that parse are exactly the ones \<^verbatim>\<open>PitName::new\<close> makes, parsing never panics,
  the time a name carries is the one it was made for, and no PIT name is one of Proxmox's
  replication snapshots.
\<close>

lemma pit_names_exact:
  assumes "stamps strftime strptime"
  shows "pit_name_from_str strftime strptime s \<noteq> None
    \<and> (pit_name_from_str strftime strptime s = Some (Ok name)
        \<longleftrightarrow> pit_text name = s \<and> (\<exists>nonce. pit_name_new strftime (pit_taken_s name) nonce = Some name))
    \<and> (is_pit strftime strptime s = Some True \<longrightarrow> \<not> starts_with REPLICATION_PREFIX s)"
  using pit_name_from_str_total [OF assms] pit_name_from_str_Ok pit_name_new_parses [OF assms]
    is_pit_not_replication by blast

definition sample_stamp :: string where
  "sample_stamp = ''20261013T030000Z''"

lemma pit_names_exact_witness:
  "\<exists>name. pit_name_from_str (\<lambda>t. if t = 1791860400 then Some sample_stamp else None)
     (\<lambda>s. if s = sample_stamp then Some 1791860400 else None) ''bmac-pit-20261013T030000Z-000005''
   = Some (Ok name) \<and> pit_taken_s name = 1791860400"
proof -
  let ?f = "\<lambda>t::int. if t = 1791860400 then Some sample_stamp else None"
  let ?p = "\<lambda>s. if s = sample_stamp then Some (1791860400::int) else None"
  have st: "stamps ?f ?p"
    by (auto simp: stamps_def sample_stamp_def)
  have hex: "hex_fixed 6 5 = ''000005''" by code_simp
  have "pit_name_new ?f 1791860400 5
      = Some \<lparr> pit_text = ''bmac-pit-20261013T030000Z-000005'', pit_taken_s = 1791860400 \<rparr>"
    by (simp add: pit_name_new_def PREFIX_def sample_stamp_def hex)
  with pit_names_exact [OF st, of "''bmac-pit-20261013T030000Z-000005''"
      "\<lparr> pit_text = ''bmac-pit-20261013T030000Z-000005'', pit_taken_s = 1791860400 \<rparr>"]
  show ?thesis by auto
qed

end
