(* ===== verification/Backup_Manifest.thy ===== *)
theory Backup_Manifest
  imports Backup_Json Backup_Names Core_Ids Rust_BTree
begin

section \<open>PIT manifests\<close>

text \<open>
  Models the rest of src/v3/crates/bmac-backup/src/manifest.rs: the manifest with its digest, the
  check of a stored manifest, the current settings of a VM configuration, and the disks a PIT must
  capture. Parameters: \<open>sha256\<close> is \<^verbatim>\<open>Sha256::digest\<close>, \<open>ts\<close> is how serde_json writes a
  scalar, and \<open>parse\<close> is \<^verbatim>\<open>serde_json::from_str\<close> for a manifest. The derived serializers
  are the \<open>_value\<close> functions: a struct is the object of its fields in declaration order, an enum
  its snake_case name, and the types with a text form are strings.
\<close>

definition MANIFEST_SCHEMA_VERSION :: u32 where
  "MANIFEST_SCHEMA_VERSION = 1"

datatype consistency = Crash | Filesystem | Application

datatype volume_role = DiskRole | EfiVars | TpmState

record volume =
  v_volume_uuid :: string
  v_slot :: string
  v_role :: volume_role
  v_dataset :: string
  v_snapshot_guid :: snapshot_guid
  v_volsize :: u64
  v_volblocksize :: u64
  v_boot :: bool

record firmware =
  fw_bios :: string
  fw_machine :: "string option"
  fw_secure_boot :: bool

record versions =
  ver_proxmox :: string
  ver_openzfs :: string
  ver_bmac :: string

record 'f manifest =
  mf_schema_version :: u32
  mf_cluster_uuid :: string
  mf_vm_uuid :: string
  mf_vmid :: u32
  mf_pit_uuid :: string
  mf_branch_uuid :: string
  mf_parent_pit_uuid :: "string option"
  mf_snapshot :: pit_name
  mf_taken_at_s :: int
  mf_consistency :: consistency
  mf_evidence :: "'f json"
  mf_multi_pool :: bool
  mf_versions :: versions
  mf_config_text :: string
  mf_config :: "(string, string) btree"
  mf_config_sha256 :: string
  mf_volumes :: "volume list"
  mf_firmware :: firmware
  mf_registry :: "'f json"
  mf_prerequisites :: "string list"
  mf_sha256 :: string

datatype manifest_error =
    SchemaError u32
  | DigestError
  | ConfigDigestError
  | NoVolumes
  | DuplicateSlot string
  | JsonError string

subsection \<open>The derived serializers\<close>

definition uint_value :: "'a::len word \<Rightarrow> 'f json" where
  "uint_value w = JNumber (Integer (int (unat w)))"

definition option_value :: "string option \<Rightarrow> 'f json" where
  "option_value x = (case x of None \<Rightarrow> JNull | Some s \<Rightarrow> JString s)"

fun consistency_value :: "consistency \<Rightarrow> 'f json" where
  "consistency_value Crash = JString ''crash''"
| "consistency_value Filesystem = JString ''filesystem''"
| "consistency_value Application = JString ''application''"

fun role_value :: "volume_role \<Rightarrow> 'f json" where
  "role_value DiskRole = JString ''disk''"
| "role_value EfiVars = JString ''efi_vars''"
| "role_value TpmState = JString ''tpm_state''"

definition volume_value :: "volume \<Rightarrow> 'f json" where
  "volume_value v = JObject
     [(''volume_uuid'', JString (v_volume_uuid v)),
      (''slot'', JString (v_slot v)),
      (''role'', role_value (v_role v)),
      (''dataset'', JString (v_dataset v)),
      (''snapshot_guid'', JString (snapshot_guid_display (v_snapshot_guid v))),
      (''volsize'', uint_value (v_volsize v)),
      (''volblocksize'', uint_value (v_volblocksize v)),
      (''boot'', JBool (v_boot v))]"

definition firmware_value :: "firmware \<Rightarrow> 'f json" where
  "firmware_value f = JObject
     [(''bios'', JString (fw_bios f)),
      (''machine'', option_value (fw_machine f)),
      (''secure_boot'', JBool (fw_secure_boot f))]"

definition versions_value :: "versions \<Rightarrow> 'f json" where
  "versions_value v = JObject
     [(''proxmox'', JString (ver_proxmox v)),
      (''openzfs'', JString (ver_openzfs v)),
      (''bmac'', JString (ver_bmac v))]"

definition config_value :: "(string, string) btree \<Rightarrow> 'f json" where
  "config_value m = JObject (map (\<lambda>(k, v). (k, JString v)) m)"

definition payload_fields :: "'f manifest \<Rightarrow> (string \<times> 'f json) list" where
  "payload_fields m =
     [(''schema_version'', uint_value (mf_schema_version m)),
      (''cluster_uuid'', JString (mf_cluster_uuid m)),
      (''vm_uuid'', JString (mf_vm_uuid m)),
      (''vmid'', uint_value (mf_vmid m)),
      (''pit_uuid'', JString (mf_pit_uuid m)),
      (''branch_uuid'', JString (mf_branch_uuid m)),
      (''parent_pit_uuid'', option_value (mf_parent_pit_uuid m)),
      (''snapshot'', JString (pit_text (mf_snapshot m))),
      (''taken_at_s'', JNumber (Integer (mf_taken_at_s m))),
      (''consistency'', consistency_value (mf_consistency m)),
      (''evidence'', mf_evidence m),
      (''multi_pool'', JBool (mf_multi_pool m)),
      (''versions'', versions_value (mf_versions m)),
      (''config_text'', JString (mf_config_text m)),
      (''config'', config_value (mf_config m)),
      (''config_sha256'', JString (mf_config_sha256 m)),
      (''volumes'', JArray (map volume_value (mf_volumes m))),
      (''firmware'', firmware_value (mf_firmware m)),
      (''registry'', mf_registry m),
      (''prerequisites'', JArray (map JString (mf_prerequisites m)))]"

definition manifest_value :: "'f manifest \<Rightarrow> 'f json" where
  "manifest_value m = JObject (payload_fields m @ [(''sha256'', JString (mf_sha256 m))])"

subsection \<open>Digests\<close>

definition hex_bytes :: "u8 list \<Rightarrow> string" where
  "hex_bytes bytes = concat (map (\<lambda>b. hex_fixed 2 (unat b)) bytes)"

definition sha256_hex :: "(string \<Rightarrow> u8 list) \<Rightarrow> string \<Rightarrow> string" where
  "sha256_hex sha256 bytes = hex_bytes (sha256 bytes)"

fun json_remove :: "string \<Rightarrow> 'f json \<Rightarrow> 'f json" where
  "json_remove k (JObject fs) = JObject (filter (\<lambda>e. fst e \<noteq> k) fs)"
| "json_remove k v = v"

definition manifest_payload :: "'f manifest \<Rightarrow> 'f json" where
  "manifest_payload m = json_remove ''sha256'' (manifest_value m)"

definition manifest_digest :: "(string \<Rightarrow> u8 list) \<Rightarrow> ('f json \<Rightarrow> string) \<Rightarrow> 'f manifest \<Rightarrow> string" where
  "manifest_digest sha256 ts m = hex_bytes (sha256 (canonical ts (manifest_payload m)))"

definition manifest_seal ::
    "(string \<Rightarrow> u8 list) \<Rightarrow> ('f json \<Rightarrow> string) \<Rightarrow> 'f manifest \<Rightarrow> 'f manifest \<times> string" where
  "manifest_seal sha256 ts m =
     (let sealed = m\<lparr>mf_sha256 := manifest_digest sha256 ts m\<rparr>
      in (sealed, canonical ts (manifest_value sealed)))"

fun check_slots :: "string set \<Rightarrow> volume list \<Rightarrow> (manifest_error, unit) result" where
  "check_slots slots [] = Ok ()"
| "check_slots slots (v # vs) =
     (if v_slot v \<in> slots then Err (DuplicateSlot (v_slot v))
      else check_slots (insert (v_slot v) slots) vs)"

definition manifest_check ::
    "(string \<Rightarrow> u8 list) \<Rightarrow> ('f json \<Rightarrow> string) \<Rightarrow> 'f manifest \<Rightarrow> (manifest_error, unit) result" where
  "manifest_check sha256 ts m =
     (if mf_schema_version m \<noteq> MANIFEST_SCHEMA_VERSION then Err (SchemaError (mf_schema_version m))
      else if mf_sha256 m \<noteq> manifest_digest sha256 ts m then Err DigestError
      else if mf_config_sha256 m \<noteq> sha256_hex sha256 (mf_config_text m) then Err ConfigDigestError
      else if mf_volumes m = [] then Err NoVolumes
      else check_slots {} (mf_volumes m))"


subsection \<open>What a checked manifest is\<close>

lemma check_slots_Ok_iff:
  "check_slots seen vs = Ok () \<longleftrightarrow> distinct (map v_slot vs) \<and> seen \<inter> v_slot ` set vs = {}"
  by (induction seen vs rule: check_slots.induct) auto

lemma manifest_check_Ok_iff:
  "manifest_check sha256 ts m = Ok ()
   \<longleftrightarrow> mf_schema_version m = MANIFEST_SCHEMA_VERSION \<and> mf_sha256 m = manifest_digest sha256 ts m
     \<and> mf_config_sha256 m = sha256_hex sha256 (mf_config_text m)
     \<and> mf_volumes m \<noteq> [] \<and> distinct (map v_slot (mf_volumes m))"
  by (auto simp: manifest_check_def check_slots_Ok_iff)

lemma payload_eq: "manifest_payload m = JObject (payload_fields m)"
proof -
  have "filter (\<lambda>e. fst e \<noteq> ''sha256'') (payload_fields m) = payload_fields m"
    by (simp add: payload_fields_def)
  then show ?thesis by (simp add: manifest_payload_def manifest_value_def)
qed

lemma payload_sha256 [simp]: "manifest_payload (m\<lparr>mf_sha256 := d\<rparr>) = manifest_payload m"
  by (simp add: payload_eq payload_fields_def)

lemma digest_sha256 [simp]: "manifest_digest sha256 ts (m\<lparr>mf_sha256 := d\<rparr>) = manifest_digest sha256 ts m"
  by (simp add: manifest_digest_def)

lemma manifest_check_seal:
  "manifest_check sha256 ts (fst (manifest_seal sha256 ts m)) = Ok ()
   \<longleftrightarrow> mf_schema_version m = MANIFEST_SCHEMA_VERSION
     \<and> mf_config_sha256 m = sha256_hex sha256 (mf_config_text m)
     \<and> mf_volumes m \<noteq> [] \<and> distinct (map v_slot (mf_volumes m))"
  by (simp add: manifest_check_Ok_iff manifest_seal_def Let_def)

subsection \<open>The digest covers the whole manifest\<close>

lemma hex_bytes_inj: "hex_bytes xs = hex_bytes ys \<Longrightarrow> xs = ys"
proof (induction xs arbitrary: ys)
  case Nil
  then show ?case by (cases ys) (auto simp: hex_bytes_def numeral_2_eq_2)
next
  case (Cons x xs)
  obtain y ys' where ys: "ys = y # ys'"
    using Cons.prems by (cases ys) (auto simp: hex_bytes_def numeral_2_eq_2)
  with Cons.prems have "hex_fixed 2 (unat x) = hex_fixed 2 (unat y)" "hex_bytes xs = hex_bytes ys'"
    by (auto simp: hex_bytes_def append_eq_append_conv)
  moreover have "unat x < 16 ^ 2" "unat y < 16 ^ 2"
    using unsigned_less [where 'a = nat, of x] unsigned_less [where 'a = nat, of y] by simp_all
  ultimately have "unat x = unat y" by (metis hex_value_fixed)
  then show ?case using ys Cons.IH \<open>hex_bytes xs = hex_bytes ys'\<close> by (simp add: word_unat_eq_iff)
qed

lemma map_of_sort_key:
  assumes "distinct (map fst gs)"
  shows "map_of (sort_key fst gs) k = map_of gs k"
proof -
  have "distinct (map fst (sort_key fst gs))"
    using sort_key_fst_map [OF assms] assms by (simp add: comp_def)
  then have "map_of (sort_key fst gs) k = Some v \<longleftrightarrow> map_of gs k = Some v" for v
    using assms by (simp add: map_of_eq_Some_iff)
  then show ?thesis by (metis not_None_eq)
qed

lemma normal_get:
  assumes "distinct (map fst fs)"
  shows "map_of (sort_key fst (map (\<lambda>(k, v). (k, normal v)) fs)) j = map_option normal (map_of fs j)"
proof -
  have "map fst (map (\<lambda>(k, v). (k, normal v)) fs) = map fst fs" by auto
  with assms have "distinct (map fst (map (\<lambda>(k, v). (k, normal v)) fs))" by (simp only:)
  from map_of_sort_key [OF this] show ?thesis by (simp only: map_of_map) simp
qed

lemma normal_eq_get:
  assumes "distinct (map fst fs)" and "distinct (map fst gs)"
    and "normal (JObject fs) = normal (JObject gs)"
  shows "map_option normal (map_of fs j) = map_option normal (map_of gs j)"
  using assms normal_get [of fs j] normal_get [of gs j] by simp

lemma normal_uint [simp]: "normal (uint_value w) = uint_value w"
  by (simp add: uint_value_def)

lemma uint_value_eq [simp]: "uint_value v = uint_value w \<longleftrightarrow> v = w"
  by (simp add: uint_value_def word_eq_iff_unsigned [where 'a = int])

lemma normal_option [simp]: "normal (option_value x) = option_value x"
  by (simp add: option_value_def split: option.splits)

lemma option_value_eq [simp]: "option_value x = option_value y \<longleftrightarrow> x = y"
  by (auto simp: option_value_def split: option.splits)

lemma role_value_eq [simp]: "normal (role_value x) = role_value x" "role_value x = role_value y \<longleftrightarrow> x = y"
  by (cases x; cases y; simp)+

lemma consistency_value_eq [simp]:
  "normal (consistency_value x) = consistency_value x"
  "consistency_value x = consistency_value y \<longleftrightarrow> x = y"
  by (cases x; cases y; simp)+

lemma guid_display_eq [simp]: "snapshot_guid_display g = snapshot_guid_display h \<longleftrightarrow> g = h"
  using snapshot_guid.display_inj by auto

lemma volume_value_inj:
  assumes "normal (volume_value v :: 'f json) = normal (volume_value w)"
  shows "v = w"
proof -
  note get = normal_eq_get [OF _ _ assms [unfolded volume_value_def]]
  have volume_uuid: "v_volume_uuid v = v_volume_uuid w" using get [of "''volume_uuid''"] by simp
  have slot: "v_slot v = v_slot w" using get [of "''slot''"] by simp
  have role: "v_role v = v_role w" using get [of "''role''"] by simp
  have dataset: "v_dataset v = v_dataset w" using get [of "''dataset''"] by simp
  have snapshot_guid: "v_snapshot_guid v = v_snapshot_guid w" using get [of "''snapshot_guid''"] by simp
  have volsize: "v_volsize v = v_volsize w" using get [of "''volsize''"] by simp
  have volblocksize: "v_volblocksize v = v_volblocksize w" using get [of "''volblocksize''"] by simp
  have boot: "v_boot v = v_boot w" using get [of "''boot''"] by simp
  show ?thesis
    by (intro volume.equality) (simp_all add: volume_uuid slot role dataset snapshot_guid volsize volblocksize boot)
qed

lemma firmware_value_inj:
  assumes "normal (firmware_value v :: 'f json) = normal (firmware_value w)"
  shows "v = w"
proof -
  note get = normal_eq_get [OF _ _ assms [unfolded firmware_value_def]]
  show ?thesis
    using get [of "''bios''"] get [of "''machine''"] get [of "''secure_boot''"]
    by (intro firmware.equality) simp_all
qed

lemma versions_value_inj:
  assumes "normal (versions_value v :: 'f json) = normal (versions_value w)"
  shows "v = w"
proof -
  note get = normal_eq_get [OF _ _ assms [unfolded versions_value_def]]
  show ?thesis
    using get [of "''proxmox''"] get [of "''openzfs''"] get [of "''bmac''"]
    by (intro versions.equality) simp_all
qed

lemma bt_get_inj: "bt_ok m \<Longrightarrow> bt_ok n \<Longrightarrow> (\<And>k. bt_get m k = bt_get n k) \<Longrightarrow> m = n"
proof (rule map_sorted_distinct_set_unique [where f = fst])
  assume ok: "bt_ok m" "bt_ok n" and get: "\<And>k. bt_get m k = bt_get n k"
  then show set: "set m = set n" using btm.entries_get by (metis prod.exhaust subsetI subset_antisym)
  show "inj_on fst (set m \<union> set n)"
    using set bt_ok_distinct [OF ok(1)] by (auto simp: distinct_map)
qed (auto simp: bt_ok_def strict_sorted_iff)

lemma config_value_inj:
  assumes "bt_ok m" and "bt_ok n" and "normal (config_value m :: 'f json) = normal (config_value n)"
  shows "m = n"
proof (rule bt_get_inj [OF assms(1,2)])
  fix k :: string
  let ?f = "\<lambda>(k :: string, v). (k, JString v :: 'f json)"
  have keys: "map fst (map ?f c) = map fst c" for c by auto
  have ok: "bt_ok c \<Longrightarrow> distinct (map fst (map ?f c))" for c :: "(string, string) btree"
    unfolding keys by (rule bt_ok_distinct)
  have get: "map_of (map ?f c) k = map_option JString (bt_get c k)" for c
    by (simp add: map_of_map bt_get_def)
  from normal_eq_get [OF ok [OF assms(1)] ok [OF assms(2)] assms(3) [unfolded config_value_def], of k]
  show "bt_get m k = bt_get n k"
    unfolding get by (cases "bt_get m k"; cases "bt_get n k") auto
qed

definition manifest_ok ::
    "(int \<Rightarrow> string option) \<Rightarrow> (string \<Rightarrow> int option) \<Rightarrow> 'f manifest \<Rightarrow> bool" where
  \<comment> \<open>what the types promise: maps hold a key once, and a snapshot name was parsed\<close>
  "manifest_ok strftime strptime m =
     (json_ok (mf_evidence m) \<and> json_ok (mf_registry m) \<and> bt_ok (mf_config m)
      \<and> pit_name_from_str strftime strptime (pit_text (mf_snapshot m)) = Some (Ok (mf_snapshot m)))"

definition same_content :: "'f manifest \<Rightarrow> 'f manifest \<Rightarrow> bool" where
  \<comment> \<open>equal in every field but the digest, up to key order in the free-form values\<close>
  "same_content a b =
     (normal (mf_evidence a) = normal (mf_evidence b) \<and> normal (mf_registry a) = normal (mf_registry b)
      \<and> a\<lparr>mf_evidence := JNull, mf_registry := JNull, mf_sha256 := []\<rparr>
        = b\<lparr>mf_evidence := JNull, mf_registry := JNull, mf_sha256 := []\<rparr>)"

lemma payload_keys_distinct: "distinct (map fst (payload_fields m))"
  by (simp add: payload_fields_def)

lemma scalar_values_ok [simp]:
  "json_ok (consistency_value c)" "json_ok (option_value x)" "json_ok (role_value r)"
  "json_ok (uint_value w)"
  by - ((cases c; simp), (cases x; simp add: option_value_def), (cases r; simp), simp add: uint_value_def)

lemma payload_ok:
  assumes "manifest_ok strftime strptime (m :: 'f manifest)"
  shows "json_ok (manifest_payload m)"
proof -
  have "distinct (map fst (mf_config m))"
    using assms by (simp add: manifest_ok_def bt_ok_distinct)
  then have "json_ok (config_value (mf_config m) :: 'f json)"
    by (auto simp: config_value_def comp_def case_prod_beta)
  then show ?thesis
    using assms payload_keys_distinct [of m]
    by (simp add: payload_eq manifest_ok_def payload_fields_def volume_value_def
        firmware_value_def versions_value_def)
qed

lemma payload_scalars:
  fixes a b :: "'f manifest"
  assumes "normal (manifest_payload a) = normal (manifest_payload b)"
  shows "mf_schema_version a = mf_schema_version b"
    "mf_cluster_uuid a = mf_cluster_uuid b"
    "mf_vm_uuid a = mf_vm_uuid b"
    "mf_vmid a = mf_vmid b"
    "mf_pit_uuid a = mf_pit_uuid b"
    "mf_branch_uuid a = mf_branch_uuid b"
    "mf_parent_pit_uuid a = mf_parent_pit_uuid b"
    "mf_taken_at_s a = mf_taken_at_s b"
    "mf_consistency a = mf_consistency b"
    "mf_multi_pool a = mf_multi_pool b"
    "mf_config_text a = mf_config_text b"
    "mf_config_sha256 a = mf_config_sha256 b"
    "normal (mf_evidence a) = normal (mf_evidence b)" "normal (mf_registry a) = normal (mf_registry b)"
proof -
  note get = normal_eq_get [OF payload_keys_distinct payload_keys_distinct assms [unfolded payload_eq]]
  show "mf_schema_version a = mf_schema_version b" using get [of "''schema_version''"] by (simp add: payload_fields_def)
  show "mf_cluster_uuid a = mf_cluster_uuid b" using get [of "''cluster_uuid''"] by (simp add: payload_fields_def)
  show "mf_vm_uuid a = mf_vm_uuid b" using get [of "''vm_uuid''"] by (simp add: payload_fields_def)
  show "mf_vmid a = mf_vmid b" using get [of "''vmid''"] by (simp add: payload_fields_def)
  show "mf_pit_uuid a = mf_pit_uuid b" using get [of "''pit_uuid''"] by (simp add: payload_fields_def)
  show "mf_branch_uuid a = mf_branch_uuid b" using get [of "''branch_uuid''"] by (simp add: payload_fields_def)
  show "mf_parent_pit_uuid a = mf_parent_pit_uuid b" using get [of "''parent_pit_uuid''"] by (simp add: payload_fields_def)
  show "mf_taken_at_s a = mf_taken_at_s b" using get [of "''taken_at_s''"] by (simp add: payload_fields_def)
  show "mf_consistency a = mf_consistency b" using get [of "''consistency''"] by (simp add: payload_fields_def)
  show "mf_multi_pool a = mf_multi_pool b" using get [of "''multi_pool''"] by (simp add: payload_fields_def)
  show "mf_config_text a = mf_config_text b" using get [of "''config_text''"] by (simp add: payload_fields_def)
  show "mf_config_sha256 a = mf_config_sha256 b" using get [of "''config_sha256''"] by (simp add: payload_fields_def)
  show "normal (mf_evidence a) = normal (mf_evidence b)"
    using get [of "''evidence''"] by (simp add: payload_fields_def)
  show "normal (mf_registry a) = normal (mf_registry b)"
    using get [of "''registry''"] by (simp add: payload_fields_def)
qed

lemma payload_normal_inj:
  fixes a b :: "'f manifest"
  assumes ok: "manifest_ok strftime strptime a" "manifest_ok strftime strptime b"
    and eq: "normal (manifest_payload a) = normal (manifest_payload b)"
  shows "same_content a b"
proof -
  note get = normal_eq_get [OF payload_keys_distinct payload_keys_distinct eq [unfolded payload_eq]]
  have snapshot: "mf_snapshot a = mf_snapshot b"
    using get [of "''snapshot''"] ok by (simp add: payload_fields_def manifest_ok_def)
  have "map (\<lambda>v. normal (volume_value v :: 'f json)) (mf_volumes a)
      = map (\<lambda>v. normal (volume_value v)) (mf_volumes b)"
    using get [of "''volumes''"] by (simp add: payload_fields_def comp_def)
  then have volumes: "mf_volumes a = mf_volumes b"
    using volume_value_inj by (metis (mono_tags, lifting) inj_def list.inj_map_strong)
  have "normal (config_value (mf_config a) :: 'f json) = normal (config_value (mf_config b))"
    "normal (firmware_value (mf_firmware a) :: 'f json) = normal (firmware_value (mf_firmware b))"
    "normal (versions_value (mf_versions a) :: 'f json) = normal (versions_value (mf_versions b))"
    using get [of "''config''"] get [of "''firmware''"] get [of "''versions''"]
    by (simp_all add: payload_fields_def)
  then have parts: "mf_config a = mf_config b" "mf_firmware a = mf_firmware b"
      "mf_versions a = mf_versions b"
    using ok config_value_inj firmware_value_inj versions_value_inj
    unfolding manifest_ok_def by blast+
  have "map (JString :: string \<Rightarrow> 'f json) (mf_prerequisites a) = map JString (mf_prerequisites b)"
    using get [of "''prerequisites''"] by (simp add: payload_fields_def comp_def)
  then have prerequisites: "mf_prerequisites a = mf_prerequisites b"
    by (simp add: inj_def inj_map_eq_map)
  show ?thesis
    unfolding same_content_def
    by (intro conjI manifest.equality)
      (simp_all add: snapshot volumes parts prerequisites payload_scalars [OF eq])
qed

lemma same_content_payload:
  assumes "same_content a b"
  shows "normal (manifest_payload a) = normal (manifest_payload b)"
proof -
  have "map (\<lambda>(k, v). (k, normal v)) (payload_fields a)
      = map (\<lambda>(k, v). (k, normal v)) (payload_fields b)"
    using assms by (cases a; cases b) (simp add: same_content_def payload_fields_def)
  then show ?thesis by (simp add: payload_eq)
qed

text \<open>
  C16: two manifests that pass the check have the same digest exactly when they agree in every other
  field, up to key order inside the free-form values, as long as SHA-256 does not collide on the two
  canonical texts: no field of a stored manifest can change under its digest.
\<close>

theorem manifest_digest_binds:
  assumes "scalar_texts ts"
    and "manifest_ok strftime strptime a" and "manifest_ok strftime strptime b"
    and "manifest_check sha256 ts a = Ok ()" and "manifest_check sha256 ts b = Ok ()"
    and "sha256 (canonical ts (manifest_payload a)) = sha256 (canonical ts (manifest_payload b))
      \<Longrightarrow> canonical ts (manifest_payload a) = canonical ts (manifest_payload b)"
  shows "mf_sha256 a = mf_sha256 b \<longleftrightarrow> same_content a b"
proof -
  have "mf_sha256 a = mf_sha256 b
      \<longleftrightarrow> canonical ts (manifest_payload a) = canonical ts (manifest_payload b)"
    using assms(4-6) hex_bytes_inj by (auto simp: manifest_check_Ok_iff manifest_digest_def)
  also have "\<dots> \<longleftrightarrow> normal (manifest_payload a) = normal (manifest_payload b)"
    using assms(1-3) payload_ok by (intro canonical_eq_iff)
  also have "\<dots> \<longleftrightarrow> same_content a b"
    using payload_normal_inj [OF assms(2,3)] same_content_payload by blast
  finally show ?thesis .
qed

definition sample_volume :: volume where
  "sample_volume = \<lparr> v_volume_uuid = ''u'', v_slot = ''scsi0'', v_role = DiskRole,
     v_dataset = ''rpool/data/vm-100-disk-0'', v_snapshot_guid = SnapshotGuid 7, v_volsize = 1024,
     v_volblocksize = 512, v_boot = True \<rparr>"

definition sample_manifest :: "(string \<Rightarrow> u8 list) \<Rightarrow> unit json \<Rightarrow> unit manifest" where
  "sample_manifest sha256 evidence = \<lparr> mf_schema_version = 1, mf_cluster_uuid = ''c'',
     mf_vm_uuid = ''v'', mf_vmid = 100, mf_pit_uuid = ''p'', mf_branch_uuid = ''b'',
     mf_parent_pit_uuid = None,
     mf_snapshot = \<lparr> pit_text = ''bmac-pit-20261013T030000Z-000005'', pit_taken_s = 1791860400 \<rparr>,
     mf_taken_at_s = 1791860400, mf_consistency = Crash, mf_evidence = evidence,
     mf_multi_pool = False,
     mf_versions = \<lparr> ver_proxmox = ''9'', ver_openzfs = ''2.3'', ver_bmac = ''3'' \<rparr>,
     mf_config_text = ''name: a'', mf_config = [(''name'', ''a'')],
     mf_config_sha256 = sha256_hex sha256 ''name: a'', mf_volumes = [sample_volume],
     mf_firmware = \<lparr> fw_bios = ''seabios'', fw_machine = None, fw_secure_boot = False \<rparr>,
     mf_registry = JNull, mf_prerequisites = [], mf_sha256 = [] \<rparr>"

lemma sample_ok:
  assumes "json_ok e"
  shows "manifest_ok (\<lambda>t. if t = 1791860400 then Some ''20261013T030000Z'' else None)
    (\<lambda>s. if s = ''20261013T030000Z'' then Some 1791860400 else None)
    (fst (manifest_seal sha256 ts (sample_manifest sha256 e)))"
proof -
  let ?f = "\<lambda>t::int. if t = 1791860400 then Some ''20261013T030000Z'' else None"
  let ?p = "\<lambda>s. if s = ''20261013T030000Z'' then Some (1791860400::int) else None"
  have "stamps ?f ?p" by (auto simp: stamps_def)
  moreover have "hex_fixed 6 5 = ''000005''" by code_simp
  then have "pit_name_new ?f 1791860400 5 = Some (mf_snapshot (sample_manifest sha256 e))"
    by (simp add: pit_name_new_def PREFIX_def sample_manifest_def)
  ultimately have "pit_name_from_str ?f ?p (pit_text (mf_snapshot (sample_manifest sha256 e)))
      = Some (Ok (mf_snapshot (sample_manifest sha256 e)))"
    by (rule pit_name_new_parses)
  with assms show ?thesis
    by (simp add: manifest_ok_def manifest_seal_def Let_def sample_manifest_def bt_ok_def)
qed

lemma sample_check: "manifest_check sha256 ts (fst (manifest_seal sha256 ts (sample_manifest sha256 e))) = Ok ()"
  by (simp add: manifest_check_seal sample_manifest_def MANIFEST_SCHEMA_VERSION_def)

theorem manifest_digest_binds_witness:
  "let sha256 = map (\<lambda>c. of_nat (of_char c) :: u8);
       sealed = \<lambda>e. fst (manifest_seal sha256 simple_text (sample_manifest sha256 e))
   in mf_sha256 (sealed (JObject [(''a'', JNull), (''b'', JBool True)]))
      = mf_sha256 (sealed (JObject [(''b'', JBool True), (''a'', JNull)]))"
proof -
  let ?sha = "map (\<lambda>c. of_nat (of_char c) :: u8)"
  let ?s = "\<lambda>e. fst (manifest_seal ?sha simple_text (sample_manifest ?sha e))"
  let ?e = "JObject [(''a'', JNull), (''b'', JBool True)]"
  let ?g = "JObject [(''b'', JBool True), (''a'', JNull)]"
  have "inj (\<lambda>c. of_nat (of_char c) :: u8)"
    by (rule injI, drule arg_cong [where f = unat]) (simp add: unat_of_nat)
  then have inj: "?sha x = ?sha y \<Longrightarrow> x = y" for x y by (simp add: inj_map_eq_map)
  have "json_ok ?e" "json_ok ?g" by simp_all
  note binds = manifest_digest_binds [OF simple_texts sample_ok [OF this(1)] sample_ok [OF this(2)]
      sample_check sample_check inj]
  have "same_content (?s ?e) (?s ?g)"
    by (simp add: same_content_def manifest_seal_def Let_def sample_manifest_def)
  with binds [of ?sha] show ?thesis by (simp add: Let_def)
qed



end
