(* ===== verification/Backup_Config.thy ===== *)
theory Backup_Config
  imports Backup_Manifest
begin

section \<open>VM configurations\<close>

text \<open>
  Models \<^verbatim>\<open>current_config\<close> and \<^verbatim>\<open>disks\<close> of
  src/v3/crates/bmac-backup/src/manifest.rs: the settings of a Proxmox configuration that a PIT
  records, and the disks it must capture.
\<close>

fun current_lines ::
    "string list \<Rightarrow> string list \<times> (string, string) btree \<Rightarrow> string list \<times> (string, string) btree" where
  "current_lines [] acc = acc"
| "current_lines (line # rest) (kept, parsed) =
     (if starts_with ''['' line then (kept, parsed)
      else if trim line = [] \<or> starts_with ''#'' line then current_lines rest (kept, parsed)
      else case split_once (CHR '':'') line of
          None \<Rightarrow> current_lines rest (kept, parsed)
        | Some (key, value) \<Rightarrow>
            current_lines rest (kept @ [line], bt_insert (trim key) (trim value) parsed))"

definition current_config :: "string \<Rightarrow> string \<times> (string, string) btree" where
  "current_config s =
     (let (kept, parsed) = current_lines (text_lines s) ([], bt_empty);
          out = join_with [CHR 0x0A] kept
      in (if out \<noteq> [] then out @ [CHR 0x0A] else out, parsed))"

record disk_ref =
  dr_slot :: string
  dr_role :: volume_role
  dr_volume_id :: string
  dr_boot :: bool

definition is_bus_slot :: "string \<Rightarrow> bool" where
  "is_bus_slot key =
     list_ex (\<lambda>bus. is_some_and (\<lambda>n. n \<noteq> [] \<and> list_all is_ascii_digit n) (strip_prefix bus key))
       [''scsi'', ''virtio'', ''sata'', ''ide'']"

definition slot_role :: "string \<Rightarrow> volume_role option" where
  "slot_role slot =
     (if slot = ''efidisk0'' then Some EfiVars
      else if slot = ''tpmstate0'' then Some TpmState
      else if is_bus_slot slot then Some DiskRole
      else None)"

definition boot_order :: "(string, string) btree \<Rightarrow> string list" where
  "boot_order config =
     (case Option.bind (bt_get config ''boot'')
             (\<lambda>b. case filter_map (strip_prefix ''order='') (split_on (CHR '','') b) of
                [] \<Rightarrow> None | x # _ \<Rightarrow> Some x) of
        None \<Rightarrow> []
      | Some ord \<Rightarrow> split_on (CHR '';'') ord)"

definition not_a_storage_volume :: "string \<Rightarrow> string \<Rightarrow> string" where
  "not_a_storage_volume slot volume =
     slot @ '' is '' @ volume @ '', not a storage volume; a PIT can't capture it''"

fun disks_loop ::
    "string list \<Rightarrow> (string, string) btree \<Rightarrow> disk_ref list \<Rightarrow> (string, disk_ref list) result" where
  "disks_loop order [] out = Ok out"
| "disks_loop order ((slot, value) # config) out =
     (case slot_role slot of
        None \<Rightarrow> disks_loop order config out
      | Some role \<Rightarrow>
          (let parts = split_on (CHR '','') value; volume = trim (hd parts) in
           if list_ex (\<lambda>p. trim p = ''media=cdrom'') (tl parts) \<or> volume = ''none'' \<or> volume = []
           then disks_loop order config out
           else if starts_with ''/'' volume \<or> CHR '':'' \<notin> set volume
           then Err (not_a_storage_volume slot volume)
           else disks_loop order config
             (out @ [\<lparr> dr_slot = slot, dr_role = role, dr_volume_id = volume,
                       dr_boot = (role \<noteq> DiskRole \<or> slot \<in> set order) \<rparr>])))"

definition disks :: "(string, string) btree \<Rightarrow> (string, disk_ref list) result" where
  "disks config =
     and_then (disks_loop (boot_order config) config []) (\<lambda>out.
       if out = [] then Err ''the VM has no disks to capture'' else Ok out)"

subsection \<open>The recorded settings are stable\<close>

definition setting_line :: "string \<Rightarrow> bool" where
  \<comment> \<open>a line that is kept\<close>
  "setting_line line = (trim line \<noteq> [] \<and> \<not> starts_with ''#'' line \<and> CHR '':'' \<in> set line)"

definition setting_of :: "string \<Rightarrow> string \<times> string" where
  "setting_of line = (case split_once (CHR '':'') line of
     None \<Rightarrow> ([], []) | Some (key, value) \<Rightarrow> (trim key, trim value))"

lemma current_lines_eq:
  "current_lines ls (kept, parsed) =
    (let ss = filter setting_line (takeWhile (\<lambda>l. \<not> starts_with ''['' l) ls)
     in (kept @ ss, fold (\<lambda>(k, v). bt_insert k v) (map setting_of ss) parsed))"
proof (induction ls arbitrary: kept parsed)
  case (Cons l ls)
  then show ?case
    by (cases "split_once (CHR '':'') l")
      (auto simp: Let_def setting_line_def setting_of_def split_once_def split: if_splits)
qed simp

lemma current_config_eq:
  "current_config s =
    (let ss = filter setting_line (takeWhile (\<lambda>l. \<not> starts_with ''['' l) (text_lines s))
     in (if ss = [] then [] else join_with [CHR 0x0A] ss @ [CHR 0x0A], bt_collect (map setting_of ss)))"
proof -
  have "join_with sep ss = [] \<Longrightarrow> \<forall>l\<in>set ss. l \<noteq> [] \<Longrightarrow> ss = []" for sep and ss :: "string list"
    by (cases ss rule: remdups_adj.cases) auto
  moreover have "setting_line l \<Longrightarrow> l \<noteq> []" for l by (auto simp: setting_line_def)
  ultimately show ?thesis
    by (auto simp: current_config_def current_lines_eq Let_def bt_collect_def)
qed

lemma takeWhile_filter_id: "\<forall>x\<in>set xs. P x \<and> Q x \<Longrightarrow> filter P (takeWhile Q xs) = xs"
  by (induction xs) auto

text \<open>
  The settings a PIT records are a configuration with exactly those settings: reading the
  recorded text again gives the same text and the same map (for a text without carriage returns),
  and the map holds, for each key, the value of its last line before the first section.
\<close>

lemma current_config_stable:
  assumes "CHR 0x0D \<notin> set s"
  shows "current_config (fst (current_config s)) = current_config s
    \<and> bt_ok (snd (current_config s))
    \<and> bt_get (snd (current_config s)) k
      = map_of (rev (map setting_of (filter setting_line
          (takeWhile (\<lambda>l. \<not> starts_with ''['' l) (text_lines s))))) k"
proof -
  let ?ss = "filter setting_line (takeWhile (\<lambda>l. \<not> starts_with ''['' l) (text_lines s))"
  have kept: "\<forall>l\<in>set ?ss. setting_line l \<and> \<not> starts_with ''['' l \<and> l \<in> set (text_lines s)"
    by (auto dest: set_takeWhileD)
  then have chars: "\<forall>w\<in>set ?ss. CHR 0x0A \<notin> set w \<and> CHR 0x0D \<notin> set w"
    using text_lines_no_feed text_lines_subset assms by blast
  have again: "filter setting_line (takeWhile (\<lambda>l. \<not> starts_with ''['' l) ?ss) = ?ss"
    using kept by (intro takeWhile_filter_id) simp
  have "current_config (fst (current_config s)) = current_config s"
  proof (cases "?ss = []")
    case True
    have "text_lines [] = []" by (simp add: text_lines_def)
    with True show ?thesis by (simp add: current_config_eq Let_def)
  next
    case False
    then show ?thesis
      using text_lines_unlines [OF False chars] again
      by (simp only: current_config_eq [of s] current_config_eq [of "_ @ _"] Let_def if_False fst_conv)
  qed
  then show ?thesis
    by (simp add: current_config_eq [of s] Let_def bt_ok_collect bt_get_collect)
qed

lemma current_config_stable_witness:
  "bt_get (snd (current_config ''a:1'')) ''a'' = Some ''1''"
proof -
  have ls: "text_lines ''a:1'' = [''a:1'']" by code_simp
  have g: "is_ascii_graphic (CHR ''a'')" "is_ascii_graphic (CHR ''1'')" by code_simp+
  have "setting_line ''a:1''"
    using trim_graphic [of "''a:1''"] g by (simp add: setting_line_def starts_with_def)
  moreover have "split_once (CHR '':'') ''a:1'' = Some (''a'', ''1'')" by code_simp
  then have "setting_of ''a:1'' = (''a'', ''1'')"
    using trim_graphic [of "''a''"] trim_graphic [of "''1''"] g by (simp add: setting_of_def)
  ultimately show ?thesis
    using current_config_stable [of "''a:1''" "''a''"] by (simp add: ls starts_with_def)
qed

subsection \<open>Which disks are captured\<close>

definition volume_of :: "string \<Rightarrow> string" where
  "volume_of value = trim (hd (split_on (CHR '','') value))"

definition captured :: "string \<times> string \<Rightarrow> bool" where
  \<comment> \<open>the slot of a disk that is neither a CD-ROM nor empty\<close>
  "captured e = (slot_role (fst e) \<noteq> None \<and> volume_of (snd e) \<notin> {''none'', []}
     \<and> \<not> list_ex (\<lambda>p. trim p = ''media=cdrom'') (tl (split_on (CHR '','') (snd e))))"

definition storage_volume :: "string \<Rightarrow> bool" where
  "storage_volume volume = (\<not> starts_with ''/'' volume \<and> CHR '':'' \<in> set volume)"

definition ref_of :: "string list \<Rightarrow> string \<times> string \<Rightarrow> disk_ref" where
  "ref_of order e = \<lparr> dr_slot = fst e, dr_role = unwrap_or DiskRole (slot_role (fst e)),
     dr_volume_id = volume_of (snd e),
     dr_boot = (slot_role (fst e) \<noteq> Some DiskRole \<or> fst e \<in> set order) \<rparr>"

lemma disks_loop_eq:
  "disks_loop order config out =
    (case find (\<lambda>e. captured e \<and> \<not> storage_volume (volume_of (snd e))) config of
       Some e \<Rightarrow> Err (not_a_storage_volume (fst e) (volume_of (snd e)))
     | None \<Rightarrow> Ok (out @ map (ref_of order) (filter captured config)))"
proof (induction order config out rule: disks_loop.induct)
  case (2 order slot v config out)
  show ?case
  proof (cases "slot_role slot")
    case None
    then have "\<not> captured (slot, v)" by (simp add: captured_def)
    with None 2(1) show ?thesis by (auto split: option.splits)
  next
    case (Some role)
    have "captured (slot, v) \<longleftrightarrow> \<not> (list_ex (\<lambda>p. trim p = ''media=cdrom'') (tl (split_on (CHR '','') v))
        \<or> volume_of v = ''none'' \<or> volume_of v = [])"
      using Some by (auto simp: captured_def)
    moreover have "storage_volume (volume_of v)
        \<longleftrightarrow> \<not> (starts_with ''/'' (volume_of v) \<or> CHR '':'' \<notin> set (volume_of v))"
      by (auto simp: storage_volume_def)
    ultimately show ?thesis
      using 2(2,3) [OF Some refl refl] Some
      by (auto simp: Let_def volume_of_def [symmetric] ref_of_def split: option.splits)
  qed
qed simp

text \<open>
  A PIT captures exactly the configured disks, EFI variables and TPM states that are neither
  CD-ROMs nor empty, in slot order; the first of them that is not a storage volume, or having none,
  is an error. The slots are distinct, so a manifest with one volume for each has volumes and passes
  the check for duplicate slots.
\<close>

lemma disks_exact:
  assumes "bt_ok config"
  shows "disks config =
    (case find (\<lambda>e. captured e \<and> \<not> storage_volume (volume_of (snd e))) config of
       Some e \<Rightarrow> Err (not_a_storage_volume (fst e) (volume_of (snd e)))
     | None \<Rightarrow> if filter captured config = [] then Err ''the VM has no disks to capture''
               else Ok (map (ref_of (boot_order config)) (filter captured config)))
   \<and> (disks config = Ok refs \<and> map v_slot vs = map dr_slot refs
       \<longrightarrow> vs \<noteq> [] \<and> check_slots {} vs = Ok ())"
proof -
  have "distinct (map fst (filter captured config))"
    using bt_ok_distinct [OF assms] by (simp add: distinct_map_filter)
  then have "distinct (map dr_slot (map (ref_of order) (filter captured config)))" for order
    by (simp add: ref_of_def comp_def)
  then show ?thesis
    by (auto simp: disks_def disks_loop_eq check_slots_Ok_iff split: option.splits)
qed

lemma disks_exact_witness:
  "disks [(''ide2'', ''none,media=cdrom''), (''name'', ''a''), (''scsi0'', ''local:vm-1'')]
   = Ok [\<lparr> dr_slot = ''scsi0'', dr_role = DiskRole, dr_volume_id = ''local:vm-1'', dr_boot = False \<rparr>]"
proof -
  let ?c = "[(''ide2'', ''none,media=cdrom''), (''name'', ''a''), (''scsi0'', ''local:vm-1'')]"
  have "bt_ok ?c" by code_simp
  note exact = disks_exact [OF this, THEN conjunct1]
  have g: "is_ascii_graphic (CHR ''n'')" "is_ascii_graphic (CHR ''e'')" "is_ascii_graphic (CHR ''m'')"
      "is_ascii_graphic (CHR ''l'')" "is_ascii_graphic (CHR ''1'')" by code_simp+
  have split: "split_on (CHR '','') ''none,media=cdrom'' = [''none'', ''media=cdrom'']"
      "split_on (CHR '','') ''local:vm-1'' = [''local:vm-1'']" by code_simp+
  have role: "slot_role ''ide2'' = Some DiskRole" "slot_role ''name'' = None"
      "slot_role ''scsi0'' = Some DiskRole" by code_simp+
  have trims: "trim ''none'' = ''none''" "trim ''local:vm-1'' = ''local:vm-1''"
    using g by (simp_all add: trim_graphic)
  have "storage_volume ''local:vm-1''" by code_simp
  moreover have "boot_order ?c = []" by code_simp
  ultimately show ?thesis
    using exact by (simp add: captured_def volume_of_def ref_of_def split role trims)
qed

end
