(* ===== verification/Backup_Restore.thy ===== *)
theory Backup_Restore
  imports Backup_Config
begin

section \<open>Restore planning\<close>

text \<open>
  Models src/v3/crates/bmac-backup/src/restore.rs: the cheapest method for each volume, the names of
  restored volumes, the configuration of the restored VM, and the lineage its backups continue.
  \<^verbatim>\<open>Uuid\<close> is a 128-bit word; its text form is the uuid crate's and is a parameter
  (\<open>uuid_str\<close>, \<open>parse_uuid\<close>), as is the fresh identifier of a new branch. The two functions that
  format floating-point figures for the wizard, \<^verbatim>\<open>human_bytes\<close> and
  \<^verbatim>\<open>estimate\<close>, are left out.
\<close>

datatype mode = NewVm | IntoExisting | Rollback | Promotion | Test | Recovery

record local_snapshot =
  ls_name :: string
  ls_guid :: snapshot_guid

record base =
  base_pit_uuid :: uuid
  base_taken_s :: int
  base_guid :: snapshot_guid

datatype restore_method =
    Local (m_snapshot: string)
  | Incremental (m_base: string) (m_base_guid: snapshot_guid) (m_base_pit: uuid)
  | Full

fun method_number :: "restore_method \<Rightarrow> u8" where
  "method_number (Local _) = 1"
| "method_number (Incremental _ _ _) = 2"
| "method_number Full = 3"

fun from_appliance :: "restore_method \<Rightarrow> bool" where
  "from_appliance (Local _) = False"
| "from_appliance _ = True"

definition pool_of :: "string \<Rightarrow> string" where
  "pool_of name = takeWhile (\<lambda>c. c \<noteq> CHR ''/'' \<and> c \<noteq> CHR ''@'') name"

definition bases_newest_first :: "base list \<Rightarrow> base list" where
  \<comment> \<open>the stable sort by \<open>Reverse((taken_s, pit_uuid))\<close>\<close>
  "bases_newest_first bases = rev (sort_key (\<lambda>b. (base_taken_s b, base_pit_uuid b)) (rev bases))"

fun choose_base :: "local_snapshot list \<Rightarrow> base list \<Rightarrow> restore_method" where
  "choose_base here [] = Full"
| "choose_base here (b # bs) =
     (case find (\<lambda>s. ls_guid s = base_guid b) here of
        Some s \<Rightarrow> Incremental (ls_name s) (base_guid b) (base_pit_uuid b)
      | None \<Rightarrow> choose_base here bs)"

definition choose_method :: "volume \<Rightarrow> string \<Rightarrow> local_snapshot list \<Rightarrow> base list \<Rightarrow> restore_method" where
  "choose_method volume pool locals bases =
     (let here = filter (\<lambda>s. pool_of (ls_name s) = pool) locals in
      case find (\<lambda>s. ls_guid s = v_snapshot_guid volume) here of
        Some s \<Rightarrow> Local (ls_name s)
      | None \<Rightarrow> choose_base here (bases_newest_first bases))"

definition staging :: "string \<Rightarrow> string \<Rightarrow> string \<Rightarrow> string" where
  "staging pool job volume_uuid = pool @ ''/bmac-restore/'' @ job @ ''/'' @ volume_uuid"

definition replaced :: "string \<Rightarrow> u32 \<Rightarrow> string \<Rightarrow> int \<Rightarrow> string" where
  "replaced pool vmid volume_uuid at_s =
     pool @ ''/bmac-replaced/'' @ show_uint vmid @ ''/'' @ volume_uuid @ ''-'' @ show_int at_s"

definition numbered_disk :: "u32 \<Rightarrow> nat \<Rightarrow> string" where
  "numbered_disk vmid n = ''vm-'' @ show_uint vmid @ ''-disk-'' @ show_nat n"

definition disk_name :: "u32 \<Rightarrow> string set \<Rightarrow> string option" where
  \<comment> \<open>the search over \<open>0..\<close>; one of the first \<open>card taken + 1\<close> names is unused, so it never
    goes further\<close>
  "disk_name vmid taken =
     find (\<lambda>name. name \<notin> taken) (map (numbered_disk vmid) [0..<card taken + 1])"













definition RECORD_SCHEMA :: u64 where
  "RECORD_SCHEMA = 1"

datatype attempt =
    AttemptCaptured (attempt_at_ms: int) (attempt_pit: uuid)
  | AttemptSkipped (attempt_at_ms: int)
  | AttemptFailed (attempt_at_ms: int) (attempt_message: string)

record lineage =
  lin_schema_version :: u64
  lin_record_type :: string
  lin_revision :: u64
  lin_vm_uuid :: uuid
  lin_branch_uuid :: uuid
  lin_head :: "uuid option"
  lin_volumes :: "(string, uuid) btree"
  lin_last_attempt :: "attempt option"

fun continued_volumes ::
    "(string \<Rightarrow> uuid option) \<Rightarrow> (string, string) btree \<Rightarrow> volume list \<Rightarrow> (string, uuid) btree
     \<Rightarrow> (string, (string, uuid) btree) result" where
  "continued_volumes parse_uuid datasets [] out = Ok out"
| "continued_volumes parse_uuid datasets (v # vs) out =
     and_then (ok_or (v_slot v @ '' has no restored dataset'') (bt_get datasets (v_slot v))) (\<lambda>dataset.
     and_then (ok_or (v_slot v @ CHR 0x27 # ''s volume ID isn't a UUID'') (parse_uuid (v_volume_uuid v))) (\<lambda>u.
       continued_volumes parse_uuid datasets vs (bt_insert dataset u out)))"

definition continued ::
    "(string \<Rightarrow> uuid option) \<Rightarrow> uuid \<Rightarrow> uuid \<Rightarrow> 'f manifest \<Rightarrow> (string, string) btree
     \<Rightarrow> (string, lineage) result" where
  "continued parse_uuid branch vm restored datasets =
     and_then (ok_or ''the manifest's PIT ID isn't a UUID'' (parse_uuid (mf_pit_uuid restored))) (\<lambda>pit.
     and_then (continued_volumes parse_uuid datasets (mf_volumes restored) bt_empty) (\<lambda>volumes.
       Ok \<lparr> lin_schema_version = RECORD_SCHEMA, lin_record_type = [], lin_revision = 0,
            lin_vm_uuid = vm, lin_branch_uuid = branch, lin_head = Some pit,
            lin_volumes = volumes, lin_last_attempt = None \<rparr>))"

subsection \<open>The cheapest method\<close>

definition in_pool :: "string \<Rightarrow> local_snapshot list \<Rightarrow> local_snapshot set" where
  "in_pool pool locals = {s \<in> set locals. pool_of (ls_name s) = pool}"

lemma bases_newest_first_props:
  "set (bases_newest_first bs) = set bs"
  "sorted_wrt (\<lambda>a b. (base_taken_s b, base_pit_uuid b) \<le> (base_taken_s a, base_pit_uuid a)) (bases_newest_first bs)"
proof -
  let ?k = "\<lambda>b. (base_taken_s b, base_pit_uuid b)"
  have "sorted (map ?k (sort_key ?k (rev bs)))" by (rule sorted_sort_key)
  then show "sorted_wrt (\<lambda>a b. ?k b \<le> ?k a) (bases_newest_first bs)"
    unfolding bases_newest_first_def sorted_wrt_rev by (simp only: sorted_wrt_map)
qed (simp add: bases_newest_first_def)

lemma choose_base_Full: "choose_base here bs = Full \<longleftrightarrow> (\<forall>b\<in>set bs. \<forall>s\<in>set here. ls_guid s \<noteq> base_guid b)"
  by (induction bs) (auto simp: find_None_iff dest!: find_SomeD split: option.splits)

lemma choose_base_not_Local: "choose_base here bs \<noteq> Local n"
  by (induction bs) (auto split: option.splits)

lemma choose_base_Incremental:
  assumes "choose_base here bs = Incremental n g p" and "sorted_wrt R bs"
  shows "\<exists>s\<in>set here. \<exists>b\<in>set bs. ls_name s = n \<and> ls_guid s = g \<and> base_guid b = g \<and> base_pit_uuid b = p
    \<and> (\<forall>c\<in>set bs. (\<exists>t\<in>set here. ls_guid t = base_guid c) \<longrightarrow> c = b \<or> R b c)"
  using assms
proof (induction bs)
  case (Cons b bs)
  show ?case
  proof (cases "find (\<lambda>s. ls_guid s = base_guid b) here")
    case None
    then have "\<forall>t\<in>set here. ls_guid t \<noteq> base_guid b" by (simp add: find_None_iff)
    moreover obtain s c where "s \<in> set here" "c \<in> set bs" "ls_name s = n" "ls_guid s = g"
        "base_guid c = g" "base_pit_uuid c = p"
        "\<forall>d\<in>set bs. (\<exists>t\<in>set here. ls_guid t = base_guid d) \<longrightarrow> d = c \<or> R c d"
      using None Cons by auto
    ultimately show ?thesis by (intro bexI [of _ s] bexI [of _ c]) auto
  next
    case (Some s)
    then have "s \<in> set here" "ls_guid s = base_guid b" by (auto dest: find_SomeD)
    with Some Cons.prems show ?thesis by auto
  qed
qed simp

text \<open>
  The method chosen for a volume is the cheapest there is. Its own snapshot is used exactly when
  one with its GUID is in the pool; otherwise the increment starts from the newest of the
  appliance's PITs (by time, then identifier) with a snapshot in the pool; a full stream is sent
  exactly when neither exists. Every snapshot that is named lies in the pool.
\<close>

lemma choose_method_cheapest:
  "(case choose_method v pool locals bases of
      Local n \<Rightarrow> (\<exists>s\<in>in_pool pool locals. ls_name s = n \<and> ls_guid s = v_snapshot_guid v)
    | Incremental n g p \<Rightarrow>
        (\<forall>s\<in>in_pool pool locals. ls_guid s \<noteq> v_snapshot_guid v)
        \<and> (\<exists>s\<in>in_pool pool locals. \<exists>b\<in>set bases. ls_name s = n \<and> ls_guid s = g \<and> base_guid b = g \<and> base_pit_uuid b = p
            \<and> (\<forall>c\<in>set bases. (\<exists>t\<in>in_pool pool locals. ls_guid t = base_guid c)
                \<longrightarrow> (base_taken_s c, base_pit_uuid c) \<le> (base_taken_s b, base_pit_uuid b)))
    | Full \<Rightarrow> (\<forall>s\<in>in_pool pool locals. ls_guid s \<noteq> v_snapshot_guid v \<and> (\<forall>b\<in>set bases. ls_guid s \<noteq> base_guid b)))"
proof -
  let ?here = "filter (\<lambda>s. pool_of (ls_name s) = pool) locals"
  have here: "set ?here = in_pool pool locals" by (auto simp: in_pool_def)
  show ?thesis
  proof (cases "find (\<lambda>s. ls_guid s = v_snapshot_guid v) ?here")
    case (Some s)
    then have "s \<in> in_pool pool locals" "ls_guid s = v_snapshot_guid v"
      unfolding here [symmetric] by (auto dest: find_SomeD)
    with Some show ?thesis by (auto simp: choose_method_def)
  next
    case None
    then have none: "\<forall>s\<in>in_pool pool locals. ls_guid s \<noteq> v_snapshot_guid v"
      using here by (simp add: find_None_iff del: set_filter)
    have c: "choose_method v pool locals bases = choose_base ?here (bases_newest_first bases)"
      using None by (simp add: choose_method_def)
    show ?thesis
    proof (cases "choose_base ?here (bases_newest_first bases)")
      case (Incremental n g p)
      from choose_base_Incremental [OF Incremental bases_newest_first_props(2), unfolded here bases_newest_first_props(1)]
      obtain s b where "s \<in> in_pool pool locals" "b \<in> set bases" "ls_name s = n" "ls_guid s = g"
          "base_guid b = g" "base_pit_uuid b = p"
          "\<forall>d\<in>set bases. (\<exists>t\<in>in_pool pool locals. ls_guid t = base_guid d)
            \<longrightarrow> d = b \<or> (base_taken_s d, base_pit_uuid d) \<le> (base_taken_s b, base_pit_uuid b)"
        by blast
      then show ?thesis
        unfolding c Incremental restore_method.case
        by (intro conjI none bexI [of _ s] bexI [of _ b]) auto
    next
      case Full
      with choose_base_Full [of ?here "bases_newest_first bases"] here none c
      show ?thesis by (auto simp: bases_newest_first_props(1) simp del: set_filter)
    qed (simp add: choose_base_not_Local)
  qed
qed

lemma choose_method_cheapest_witness:
  "let v = sample_volume; b = \<lparr> base_pit_uuid = 3, base_taken_s = 5, base_guid = SnapshotGuid 4 \<rparr>;
       s = \<lparr> ls_name = ''tank/x@a'', ls_guid = SnapshotGuid 4 \<rparr>
   in choose_method v ''tank'' [s] [b] = Incremental ''tank/x@a'' (SnapshotGuid 4) 3
      \<and> (\<forall>t\<in>in_pool ''tank'' [s]. ls_guid t \<noteq> SnapshotGuid 7)"
proof -
  let ?b = "\<lparr> base_pit_uuid = 3, base_taken_s = 5, base_guid = SnapshotGuid 4 \<rparr>"
  let ?s = "\<lparr> ls_name = ''tank/x@a'', ls_guid = SnapshotGuid 4 \<rparr>"
  have c: "choose_method sample_volume ''tank'' [?s] [?b] = Incremental ''tank/x@a'' (SnapshotGuid 4) 3"
    by (simp add: choose_method_def bases_newest_first_def pool_of_def sample_volume_def)
  from choose_method_cheapest [of "''tank''" "[?s]" sample_volume "[?b]", unfolded c] c
  show ?thesis by (simp add: Let_def sample_volume_def)
qed

subsection \<open>Names of restored disks\<close>

lemma numbered_disk_inj: "numbered_disk vmid m = numbered_disk vmid n \<longleftrightarrow> m = n"
  by (simp add: numbered_disk_def)

lemma find_map_upt:
  assumes "find P (map f [0..<k]) = Some x"
  shows "\<exists>n<k. x = f n \<and> P x \<and> (\<forall>i<n. \<not> P (f i))"
  using assms by (auto simp: find_Some_iff)

text \<open>
  C19: the search for a disk name always ends, with the first \<^verbatim>\<open>vm-<vmid>-disk-<n>\<close> that is not
  taken: however many names are taken, one of the first as many plus one is free.
\<close>

theorem disk_name_first_free:
  assumes "finite taken"
  shows "\<exists>n\<le>card taken. disk_name vmid taken = Some (numbered_disk vmid n)
    \<and> numbered_disk vmid n \<notin> taken \<and> (\<forall>i<n. numbered_disk vmid i \<in> taken)"
proof -
  let ?names = "map (numbered_disk vmid) [0..<card taken + 1]"
  have "distinct ?names" by (auto simp: distinct_map inj_on_def numbered_disk_inj)
  then have "card (set ?names) = card taken + 1" by (simp only: distinct_card length_map length_upt)
  then have "\<not> set ?names \<subseteq> taken"
    using card_mono [OF assms, of "set ?names"] by fastforce
  then have "find (\<lambda>name. name \<notin> taken) ?names \<noteq> None"
    unfolding find_None_iff by blast
  then obtain x where x: "find (\<lambda>name. name \<notin> taken) ?names = Some x" by blast
  from find_map_upt [OF this] x show ?thesis
    unfolding disk_name_def by (auto simp: less_Suc_eq_le)
qed

theorem disk_name_first_free_witness:
  "\<exists>n\<le>1. disk_name 100 {numbered_disk 100 0} = Some (numbered_disk 100 n) \<and> n \<noteq> 0"
  using disk_name_first_free [of "{numbered_disk 100 0}" 100] by fastforce

subsection \<open>The restored configuration\<close>




















subsection \<open>Backups continue from the restored PIT\<close>

lemma continued_volumes_Ok:
  assumes "continued_volumes parse_uuid datasets vs out = Ok res" and "bt_ok out"
  shows "bt_ok res \<and> (\<forall>d. bt_get res d =
      (case map_of (rev (map (\<lambda>v. (the (bt_get datasets (v_slot v)), the (parse_uuid (v_volume_uuid v)))) vs)) d of
         None \<Rightarrow> bt_get out d | Some u \<Rightarrow> Some u))
    \<and> (\<forall>v\<in>set vs. bt_get datasets (v_slot v) \<noteq> None \<and> parse_uuid (v_volume_uuid v) \<noteq> None)"
  using assms
proof (induction vs arbitrary: out)
  case (Cons v vs)
  then obtain d u where du: "bt_get datasets (v_slot v) = Some d" "parse_uuid (v_volume_uuid v) = Some u"
      and rest: "continued_volumes parse_uuid datasets vs (bt_insert d u out) = Ok res"
    by (auto simp: result_ops)
  from Cons.IH [OF rest bt_ok_insert [OF Cons.prems(2)]] du show ?case
    by (auto simp: map_add_def bt_get_insert split: option.splits)
qed simp

text \<open>
  Backups that continue after a restore start a new branch whose parent is the restored PIT, and
  each restored dataset keeps the identifier of the volume it was restored from, as long as no two
  slots were restored to one dataset.
\<close>

lemma continued_keeps_volumes:
  assumes "continued parse_uuid branch vm m datasets = Ok l"
    and "inj_on (\<lambda>v. bt_get datasets (v_slot v)) (set (mf_volumes m))"
    and "v \<in> set (mf_volumes m)"
  shows "lin_branch_uuid l = branch \<and> lin_vm_uuid l = vm \<and> lin_head l = parse_uuid (mf_pit_uuid m)
    \<and> (\<exists>d. bt_get datasets (v_slot v) = Some d
          \<and> bt_get (lin_volumes l) d = parse_uuid (v_volume_uuid v))"
proof -
  obtain pit vols where parts: "parse_uuid (mf_pit_uuid m) = Some pit"
      "continued_volumes parse_uuid datasets (mf_volumes m) bt_empty = Ok vols"
    and l: "l = \<lparr> lin_schema_version = RECORD_SCHEMA, lin_record_type = [], lin_revision = 0,
            lin_vm_uuid = vm, lin_branch_uuid = branch, lin_head = Some pit,
            lin_volumes = vols, lin_last_attempt = None \<rparr>"
    using assms(1) by (auto simp: continued_def result_ops)
  note ok = continued_volumes_Ok [OF parts(2) bt_ok_empty]
  obtain d u where du: "bt_get datasets (v_slot v) = Some d" "parse_uuid (v_volume_uuid v) = Some u"
    using ok assms(3) by blast
  let ?es = "rev (map (\<lambda>v. (the (bt_get datasets (v_slot v)), the (parse_uuid (v_volume_uuid v)))) (mf_volumes m))"
  have "(d, u) \<in> set ?es" using du assms(3) by force
  moreover have "u' = u" if "(d, u') \<in> set ?es" for u'
  proof -
    from that obtain w where w: "w \<in> set (mf_volumes m)" "d = the (bt_get datasets (v_slot w))"
        "u' = the (parse_uuid (v_volume_uuid w))" by auto
    then have "bt_get datasets (v_slot w) = bt_get datasets (v_slot v)"
      using ok du(1) by (metis option.collapse)
    from inj_onD [OF assms(2) this w(1) assms(3)] have "w = v" .
    with w du show ?thesis by simp
  qed
  ultimately have "map_of ?es d = Some u"
    using weak_map_of_SomeI [of d u ?es] map_of_SomeD [of ?es d] by blast
  moreover have "bt_get vols d = (case map_of ?es d of None \<Rightarrow> bt_get bt_empty d | Some u \<Rightarrow> Some u)"
    using ok by blast
  ultimately have "bt_get vols d = Some u" by simp
  with du parts(1) l show ?thesis by simp
qed

lemma continued_keeps_volumes_witness:
  "\<exists>l. continued (\<lambda>s. Some (of_nat (length s))) 9 8 (sample_manifest (\<lambda>_. []) JNull)
      [(''scsi0'', ''tank/data/vm-100-disk-0'')] = Ok l
     \<and> bt_get (lin_volumes l) ''tank/data/vm-100-disk-0'' = Some 1"
proof -
  let ?m = "sample_manifest (\<lambda>_. []) JNull"
  let ?d = "[(''scsi0'', ''tank/data/vm-100-disk-0'')]"
  let ?p = "\<lambda>s. Some (of_nat (length s) :: uuid)"
  have v: "mf_volumes ?m = [sample_volume]" by (simp add: sample_manifest_def)
  have "\<exists>l. continued ?p 9 8 ?m ?d = Ok l"
    by (simp add: continued_def v sample_volume_def bt_get_def)
  then obtain l where l: "continued ?p 9 8 ?m ?d = Ok l" by blast
  have "inj_on (\<lambda>v. bt_get ?d (v_slot v)) (set (mf_volumes ?m))" by (simp add: v)
  from continued_keeps_volumes [OF l this, of sample_volume] l v show ?thesis
    by (auto simp: sample_volume_def bt_get_def)
qed

end
