(* ===== verification/Registry_State.thy ===== *)
theory Registry_State
  imports Backup_Json
begin

section \<open>States of guests and their transitions\<close>

text \<open>
  Models src/v3/crates/bmac-registry/src/state.rs. The \<^verbatim>\<open>text_enum!\<close> macro makes an enum with
  a list of its variants, the text of each and the variant of a text; the locale below is its
  contract, and every enum of the file is an interpretation. A guest's life is the step relation of
  \<^verbatim>\<open>ResourceState::next\<close>.
\<close>

definition enum_from_text :: "'a list \<Rightarrow> ('a \<Rightarrow> string) \<Rightarrow> string \<Rightarrow> 'a option" where
  \<comment> \<open>the match over the texts, in the order of the variants\<close>
  "enum_from_text variants as_str s = find (\<lambda>v. as_str v = s) variants"

locale text_enum =
  fixes variants :: "'a list" and as_str :: "'a \<Rightarrow> string"
  assumes complete: "v \<in> set variants"
    and texts_distinct: "distinct (map as_str variants)"
begin

lemma as_str_inj: "as_str v = as_str w \<Longrightarrow> v = w"
  using texts_distinct complete by (auto simp: distinct_map dest: inj_onD)

lemma from_text_iff: "enum_from_text variants as_str s = Some v \<longleftrightarrow> as_str v = s"
proof
  assume "enum_from_text variants as_str s = Some v"
  then show "as_str v = s" by (auto simp: enum_from_text_def dest: find_SomeD)
next
  assume s: "as_str v = s"
  then have "find (\<lambda>v. as_str v = s) variants \<noteq> None" using complete by (auto simp: find_None_iff)
  then obtain w where w: "find (\<lambda>v. as_str v = s) variants = Some w" by blast
  then have "as_str w = s" by (auto dest: find_SomeD)
  with s have "w = v" by (simp add: as_str_inj)
  with w show "enum_from_text variants as_str s = Some v" by (simp add: enum_from_text_def)
qed

end

sublocale text_enum \<subseteq> exact_text_form "\<lambda>s. ok_or () (enum_from_text variants as_str s)" as_str "\<lambda>_. True"
  by unfold_locales (simp_all add: ok_or_Ok_iff from_text_iff)

datatype kind = KindProduction | KindStaging

datatype resource_state =
    Reserved | Provisioning | Snapshotting | Replicating | Cloning | Patching
  | Stopped | Ready | Active | Stopping | CleanupPending | StateFailed

definition resource_state_all :: "resource_state list" where
  "resource_state_all = [Reserved, Provisioning, Snapshotting, Replicating, Cloning, Patching,
     Stopped, Ready, Active, Stopping, CleanupPending, StateFailed]"

fun resource_state_str :: "resource_state \<Rightarrow> string" where
  "resource_state_str Reserved = ''reserved''"
| "resource_state_str Provisioning = ''provisioning''"
| "resource_state_str Snapshotting = ''snapshotting''"
| "resource_state_str Replicating = ''replicating''"
| "resource_state_str Cloning = ''cloning''"
| "resource_state_str Patching = ''patching''"
| "resource_state_str Stopped = ''stopped''"
| "resource_state_str Ready = ''ready''"
| "resource_state_str Active = ''active''"
| "resource_state_str Stopping = ''stopping''"
| "resource_state_str CleanupPending = ''cleanup_pending''"
| "resource_state_str StateFailed = ''failed''"

fun state_next :: "resource_state \<Rightarrow> kind \<Rightarrow> resource_state list" where
  "state_next Reserved KindProduction = [Provisioning, StateFailed, CleanupPending]"
| "state_next Provisioning KindProduction = [Stopped, Replicating, StateFailed, CleanupPending]"
| "state_next Replicating KindProduction = [Stopped, Ready, StateFailed, CleanupPending]"
| "state_next Stopped KindProduction =
     [Provisioning, Replicating, Ready, Active, StateFailed, CleanupPending]"
| "state_next Ready KindProduction = [Active, Stopped, StateFailed, CleanupPending]"
| "state_next Active KindProduction = [Stopping, Stopped, StateFailed]"
| "state_next Stopping KindProduction = [Stopped, StateFailed, CleanupPending]"
| "state_next StateFailed KindProduction = [Provisioning, Stopped, CleanupPending]"
| "state_next CleanupPending KindProduction = [StateFailed]"
| "state_next Snapshotting KindProduction = []"
| "state_next Cloning KindProduction = []"
| "state_next Patching KindProduction = []"
| "state_next Reserved KindStaging = [Snapshotting, Cloning, StateFailed, CleanupPending]"
| "state_next Snapshotting KindStaging = [Replicating, Cloning, StateFailed, CleanupPending]"
| "state_next Replicating KindStaging = [Cloning, StateFailed, CleanupPending]"
| "state_next Cloning KindStaging = [Patching, StateFailed, CleanupPending]"
| "state_next Patching KindStaging = [Stopped, Ready, StateFailed, CleanupPending]"
| "state_next Stopped KindStaging = [Ready, Active, StateFailed, CleanupPending]"
| "state_next Ready KindStaging = [Active, Stopped, StateFailed, CleanupPending]"
| "state_next Active KindStaging = [Stopping, Stopped, StateFailed]"
| "state_next Stopping KindStaging = [Stopped, StateFailed, CleanupPending]"
| "state_next StateFailed KindStaging = [Snapshotting, Cloning, Patching, Stopped, CleanupPending]"
| "state_next CleanupPending KindStaging = [StateFailed]"
| "state_next Provisioning KindStaging = []"



definition kind_transitions :: "kind \<Rightarrow> (string \<times> string list) list" where
  "kind_transitions k =
     sort (map (\<lambda>s. (resource_state_str s, sort (map resource_state_str (state_next s k))))
       (filter (\<lambda>s. state_next s k \<noteq> []) resource_state_all))"

definition state_transitions_json :: "'f json" where
  "state_transitions_json = JObject
     (map (\<lambda>(k, name). (name, JObject (map (\<lambda>(s, n). (s, JArray (map JString n))) (kind_transitions k))))
       [(KindProduction, ''production''), (KindStaging, ''staging'')])"

subsection \<open>The other enums\<close>

datatype install_phase =
    PhaseUnknown | Unstarted | MediaAttached | InstallerStarted | InstalledConfirmed | GuestVerified
  | NetworkFinalized

definition install_phase_all :: "install_phase list" where
  "install_phase_all = [PhaseUnknown, Unstarted, MediaAttached, InstallerStarted,
     InstalledConfirmed, GuestVerified, NetworkFinalized]"

fun install_phase_str :: "install_phase \<Rightarrow> string" where
  "install_phase_str PhaseUnknown = ''unknown''"
| "install_phase_str Unstarted = ''unstarted''"
| "install_phase_str MediaAttached = ''media-attached''"
| "install_phase_str InstallerStarted = ''installer-started''"
| "install_phase_str InstalledConfirmed = ''installed-confirmed''"
| "install_phase_str GuestVerified = ''guest-verified''"
| "install_phase_str NetworkFinalized = ''network-finalized''"

fun phase_next :: "install_phase \<Rightarrow> install_phase list" where
  "phase_next PhaseUnknown = [MediaAttached, InstalledConfirmed]"
| "phase_next Unstarted = [MediaAttached, InstalledConfirmed]"
| "phase_next MediaAttached = [InstallerStarted]"
| "phase_next InstallerStarted = [MediaAttached, InstalledConfirmed]"
| "phase_next InstalledConfirmed = [GuestVerified]"
| "phase_next GuestVerified = [NetworkFinalized]"
| "phase_next NetworkFinalized = []"

datatype install_mode = UbuntuAutoinstall | Manual

fun install_mode_str :: "install_mode \<Rightarrow> string" where
  "install_mode_str UbuntuAutoinstall = ''ubuntu-autoinstall''"
| "install_mode_str Manual = ''manual''"

datatype host_slot_state = Joining | Member

fun host_slot_state_str :: "host_slot_state \<Rightarrow> string" where
  "host_slot_state_str Joining = ''joining''"
| "host_slot_state_str Member = ''member''"

datatype ingress_node_state = IngressPending | Staged | Applied | RejectOnly

fun ingress_node_state_str :: "ingress_node_state \<Rightarrow> string" where
  "ingress_node_state_str IngressPending = ''pending''"
| "ingress_node_state_str Staged = ''staged''"
| "ingress_node_state_str Applied = ''applied''"
| "ingress_node_state_str RejectOnly = ''reject-only''"

datatype cleanup_action = DeleteSnapshot | DestroyVm | DestroyVolume | RemoveReplication | RemoveRoute

fun cleanup_action_str :: "cleanup_action \<Rightarrow> string" where
  "cleanup_action_str DeleteSnapshot = ''delete-snapshot''"
| "cleanup_action_str DestroyVm = ''destroy-vm''"
| "cleanup_action_str DestroyVolume = ''destroy-volume''"
| "cleanup_action_str RemoveReplication = ''remove-replication''"
| "cleanup_action_str RemoveRoute = ''remove-route''"

datatype cleanup_state = CleanupWaiting | CleanupCompleted

fun cleanup_state_str :: "cleanup_state \<Rightarrow> string" where
  "cleanup_state_str CleanupWaiting = ''pending''"
| "cleanup_state_str CleanupCompleted = ''completed''"

interpretation resource_state: text_enum resource_state_all resource_state_str
  by (unfold_locales, case_tac v) (simp_all add: resource_state_all_def)

interpretation install_phase: text_enum install_phase_all install_phase_str
  by (unfold_locales, case_tac v) (simp_all add: install_phase_all_def)

interpretation install_mode: text_enum "[UbuntuAutoinstall, Manual]" install_mode_str
  by (unfold_locales, case_tac v) simp_all

interpretation host_slot_state: text_enum "[Joining, Member]" host_slot_state_str
  by (unfold_locales, case_tac v) simp_all

interpretation ingress_node_state: text_enum "[IngressPending, Staged, Applied, RejectOnly]"
    ingress_node_state_str
  by (unfold_locales, case_tac v) simp_all

interpretation cleanup_action: text_enum
    "[DeleteSnapshot, DestroyVm, DestroyVolume, RemoveReplication, RemoveRoute]" cleanup_action_str
  by (unfold_locales, case_tac v) simp_all

interpretation cleanup_state: text_enum "[CleanupWaiting, CleanupCompleted]" cleanup_state_str
  by (unfold_locales, case_tac v) simp_all

subsection \<open>The life of a guest\<close>

inductive guest_step :: "kind \<Rightarrow> resource_state \<Rightarrow> resource_state \<Rightarrow> bool" for k where
  guest_stepI: "t \<in> set (state_next s k) \<Longrightarrow> guest_step k s t"

inductive_simps guest_step_iff: "guest_step k s t"


definition foreign :: "kind \<Rightarrow> resource_state set" where
  \<comment> \<open>the states that are not of the kind\<close>
  "foreign k = (case k of KindProduction \<Rightarrow> {Snapshotting, Cloning, Patching} | KindStaging \<Rightarrow> {Provisioning})"

lemma not_foreign_step: "guest_step k s t \<Longrightarrow> t \<notin> foreign k"
  by (cases k; cases s) (auto simp: guest_step_iff foreign_def)

interpretation guest: state_machine Reserved "guest_step k" "\<lambda>s. s \<notin> foreign k" for k
proof unfold_locales
  show "Reserved \<notin> foreign k" by (cases k) (simp_all add: foreign_def)
qed (rule not_foreign_step)







end
