(* ===== verification/Registry_Resources.thy ===== *)
theory Registry_Resources
  imports Registry_State Core_Ids Rust_BTree
begin

section \<open>The registry's invariants across guests\<close>

text \<open>
  Models the records and \<^verbatim>\<open>validate_registry_invariants\<close> of
  src/v3/crates/bmac-registry/src/resource.rs, and the spec record of policy.rs. A
  \<^verbatim>\<open>HashMap\<close> that is only inserted into and looked up is an ordered map of the prelude; an
  IPv4 address is its 32 bits. Messages keep the names and values they are formatted from, in the
  constructors of \<open>registry_error\<close>.
\<close>

datatype disk_allocation = Sparse | DiskReserved

record guest_spec =
  spec_cores :: u32
  spec_memory_mb :: u64
  spec_disk_gib :: u64
  spec_disk_allocation :: disk_allocation
  spec_replication_interval :: u32
  spec_storage :: string
  spec_disk_bytes :: "u64 option"

record purpose =
  pu_slug :: string
  pu_source_resource :: "guest_name option"

record domains =
  dom_primary :: string
  dom_aliases :: "string list"
  dom_staging_base :: string

record snapshot =
  sn_name :: string
  sn_owner_node :: host_slot
  sn_guids :: "(host_slot, string) btree"
  sn_source_resource :: "guest_name option"
  sn_source_volume_id :: "string option"
  sn_source_volume_ids :: "string list option"
  sn_volume_guids :: "(string, (host_slot, string) btree) btree option"
  sn_verified :: "bool option"
  sn_dependent_resources :: "guest_name list option"
  sn_refcount :: "u32 option"

record proxmox_meta =
  px_ha_nodes :: "host_slot list"
  px_replication_targets :: "host_slot list"
  px_volume_id :: "string option"
  px_snapshot :: "snapshot option"

record resource =
  res_schema_version :: u64
  res_record_type :: string
  res_id :: string
  res_allocation_id :: "string option"
  res_request_fingerprint :: string
  res_kind :: kind
  res_name :: guest_name
  res_index :: u32
  res_source :: "guest_name option"
  res_vmid :: vmid
  res_ip :: u32
  res_mac :: string
  res_state :: resource_state
  res_purpose :: purpose
  res_domains :: domains
  res_placement :: "host_slot list"
  res_initial_node :: host_slot
  res_owner_node :: "host_slot option"
  res_routes_enabled :: bool
  res_spec :: guest_spec
  res_proxmox :: proxmox_meta
  res_created_at :: string
  res_updated_at :: string
  res_revision :: u64

definition MAX_ROUTES :: nat where
  "MAX_ROUTES = 4096"

definition GIB_BYTES :: u64 where
  "GIB_BYTES = 1024 * 1024 * 1024"

definition effective_disk_bytes :: "guest_spec \<Rightarrow> u64" where
  "effective_disk_bytes s = unwrap_or (spec_disk_gib s * GIB_BYTES) (spec_disk_bytes s)"

fun sort_key_of :: "guest_name \<Rightarrow> u8 \<times> u32 \<times> string" where
  "sort_key_of (Production n) = (0, n, guest_name_display (Production n))"
| "sort_key_of (Staging n m) = (1, n, guest_name_display (Staging n m))"

definition resource_sort_key :: "resource \<Rightarrow> u8 \<times> u32 \<times> string" where
  "resource_sort_key r = sort_key_of (res_name r)"

datatype registry_error =
    Duplicate (dup_what: string) (dup_value: string) (dup_prior: string) (dup_name: string)
  | RouteLimit
  | MissingSource string string
  | SourceNotProduction string
  | SnapshotSource
  | SnapshotVolume
  | SnapshotOwner
  | VolumeWithoutStorage
  | GuidsNotCovering
  | VolumeGuidsNotCovering string
  | UnverifiedInState
  | SharedUnverified string string string
  | SharedDiffers string string string

subsection \<open>Unique identities\<close>

record identities =
  id_names :: "(string, string) btree"
  id_vmids :: "(u32, string) btree"
  id_ips :: "(u32, string) btree"
  id_macs :: "(string, string) btree"
  id_domains :: "(string, string) btree"
  id_allocations :: "(string, string) btree"
  id_purposes :: "(string, string) btree"
  id_by_name :: "(guest_name, resource) btree"

definition no_identities :: identities where
  "no_identities = \<lparr> id_names = bt_empty, id_vmids = bt_empty, id_ips = bt_empty, id_macs = bt_empty,
     id_domains = bt_empty, id_allocations = bt_empty, id_purposes = bt_empty, id_by_name = bt_empty \<rparr>"

definition claim ::
    "string \<Rightarrow> ('k \<Rightarrow> string) \<Rightarrow> 'k::linorder \<Rightarrow> string \<Rightarrow> ('k, string) btree
     \<Rightarrow> (registry_error, ('k, string) btree) result" where
  \<comment> \<open>\<open>if let Some(prior) = map.insert(key, name) \<close> fails\<close>
  "claim what shown key name m =
     (case bt_get m key of
        Some prior \<Rightarrow> Err (Duplicate what (shown key) prior name)
      | None \<Rightarrow> Ok (bt_insert key name m))"

fun claim_all ::
    "string \<Rightarrow> string list \<Rightarrow> string \<Rightarrow> (string, string) btree \<Rightarrow> (registry_error, (string, string) btree) result" where
  "claim_all what [] name m = Ok m"
| "claim_all what (k # ks) name m =
     and_then (claim what (\<lambda>s. s) k name m) (claim_all what ks name)"

definition route_domains :: "resource \<Rightarrow> string list" where
  "route_domains r = dom_primary (res_domains r) # dom_aliases (res_domains r)"

definition claim_identities ::
    "(u32 \<Rightarrow> string) \<Rightarrow> resource \<Rightarrow> identities \<Rightarrow> (registry_error, identities) result" where
  \<comment> \<open>\<open>show_ip\<close> is how an address is displayed\<close>
  "claim_identities show_ip r i =
     (let name = guest_name_display (res_name r) in
      and_then (claim ''name'' (\<lambda>s. s) name name (id_names i)) (\<lambda>names.
      and_then (claim ''vmid'' show_uint (vmid_get (res_vmid r)) name (id_vmids i)) (\<lambda>vmids.
      and_then (claim ''ip'' show_ip (res_ip r) name (id_ips i)) (\<lambda>ips.
      and_then (claim ''mac'' (\<lambda>s. s) (res_mac r) name (id_macs i)) (\<lambda>macs.
      and_then (case res_allocation_id r of
          None \<Rightarrow> Ok (id_allocations i)
        | Some a \<Rightarrow> claim ''allocation id'' (\<lambda>s. s) a name (id_allocations i)) (\<lambda>allocations.
      and_then (if res_kind r = KindProduction
          then claim ''production purpose'' (\<lambda>s. s) (pu_slug (res_purpose r)) name (id_purposes i)
          else Ok (id_purposes i)) (\<lambda>purposes.
      and_then (claim_all ''domain'' (route_domains r) name (id_domains i)) (\<lambda>domains.
        Ok \<lparr> id_names = names, id_vmids = vmids, id_ips = ips, id_macs = macs, id_domains = domains,
             id_allocations = allocations, id_purposes = purposes,
             id_by_name = bt_insert (res_name r) r (id_by_name i) \<rparr>))))))))"

subsection \<open>Staging guests and their snapshots\<close>

definition shared_identity :: "snapshot \<Rightarrow> snapshot" where
  "shared_identity s = s\<lparr>sn_dependent_resources := None, sn_refcount := None\<rparr>"

definition is_verified :: "snapshot \<Rightarrow> bool" where
  "is_verified s = (sn_verified s = Some True)"

definition bt_key_set :: "('k, 'v) btree \<Rightarrow> 'k set" where
  "bt_key_set m = set (bt_keys m)"

definition check_snapshot :: "resource \<Rightarrow> resource \<Rightarrow> snapshot \<Rightarrow> (registry_error, unit) result" where
  \<comment> \<open>a staging guest's snapshot against its production source\<close>
  "check_snapshot r source s =
     (if sn_source_resource s \<noteq> Some (res_name source) then Err SnapshotSource
      else if sn_source_volume_id s \<noteq> px_volume_id (res_proxmox source) then Err SnapshotVolume
      else if sn_owner_node s \<notin> set (res_placement source) then Err SnapshotOwner
      else if list_ex (\<lambda>v. hd (split_on (CHR '':'') v) = []) (unwrap_or [] (sn_source_volume_ids s))
      then Err VolumeWithoutStorage
      else if is_verified s then
        (if bt_key_set (sn_guids s) \<noteq> set (res_placement source) then Err GuidsNotCovering
         else case find (\<lambda>(v, g). bt_key_set g \<noteq> set (res_placement source))
                (unwrap_or [] (sn_volume_guids s)) of
             Some (v, _) \<Rightarrow> Err (VolumeGuidsNotCovering v)
           | None \<Rightarrow> Ok ())
      else if res_state r \<notin> {Snapshotting, Replicating, CleanupPending, StateFailed}
      then Err UnverifiedInState
      else Ok ())"

type_synonym snapshot_claims = "(guest_name \<times> string, guest_name) btree"

definition claim_snapshot ::
    "(guest_name, resource) btree \<Rightarrow> resource \<Rightarrow> guest_name \<Rightarrow> snapshot \<Rightarrow> snapshot_claims
     \<Rightarrow> (registry_error, snapshot_claims) result option" where
  \<comment> \<open>\<open>None\<close> is the panic of \<open>expect\<close> on a recorded guest without a snapshot\<close>
  "claim_snapshot by_name r source s claims =
     (case bt_get claims (source, sn_name s) of
        None \<Rightarrow> Some (Ok (bt_insert (source, sn_name s) (res_name r) claims))
      | Some prior \<Rightarrow>
          Option.bind (bt_get by_name prior) (\<lambda>p.
          map_option (\<lambda>ps.
            if \<not> (is_verified s \<and> is_verified ps)
            then Err (SharedUnverified (sn_name s) (guest_name_display prior) (guest_name_display (res_name r)))
            else if shared_identity s \<noteq> shared_identity ps
            then Err (SharedDiffers (sn_name s) (guest_name_display prior) (guest_name_display (res_name r)))
            else Ok claims)
          (px_snapshot (res_proxmox p))))"

definition check_staging ::
    "(guest_name, resource) btree \<Rightarrow> resource \<Rightarrow> snapshot_claims \<Rightarrow> (registry_error, snapshot_claims) result option" where
  "check_staging by_name r claims =
     (if res_kind r \<noteq> KindStaging then Some (Ok claims)
      else case Option.bind (res_source r) (bt_get by_name) of
          None \<Rightarrow> Some (Err (MissingSource (guest_name_display (res_name r))
                     (unwrap_or [] (map_option guest_name_display (res_source r)))))
        | Some source \<Rightarrow>
            if res_kind source \<noteq> KindProduction
            then Some (Err (SourceNotProduction (guest_name_display (res_name r))))
            else case px_snapshot (res_proxmox r) of
                None \<Rightarrow> Some (Ok claims)
              | Some s \<Rightarrow>
                  (case check_snapshot r source s of
                     Err e \<Rightarrow> Some (Err e)
                   | Ok _ \<Rightarrow> claim_snapshot by_name r (res_name source) s claims))"

fun check_all_staging ::
    "(guest_name, resource) btree \<Rightarrow> resource list \<Rightarrow> snapshot_claims \<Rightarrow> (registry_error, unit) result option" where
  "check_all_staging by_name [] claims = Some (Ok ())"
| "check_all_staging by_name (r # rs) claims =
     Option.bind (check_staging by_name r claims) (\<lambda>res. case res of
         Err e \<Rightarrow> Some (Err e)
       | Ok claims' \<Rightarrow> check_all_staging by_name rs claims')"

definition validate_registry_invariants ::
    "(u32 \<Rightarrow> string) \<Rightarrow> resource list \<Rightarrow> (registry_error, unit) result option" where
  "validate_registry_invariants show_ip rs =
     (case try_fold (claim_identities show_ip) rs no_identities of
        Err e \<Rightarrow> Some (Err e)
      | Ok i \<Rightarrow>
          if MAX_ROUTES < length (id_domains i) then Some (Err RouteLimit)
          else check_all_staging (id_by_name i) rs bt_empty)"

subsection \<open>Which registries have unique identities\<close>

definition named_keys :: "(resource \<Rightarrow> 'k list) \<Rightarrow> resource \<Rightarrow> ('k \<times> string) list" where
  "named_keys f r = map (\<lambda>k. (k, guest_name_display (res_name r))) (f r)"

definition claimed :: "('k::linorder \<times> string) list \<Rightarrow> ('k, string) btree \<Rightarrow> ('k, string) btree \<Rightarrow> bool" where
  \<comment> \<open>the keys are new to the map and to each other, and have been added\<close>
  "claimed ps m m' = (distinct (map fst ps) \<and> set (map fst ps) \<inter> bt_key_set m = {}
     \<and> m' = fold (\<lambda>(k, v). bt_insert k v) ps m)"

lemma key_set_insert [simp]: "bt_key_set (bt_insert k v m) = insert k (bt_key_set m)"
  using set_bt_insert_keys [of k v m] by (simp add: bt_key_set_def bt_keys_def)

lemma key_set_fold: "bt_key_set (fold (\<lambda>(k, v). bt_insert k v) ps m) = bt_key_set m \<union> set (map fst ps)"
  by (induction ps arbitrary: m) auto

lemma get_None_iff: "bt_get m k = None \<longleftrightarrow> k \<notin> bt_key_set m"
  using bt_keys_iff [of k m] by (simp add: bt_key_set_def bt_contains_key_def)

lemma claimed_Nil [simp]: "claimed [] m m' \<longleftrightarrow> m' = m"
  by (simp add: claimed_def)

lemma claimed_append: "claimed (ps @ qs) m m'' \<longleftrightarrow> (\<exists>m'. claimed ps m m' \<and> claimed qs m' m'')"
  by (auto simp: claimed_def key_set_fold)

lemma claim_Ok_iff: "claim what sh k name m = Ok m' \<longleftrightarrow> claimed [(k, name)] m m'"
  by (auto simp: claim_def claimed_def get_None_iff [symmetric] split: option.splits)

lemma claim_all_Ok_iff: "claim_all what ks name m = Ok m' \<longleftrightarrow> claimed (map (\<lambda>k. (k, name)) ks) m m'"
proof (induction ks arbitrary: m)
  case (Cons k ks)
  have "map (\<lambda>k. (k, name)) (k # ks) = [(k, name)] @ map (\<lambda>k. (k, name)) ks" by simp
  then show ?case by (simp only: claim_all.simps and_then_Ok_iff claim_Ok_iff Cons.IH claimed_append)
qed auto

definition alloc_keys :: "resource \<Rightarrow> string list" where
  "alloc_keys r = (case res_allocation_id r of None \<Rightarrow> [] | Some a \<Rightarrow> [a])"

definition purpose_keys :: "resource \<Rightarrow> string list" where
  "purpose_keys r = (if res_kind r = KindProduction then [pu_slug (res_purpose r)] else [])"

definition name_keys :: "resource \<Rightarrow> string list" where
  "name_keys r = [guest_name_display (res_name r)]"

definition add_by_name :: "resource \<Rightarrow> (guest_name, resource) btree \<Rightarrow> (guest_name, resource) btree" where
  "add_by_name r = bt_insert (res_name r) r"

definition identities_rel :: "resource list \<Rightarrow> identities \<Rightarrow> identities \<Rightarrow> bool" where
  "identities_rel rs i j =
     (claimed (concat (map (named_keys name_keys) rs)) (id_names i) (id_names j)
      \<and> claimed (concat (map (named_keys (\<lambda>r. [vmid_get (res_vmid r)])) rs)) (id_vmids i) (id_vmids j)
      \<and> claimed (concat (map (named_keys (\<lambda>r. [res_ip r])) rs)) (id_ips i) (id_ips j)
      \<and> claimed (concat (map (named_keys (\<lambda>r. [res_mac r])) rs)) (id_macs i) (id_macs j)
      \<and> claimed (concat (map (named_keys alloc_keys) rs)) (id_allocations i) (id_allocations j)
      \<and> claimed (concat (map (named_keys purpose_keys) rs)) (id_purposes i) (id_purposes j)
      \<and> claimed (concat (map (named_keys route_domains) rs)) (id_domains i) (id_domains j)
      \<and> id_by_name j = fold add_by_name rs (id_by_name i))"

lemma claim_identities_Ok_iff: "claim_identities sh r i = Ok j \<longleftrightarrow> identities_rel [r] i j"
proof -
  have alloc: "(case res_allocation_id r of None \<Rightarrow> Ok (id_allocations i)
      | Some a \<Rightarrow> claim w s a name (id_allocations i)) = Ok m
      \<longleftrightarrow> claimed (map (\<lambda>k. (k, name)) (alloc_keys r)) (id_allocations i) m" for w s name m
    by (auto simp: alloc_keys_def claim_Ok_iff split: option.splits)
  have purpose: "(if res_kind r = KindProduction then claim w s (pu_slug (res_purpose r)) name (id_purposes i)
      else Ok (id_purposes i)) = Ok m
      \<longleftrightarrow> claimed (map (\<lambda>k. (k, name)) (purpose_keys r)) (id_purposes i) m" for w s name m
    by (auto simp: purpose_keys_def claim_Ok_iff)
  show ?thesis
    unfolding claim_identities_def Let_def and_then_Ok_iff alloc purpose claim_Ok_iff claim_all_Ok_iff
    by (cases j) (auto simp: identities_rel_def named_keys_def name_keys_def add_by_name_def)
qed

lemma identities_rel_Cons:
  "identities_rel (r # rs) i k \<longleftrightarrow> (\<exists>j. identities_rel [r] i j \<and> identities_rel rs j k)"
proof
  assume a: "identities_rel (r # rs) i k"
  then obtain n v p m a u d where
    "claimed (named_keys name_keys r) (id_names i) n"
    "claimed (concat (map (named_keys name_keys) rs)) n (id_names k)"
    "claimed (named_keys (\<lambda>r. [vmid_get (res_vmid r)]) r) (id_vmids i) v"
    "claimed (concat (map (named_keys (\<lambda>r. [vmid_get (res_vmid r)])) rs)) v (id_vmids k)"
    "claimed (named_keys (\<lambda>r. [res_ip r]) r) (id_ips i) p"
    "claimed (concat (map (named_keys (\<lambda>r. [res_ip r])) rs)) p (id_ips k)"
    "claimed (named_keys (\<lambda>r. [res_mac r]) r) (id_macs i) m"
    "claimed (concat (map (named_keys (\<lambda>r. [res_mac r])) rs)) m (id_macs k)"
    "claimed (named_keys alloc_keys r) (id_allocations i) a"
    "claimed (concat (map (named_keys alloc_keys) rs)) a (id_allocations k)"
    "claimed (named_keys purpose_keys r) (id_purposes i) u"
    "claimed (concat (map (named_keys purpose_keys) rs)) u (id_purposes k)"
    "claimed (named_keys route_domains r) (id_domains i) d"
    "claimed (concat (map (named_keys route_domains) rs)) d (id_domains k)"
    by (auto simp: identities_rel_def claimed_append)
  then show "\<exists>j. identities_rel [r] i j \<and> identities_rel rs j k"
    using a
    by (intro exI [of _ "\<lparr> id_names = n, id_vmids = v, id_ips = p, id_macs = m, id_domains = d,
        id_allocations = a, id_purposes = u, id_by_name = add_by_name r (id_by_name i) \<rparr>"])
      (simp add: identities_rel_def)
qed (auto simp: identities_rel_def claimed_append)

lemma try_fold_identities: "try_fold (claim_identities sh) rs i = Ok j \<longleftrightarrow> identities_rel rs i j"
proof (induction rs arbitrary: i)
  case Nil
  show ?case by (cases i; cases j) (auto simp: identities_rel_def)
next
  case (Cons r rs)
  show ?case
    by (simp only: try_fold.simps and_then_Ok_iff claim_identities_Ok_iff Cons.IH
        identities_rel_Cons [of r rs i j])
qed

definition unique_over :: "(resource \<Rightarrow> 'k list) \<Rightarrow> resource list \<Rightarrow> bool" where
  "unique_over f rs = distinct (concat (map f rs))"

definition identities_unique :: "resource list \<Rightarrow> bool" where
  \<comment> \<open>no two guests share a name, a VMID, an address, a MAC, an allocation, a production purpose or
    a routed domain\<close>
  "identities_unique rs =
     (unique_over name_keys rs \<and> unique_over (\<lambda>r. [vmid_get (res_vmid r)]) rs
      \<and> unique_over (\<lambda>r. [res_ip r]) rs \<and> unique_over (\<lambda>r. [res_mac r]) rs
      \<and> unique_over alloc_keys rs \<and> unique_over purpose_keys rs \<and> unique_over route_domains rs)"

lemma fst_named: "map fst (concat (map (named_keys f) rs)) = concat (map f rs)"
  by (induction rs) (simp_all add: named_keys_def comp_def)

lemma claimed_empty_iff:
  "(\<exists>m. claimed (concat (map (named_keys f) rs)) bt_empty m) \<longleftrightarrow> unique_over f rs"
  by (simp add: claimed_def fst_named unique_over_def bt_key_set_def bt_keys_def bt_empty_def)

lemma length_insert_new: "k \<notin> bt_key_set m \<Longrightarrow> length (bt_insert k v m) = Suc (length m)"
  by (induction m) (auto simp: bt_key_set_def bt_keys_def)

lemma length_claimed: "claimed ps m m' \<Longrightarrow> length m' = length m + length ps"
proof (induction ps arbitrary: m)
  case (Cons p ps)
  obtain k v where p: "p = (k, v)" by (cases p)
  have "claimed [(k, v)] m (bt_insert k v m)" "claimed ps (bt_insert k v m) m'"
    using Cons.prems claimed_append [of "[(k, v)]" ps m m'] by (auto simp: p claimed_def)
  with Cons.IH show ?case by (simp add: p length_insert_new claimed_def)
qed simp

lemma identities_Ok_iff:
  "(\<exists>j. try_fold (claim_identities sh) rs no_identities = Ok j) \<longleftrightarrow> identities_unique rs"
proof -
  have "(\<exists>j. identities_rel rs no_identities j) \<longleftrightarrow> identities_unique rs"
  proof
    assume "identities_unique rs"
    then obtain n v p m a u d where
      "claimed (concat (map (named_keys name_keys) rs)) bt_empty n"
      "claimed (concat (map (named_keys (\<lambda>r. [vmid_get (res_vmid r)])) rs)) bt_empty v"
      "claimed (concat (map (named_keys (\<lambda>r. [res_ip r])) rs)) bt_empty p"
      "claimed (concat (map (named_keys (\<lambda>r. [res_mac r])) rs)) bt_empty m"
      "claimed (concat (map (named_keys alloc_keys) rs)) bt_empty a"
      "claimed (concat (map (named_keys purpose_keys) rs)) bt_empty u"
      "claimed (concat (map (named_keys route_domains) rs)) bt_empty d"
      unfolding identities_unique_def claimed_empty_iff [symmetric] by blast
    then show "\<exists>j. identities_rel rs no_identities j"
      by (intro exI [of _ "\<lparr> id_names = n, id_vmids = v, id_ips = p, id_macs = m, id_domains = d,
          id_allocations = a, id_purposes = u, id_by_name = fold add_by_name rs bt_empty \<rparr>"])
        (simp add: identities_rel_def no_identities_def)
  next
    assume "\<exists>j. identities_rel rs no_identities j"
    then show "identities_unique rs"
      unfolding identities_unique_def claimed_empty_iff [symmetric] identities_rel_def no_identities_def
      by auto
  qed
  then show ?thesis by (simp add: try_fold_identities)
qed

lemma identities_Ok:
  assumes "try_fold (claim_identities sh) rs no_identities = Ok j"
  shows "length (id_domains j) = length (concat (map route_domains rs))"
    "id_by_name j = fold add_by_name rs bt_empty"
proof -
  have rel: "identities_rel rs no_identities j" using assms by (simp add: try_fold_identities)
  then have "claimed (concat (map (named_keys route_domains) rs)) bt_empty (id_domains j)"
    by (simp add: identities_rel_def no_identities_def)
  from length_claimed [OF this] show "length (id_domains j) = length (concat (map route_domains rs))"
    by (metis add_0 bt_empty_def fst_named length_map list.size(3))
  from rel show "id_by_name j = fold add_by_name rs bt_empty"
    by (simp add: identities_rel_def no_identities_def)
qed

lemma get_by_name:
  assumes "distinct (map res_name rs)"
  shows "bt_get (fold add_by_name rs bt_empty) n = Some r \<longleftrightarrow> r \<in> set rs \<and> res_name r = n"
proof -
  have "fold add_by_name rs bt_empty = bt_collect (map (\<lambda>r. (res_name r, r)) rs)"
    by (simp add: bt_collect_def fold_map comp_def add_by_name_def [abs_def])
  then have "bt_get (fold add_by_name rs bt_empty) n = map_of (rev (map (\<lambda>r. (res_name r, r)) rs)) n"
    by (simp add: bt_get_collect)
  moreover have "distinct (map fst (rev (map (\<lambda>r. (res_name r, r)) rs)))"
    using assms by (simp add: rev_map [symmetric] comp_def)
  ultimately show ?thesis by (auto simp: map_of_eq_Some_iff)
qed

lemma unique_names: "identities_unique rs \<Longrightarrow> distinct (map res_name rs)"
proof -
  assume "identities_unique rs"
  then have "distinct (concat (map name_keys rs))" by (simp add: identities_unique_def unique_over_def)
  moreover have "concat (map name_keys rs) = map guest_name_display (map res_name rs)"
    by (induction rs) (simp_all add: name_keys_def)
  ultimately show ?thesis by (metis distinct_map)
qed

subsection \<open>Which snapshots may be shared\<close>

definition snap_key :: "resource \<Rightarrow> (guest_name \<times> string) option" where
  \<comment> \<open>the snapshot a staging guest claims: its source and the snapshot's name\<close>
  "snap_key r = (if res_kind r = KindStaging
     then Option.bind (res_source r) (\<lambda>src. map_option (\<lambda>s. (src, sn_name s)) (px_snapshot (res_proxmox r)))
     else None)"

definition may_share :: "resource \<Rightarrow> resource \<Rightarrow> bool" where
  "may_share r q = (case (px_snapshot (res_proxmox r), px_snapshot (res_proxmox q)) of
     (Some s, Some t) \<Rightarrow> is_verified s \<and> is_verified t \<and> shared_identity s = shared_identity t
   | _ \<Rightarrow> False)"

definition source_ok :: "resource list \<Rightarrow> resource \<Rightarrow> bool" where
  \<comment> \<open>a staging guest has a production source in the registry that its snapshot agrees with\<close>
  "source_ok rs r = (res_kind r = KindStaging \<longrightarrow>
     (\<exists>src\<in>set rs. res_source r = Some (res_name src) \<and> res_kind src = KindProduction
        \<and> (\<forall>s. px_snapshot (res_proxmox r) = Some s \<longrightarrow> check_snapshot r src s = Ok ())))"

definition sharing_ok :: "resource list \<Rightarrow> bool" where
  "sharing_ok rs = (\<forall>r\<in>set rs. \<forall>q\<in>set rs. r \<noteq> q \<and> snap_key r \<noteq> None \<and> snap_key r = snap_key q
     \<longrightarrow> may_share r q)"

lemma may_share_sym: "may_share r q \<Longrightarrow> may_share q r"
  by (auto simp: may_share_def split: option.splits)

lemma may_share_trans: "may_share r q \<Longrightarrow> may_share q t \<Longrightarrow> may_share r t"
  by (auto simp: may_share_def split: option.splits)

definition claims_ok :: "resource list \<Rightarrow> snapshot_claims \<Rightarrow> bool" where
  \<comment> \<open>each claimed snapshot is recorded with the first guest that claims it\<close>
  "claims_ok prev claims = (\<forall>k. bt_get claims k = map_option res_name (find (\<lambda>r. snap_key r = Some k) prev))"

definition joins_first :: "resource list \<Rightarrow> resource \<Rightarrow> bool" where
  "joins_first prev r = (\<forall>k p. snap_key r = Some k \<and> find (\<lambda>q. snap_key q = Some k) prev = Some p
     \<longrightarrow> may_share r p)"

lemma sharing_mono: "set xs \<subseteq> set ys \<Longrightarrow> sharing_ok ys \<Longrightarrow> sharing_ok xs"
  unfolding sharing_ok_def by blast

lemma sharing_snoc:
  assumes "r \<notin> set prev" and "sharing_ok prev"
  shows "sharing_ok (prev @ [r]) \<longleftrightarrow> joins_first prev r"
proof
  assume share: "sharing_ok (prev @ [r])"
  show "joins_first prev r"
    unfolding joins_first_def
  proof (intro allI impI)
    fix k p
    assume kp: "snap_key r = Some k \<and> find (\<lambda>q. snap_key q = Some k) prev = Some p"
    then have "p \<in> set prev" "snap_key p = Some k" by (auto dest: find_SomeD)
    with share kp assms(1) show "may_share r p" by (auto simp: sharing_ok_def)
  qed
next
  assume join: "joins_first prev r"
  have "may_share r q" if q: "q \<in> set prev" "snap_key q = Some k" "snap_key r = Some k" for q k
  proof -
    obtain p where p: "find (\<lambda>q. snap_key q = Some k) prev = Some p"
      using q by (cases "find (\<lambda>q. snap_key q = Some k) prev") (auto simp: find_None_iff)
    then have pin: "p \<in> set prev" "snap_key p = Some k" by (auto dest: find_SomeD)
    have "may_share r p" using join q(3) p unfolding joins_first_def by blast
    moreover have "p \<noteq> q \<Longrightarrow> may_share p q" using assms(2) pin q by (auto simp: sharing_ok_def)
    ultimately show ?thesis by (cases "p = q") (auto intro: may_share_trans)
  qed
  then have new: "may_share r q" "may_share q r"
    if "q \<in> set prev" "snap_key q = snap_key r" "snap_key r \<noteq> None" for q
    using that may_share_sym by (metis option.exhaust)+
  show "sharing_ok (prev @ [r])"
    unfolding sharing_ok_def
  proof (intro ballI impI)
    fix x y
    assume xy: "x \<in> set (prev @ [r])" "y \<in> set (prev @ [r])"
      and k: "x \<noteq> y \<and> snap_key x \<noteq> None \<and> snap_key x = snap_key y"
    then consider "x \<in> set prev" "y \<in> set prev" | "x = r" "y \<in> set prev" | "x \<in> set prev" "y = r"
      by auto
    then show "may_share x y"
    proof cases
      case 1
      with assms(2) k show ?thesis unfolding sharing_ok_def by blast
    qed (metis k new(1), metis k new(2))
  qed
qed

lemma claims_ok_none:
  assumes "claims_ok prev claims" and "snap_key r = None"
  shows "claims_ok (prev @ [r]) claims" "joins_first prev r"
  using assms by (simp_all add: claims_ok_def find_append joins_first_def split: option.split)

lemma claim_snapshot_eq:
  assumes get: "\<And>p. p \<in> set prev \<Longrightarrow> bt_get by_name (res_name p) = Some p"
    and claims: "claims_ok prev claims"
    and key: "snap_key r = Some (src, sn_name s)" and snap: "px_snapshot (res_proxmox r) = Some s"
  shows "claim_snapshot by_name r src s claims \<noteq> None
    \<and> ((\<exists>c. claim_snapshot by_name r src s claims = Some (Ok c)) \<longleftrightarrow> joins_first prev r)
    \<and> (\<forall>c. claim_snapshot by_name r src s claims = Some (Ok c) \<longrightarrow> claims_ok (prev @ [r]) c)"
proof -
  let ?f = "find (\<lambda>q. snap_key q = Some (src, sn_name s)) prev"
  have cl: "bt_get claims (src, sn_name s) = map_option res_name ?f"
    using claims by (simp add: claims_ok_def)
  have joins: "joins_first prev r \<longleftrightarrow> (\<forall>p. ?f = Some p \<longrightarrow> may_share r p)"
    using key by (auto simp: joins_first_def)
  show ?thesis
  proof (cases ?f)
    case None
    have "claims_ok (prev @ [r]) (bt_insert (src, sn_name s) (res_name r) claims)"
      using claims None key by (auto simp: claims_ok_def bt_get_insert find_append split: option.splits)
    with None cl joins show ?thesis by (simp add: claim_snapshot_def)
  next
    case (Some p)
    then have p: "p \<in> set prev" "snap_key p = Some (src, sn_name s)" by (auto dest: find_SomeD)
    then obtain ps where ps: "px_snapshot (res_proxmox p) = Some ps"
      by (auto simp: snap_key_def bind_eq_Some_conv split: if_splits)
    have "claims_ok (prev @ [r]) claims"
      using claims Some key by (auto simp: claims_ok_def find_append split: option.splits)
    with Some cl joins get [OF p(1)] ps snap show ?thesis
      by (auto simp: claim_snapshot_def may_share_def split: if_splits)
  qed
qed

lemma check_staging_eq:
  assumes rs: "distinct (map res_name rs)" "set prev \<subseteq> set rs" "r \<in> set rs"
    and claims: "claims_ok prev claims" and by_name: "by_name = fold add_by_name rs bt_empty"
  shows "check_staging by_name r claims \<noteq> None
    \<and> ((\<exists>c. check_staging by_name r claims = Some (Ok c)) \<longleftrightarrow> source_ok rs r \<and> joins_first prev r)
    \<and> (\<forall>c. check_staging by_name r claims = Some (Ok c) \<longrightarrow> claims_ok (prev @ [r]) c)"
proof (cases "res_kind r = KindStaging")
  case False
  then have "snap_key r = None" by (simp add: snap_key_def)
  with False claims_ok_none [OF claims] show ?thesis
    by (simp add: check_staging_def source_ok_def)
next
  case staging: True
  note get = get_by_name [OF rs(1), folded by_name]
  show ?thesis
  proof (cases "Option.bind (res_source r) (bt_get by_name)")
    case None
    have "bt_get by_name (res_name src) = Some src" if "src \<in> set rs" for src
      using that get by simp
    with None have "\<not> source_ok rs r" using staging by (auto simp: source_ok_def)
    with None staging show ?thesis by (simp add: check_staging_def)
  next
    case (Some src)
    then have src: "res_source r = Some (res_name src)" "src \<in> set rs"
      using get by (auto simp: bind_eq_Some_conv)
    have only: "q \<in> set rs \<Longrightarrow> res_name q = res_name src \<Longrightarrow> q = src" for q
      using rs(1) src(2) by (auto simp: distinct_map dest: inj_onD)
    have source: "source_ok rs r \<longleftrightarrow> res_kind src = KindProduction
        \<and> (\<forall>s. px_snapshot (res_proxmox r) = Some s \<longrightarrow> check_snapshot r src s = Ok ())"
    proof -
      have one: "(\<exists>q\<in>set rs. res_source r = Some (res_name q) \<and> P q) \<longleftrightarrow> P src" for P
        using src only by (metis option.inject)
      show ?thesis unfolding source_ok_def one by (simp only: staging simp_thms)
    qed
    show ?thesis
    proof (cases "px_snapshot (res_proxmox r)")
      case None
      then have "snap_key r = None" by (simp add: snap_key_def bind_eq_None_conv)
      with None staging Some source claims_ok_none [OF claims] show ?thesis
        by (cases "res_kind src = KindProduction") (simp_all add: check_staging_def)
    next
      case snap: (Some s)
      have key: "snap_key r = Some (res_name src, sn_name s)"
        using staging src snap by (simp add: snap_key_def)
      have "bt_get by_name (res_name p) = Some p" if "p \<in> set prev" for p
        using that get rs(2) by blast
      from claim_snapshot_eq [OF this claims key snap] show ?thesis
        using staging Some snap source by (auto simp: check_staging_def split: sum.splits)
    qed
  qed
qed

lemma check_all_staging_iff:
  assumes rs: "distinct (map res_name rs)" "rs = prev @ rest"
    and by_name: "by_name = fold add_by_name rs bt_empty"
    and "claims_ok prev claims" and "sharing_ok prev"
  shows "check_all_staging by_name rest claims \<noteq> None
    \<and> (check_all_staging by_name rest claims = Some (Ok ())
        \<longleftrightarrow> (\<forall>r\<in>set rest. source_ok rs r) \<and> sharing_ok rs)"
  using assms(2,4,5)
proof (induction rest arbitrary: prev claims)
  case (Cons r rest)
  have r: "r \<in> set rs" "r \<notin> set prev" "set prev \<subseteq> set rs"
    using rs(1) Cons.prems(1) by (auto simp: distinct_map)
  note step = check_staging_eq [OF rs(1) r(3) r(1) Cons.prems(2) by_name]
  have mono: "sharing_ok rs \<Longrightarrow> sharing_ok (prev @ [r])"
    using Cons.prems(1) by (rule_tac sharing_mono) auto
  obtain res where res: "check_staging by_name r claims = Some res" using step by blast
  show ?case
  proof (cases res)
    case (Inl e)
    then have "\<not> (source_ok rs r \<and> joins_first prev r)" using step res by simp
    then show ?thesis
      using res Inl mono sharing_snoc [OF r(2) Cons.prems(3)] by auto
  next
    case (Inr c)
    then have ok: "source_ok rs r" "joins_first prev r" "claims_ok (prev @ [r]) c" using step res by auto
    have "sharing_ok (prev @ [r])" using ok(2) sharing_snoc [OF r(2) Cons.prems(3)] by simp
    from Cons.IH [OF _ ok(3) this] Cons.prems(1) ok(1) res Inr show ?thesis by simp
  qed
qed simp

text \<open>
  C20: the registry's check accepts exactly the registries in which no two guests share a name, VMID,
  address, MAC, allocation, production purpose or routed domain, at most 4096 domains are routed,
  every staging guest has a production source whose disks and placement its snapshot agrees with,
  and guests share a snapshot only when it is verified and recorded alike. It never panics.
\<close>

theorem registry_invariants_exact:
  "validate_registry_invariants show_ip rs \<noteq> None
   \<and> (validate_registry_invariants show_ip rs = Some (Ok ())
      \<longleftrightarrow> identities_unique rs \<and> length (concat (map route_domains rs)) \<le> MAX_ROUTES
        \<and> (\<forall>r\<in>set rs. source_ok rs r) \<and> sharing_ok rs)"
proof (cases "try_fold (claim_identities show_ip) rs no_identities")
  case (Inl e)
  then have "\<not> identities_unique rs" using identities_Ok_iff [of show_ip rs] by auto
  with Inl show ?thesis by (simp add: validate_registry_invariants_def)
next
  case (Inr i)
  then have unique: "identities_unique rs" using identities_Ok_iff [of show_ip rs] by blast
  have start: "claims_ok [] bt_empty" "sharing_ok []"
    by (simp_all add: claims_ok_def bt_get_empty sharing_ok_def)
  note staging = check_all_staging_iff [OF unique_names [OF unique] append_Nil [symmetric] refl start]
  show ?thesis
    using unique staging identities_Ok [OF Inr]
    by (auto simp: validate_registry_invariants_def Inr not_less)
qed

definition sample_guest :: "u32 \<Rightarrow> string \<Rightarrow> resource" where
  "sample_guest n domain = \<lparr> res_schema_version = 1, res_record_type = ''resource'', res_id = ''i'',
     res_allocation_id = None, res_request_fingerprint = [], res_kind = KindProduction,
     res_name = Production n, res_index = n, res_source = None, res_vmid = Vmid (100 + n),
     res_ip = n, res_mac = domain, res_state = Active,
     res_purpose = \<lparr> pu_slug = domain, pu_source_resource = None \<rparr>,
     res_domains = \<lparr> dom_primary = domain, dom_aliases = [], dom_staging_base = ''s'' \<rparr>,
     res_placement = [HostSlot 1], res_initial_node = HostSlot 1, res_owner_node = Some (HostSlot 1),
     res_routes_enabled = True,
     res_spec = \<lparr> spec_cores = 1, spec_memory_mb = 1, spec_disk_gib = 1, spec_disk_allocation = Sparse,
       spec_replication_interval = 15, spec_storage = ''tank'', spec_disk_bytes = None \<rparr>,
     res_proxmox = \<lparr> px_ha_nodes = [], px_replication_targets = [], px_volume_id = None, px_snapshot = None \<rparr>,
     res_created_at = [], res_updated_at = [], res_revision = 1 \<rparr>"

theorem registry_invariants_exact_witness:
  "validate_registry_invariants show_uint [sample_guest 1 ''a'', sample_guest 2 ''b''] = Some (Ok ())
   \<and> validate_registry_invariants show_uint [sample_guest 1 ''a'', sample_guest 2 ''a''] \<noteq> Some (Ok ())"
proof -
  have "guest_name_display (Production 1) \<noteq> guest_name_display (Production 2)"
    by (simp add: show_uint_def)
  then have "identities_unique [sample_guest 1 ''a'', sample_guest 2 ''b'']"
    by (simp add: identities_unique_def unique_over_def name_keys_def alloc_keys_def purpose_keys_def
        route_domains_def sample_guest_def)
  moreover have "\<not> identities_unique [sample_guest 1 ''a'', sample_guest 2 ''a'']"
    by (simp add: identities_unique_def unique_over_def route_domains_def sample_guest_def)
  ultimately show ?thesis
    using registry_invariants_exact [of show_uint "[sample_guest 1 ''a'', sample_guest 2 ''b'']"]
      registry_invariants_exact [of show_uint "[sample_guest 1 ''a'', sample_guest 2 ''a'']"]
    by (simp add: source_ok_def sharing_ok_def snap_key_def sample_guest_def route_domains_def MAX_ROUTES_def)
qed

end
