(* ===== verification/Auth_Tokens.thy ===== *)
theory Auth_Tokens
  imports Rust_Text
begin

unbundle bit_operations_syntax

section \<open>Session tokens\<close>

text \<open>
  Models the token functions of src/v3/crates/bmacd/src/auth/sessions.rs: the base64url text of 32
  random bytes and the test for a token's shape. The random source is a parameter of
  \<open>new_token\<close>, as the bytes it fills or \<open>None\<close> when it fails.
\<close>

definition TOKEN_LENGTH :: nat where
  "TOKEN_LENGTH = 43"

definition token_char :: "char \<Rightarrow> bool" where
  "token_char b = (is_ascii_alphanumeric b \<or> b = CHR ''-'' \<or> b = CHR ''_'')"

definition is_token_shaped :: "string \<Rightarrow> bool" where
  "is_token_shaped token = (length token = TOKEN_LENGTH \<and> list_all token_char token)"

definition BASE64_ALPHABET :: string where
  "BASE64_ALPHABET = ''ABCDEFGHIJKLMNOPQRSTUVWXYZabcdefghijklmnopqrstuvwxyz0123456789-_''"

definition chunk_word :: "u8 list \<Rightarrow> u32" where
  "chunk_word chunk =
     fold (\<lambda>(i, b) n. n OR push_bit (16 - 8 * i) (ucast b)) (enumerate 0 chunk) 0"

definition sextet :: "u32 \<Rightarrow> nat \<Rightarrow> nat" where
  "sextet n i = unat (drop_bit (18 - 6 * i) n AND 63)"

definition chunk_text :: "u8 list \<Rightarrow> string" where
  "chunk_text chunk = map (\<lambda>i. BASE64_ALPHABET ! sextet (chunk_word chunk) i) [0..<length chunk + 1]"

fun base64url :: "u8 list \<Rightarrow> string" where
  "base64url [] = []"
| "base64url [a] = chunk_text [a]"
| "base64url [a, b] = chunk_text [a, b]"
| "base64url (a # b # c # bytes) = chunk_text [a, b, c] @ base64url bytes"

definition new_token :: "u8 list option \<Rightarrow> string option" where
  "new_token random = map_option base64url random"

subsection \<open>Every token has the shape, and its bytes can be told from it\<close>

lemma length_alphabet: "length BASE64_ALPHABET = 64"
  by (simp add: BASE64_ALPHABET_def)

lemma alphabet_chars: "list_all token_char BASE64_ALPHABET"
  by code_simp

lemma alphabet_distinct: "distinct BASE64_ALPHABET"
  by code_simp

lemma and_63: "(w::u32) AND 63 = take_bit 6 w"
  by (simp add: take_bit_eq_mask mask_eq_exp_minus_1)

lemma sextet_less: "sextet n i < 64"
  by (simp add: sextet_def and_63 take_bit_eq_mod unat_mod_distrib)

lemma alphabet_inj: "BASE64_ALPHABET ! sextet m i = BASE64_ALPHABET ! sextet n j \<longleftrightarrow> sextet m i = sextet n j"
  using nth_eq_iff_index_eq [OF alphabet_distinct] sextet_less length_alphabet by metis

lemma chunk_text_shape: "length (chunk_text c) = length c + 1" "list_all token_char (chunk_text c)"
proof -
  have "token_char (BASE64_ALPHABET ! sextet n i)" for n i
    using alphabet_chars sextet_less [of n i] length_alphabet by (simp add: list_all_length)
  then show "list_all token_char (chunk_text c)" by (simp add: chunk_text_def list_all_iff)
qed (simp add: chunk_text_def)

lemma base64url_shape:
  "length (base64url bytes) = (4 * length bytes + 2) div 3 \<and> list_all token_char (base64url bytes)"
  by (induction bytes rule: base64url.induct) (simp_all add: chunk_text_shape)

lemma sextet_bit: "j < 6 \<Longrightarrow> bit (drop_bit (18 - 6 * i) n AND 63 :: u32) j \<longleftrightarrow> bit n (18 - 6 * i + j)"
  by (simp add: and_63 bit_take_bit_iff bit_drop_bit_eq)

lemma sextet_eq_bits:
  assumes "sextet m i = sextet n i" and "j < 6"
  shows "bit m (18 - 6 * i + j) = bit n (18 - 6 * i + j)"
proof -
  have "drop_bit (18 - 6 * i) m AND 63 = drop_bit (18 - 6 * i) n AND (63 :: u32)"
    using assms(1) by (simp add: sextet_def word_unat_eq_iff)
  then show ?thesis using sextet_bit [OF assms(2)] by metis
qed

lemma chunk_words:
  "chunk_word [a] = push_bit 16 (ucast a)"
  "chunk_word [a, b] = push_bit 16 (ucast a) OR push_bit 8 (ucast b)"
  "chunk_word [a, b, c] = push_bit 16 (ucast a) OR push_bit 8 (ucast b) OR ucast c"
  by (simp_all add: chunk_word_def ac_simps)

lemma bit_byte: "bit (b::u8) j \<Longrightarrow> j < 8"
  using bit_imp_le_length [of b j] by simp

lemma chunk_bits:
  assumes "j < 8"
  shows "bit (chunk_word [a]) (16 + j) \<longleftrightarrow> bit a j"
    "bit (chunk_word [a, b]) (16 + j) \<longleftrightarrow> bit a j"
    "bit (chunk_word [a, b]) (8 + j) \<longleftrightarrow> bit b j"
    "bit (chunk_word [a, b, c]) (16 + j) \<longleftrightarrow> bit a j"
    "bit (chunk_word [a, b, c]) (8 + j) \<longleftrightarrow> bit b j"
    "bit (chunk_word [a, b, c]) j \<longleftrightarrow> bit c j"
  using assms
  by (auto simp: chunk_words bit_or_iff bit_push_bit_iff bit_ucast_iff dest: bit_byte)

lemma byte_eqI: "(\<And>j. j < 8 \<Longrightarrow> bit a j = bit b j) \<Longrightarrow> a = (b::u8)"
  by (rule bit_word_eqI) simp

lemma byte_from_bits:
  assumes "\<And>k. s \<le> k \<Longrightarrow> k < s + 8 \<Longrightarrow> bit m k = bit n k"
    and "\<And>j. j < 8 \<Longrightarrow> bit m (s + j) = bit a j" and "\<And>j. j < 8 \<Longrightarrow> bit n (s + j) = bit b j"
  shows "a = (b::u8)"
  using assms by (intro byte_eqI) (metis add_less_cancel_left le_add1)

lemma chunk_text_inj:
  assumes "chunk_text c = chunk_text d" and "length c = n" "length d = n" and "n \<in> {1, 2, 3}"
  shows "c = d"
proof -
  have sx: "sextet (chunk_word c) i = sextet (chunk_word d) i" if "i < n + 1" for i
  proof -
    have "chunk_text c ! i = chunk_text d ! i" by (simp add: assms(1))
    then show ?thesis using that assms(2,3) by (simp add: chunk_text_def alphabet_inj del: upt_Suc)
  qed
  have bits: "bit (chunk_word c) k = bit (chunk_word d) k" if "k < 24" "18 - 6 * n \<le> k" for k
  proof -
    have "k div 6 \<le> 3" using that by auto
    then have "18 - 6 * (3 - k div 6) = 6 * (k div 6)" by simp
    then have "k = 18 - 6 * (3 - k div 6) + k mod 6" by simp
    moreover have "3 - k div 6 < n + 1" using that by auto
    ultimately show ?thesis using sextet_eq_bits [OF sx, of "3 - k div 6" "k mod 6"] by simp
  qed
  consider a a' where "c = [a]" "d = [a']" "n = 1"
    | a b a' b' where "c = [a, b]" "d = [a', b']" "n = 2"
    | a b e a' b' e' where "c = [a, b, e]" "d = [a', b', e']" "n = 3"
    using assms(2-4) by (auto simp: length_Suc_conv numeral_2_eq_2 numeral_3_eq_3)
  then show ?thesis
  proof cases
    case 1
    have "a = a'"
      by (rule byte_from_bits [of 16 "chunk_word c" "chunk_word d"]) (use 1 bits in \<open>simp_all add: chunk_bits(1)\<close>)
    with 1 show ?thesis by simp
  next
    case 2
    have "a = a'"
      by (rule byte_from_bits [of 16 "chunk_word c" "chunk_word d"]) (use 2 bits in \<open>simp_all add: chunk_bits(2)\<close>)
    moreover have "b = b'"
      by (rule byte_from_bits [of 8 "chunk_word c" "chunk_word d"]) (use 2 bits in \<open>simp_all add: chunk_bits(3)\<close>)
    ultimately show ?thesis using 2 by simp
  next
    case 3
    have "a = a'"
      by (rule byte_from_bits [of 16 "chunk_word c" "chunk_word d"]) (use 3 bits in \<open>simp_all add: chunk_bits(4)\<close>)
    moreover have "b = b'"
      by (rule byte_from_bits [of 8 "chunk_word c" "chunk_word d"]) (use 3 bits in \<open>simp_all add: chunk_bits(5)\<close>)
    moreover have "bit e j = bit e' j" if "j < 8" for j
      using bits [of j] that chunk_bits(6) [OF that, of a b e] chunk_bits(6) [OF that, of a' b' e'] 3
      by simp
    then have "e = e'" by (rule byte_eqI)
    ultimately show ?thesis using 3 by simp
  qed
qed

lemma base64url_inj: "base64url xs = base64url ys \<Longrightarrow> length xs = length ys \<Longrightarrow> xs = ys"
proof (induction xs arbitrary: ys rule: base64url.induct)
  case (2 a)
  then show ?case using chunk_text_inj [of "[a]" ys 1] by (cases ys) auto
next
  case (3 a b)
  then obtain c d where "ys = [c, d]" by (cases ys; cases "tl ys") auto
  with 3 show ?case using chunk_text_inj [of "[a, b]" ys 2] by simp
next
  case (4 a b c bytes)
  then obtain d e f rest where ys: "ys = d # e # f # rest"
    by (auto simp: length_Suc_conv numeral_3_eq_3 Suc_length_conv)
  with "4.prems" have "chunk_text [a, b, c] = chunk_text [d, e, f]" "base64url bytes = base64url rest"
    by (simp_all add: chunk_text_shape)
  with chunk_text_inj [of "[a, b, c]" "[d, e, f]" 3] "4.IH" [of rest] "4.prems"(2) ys show ?case by simp
qed simp

text \<open>
  Every token made from 32 random bytes has the shape that is checked before a lookup, and
  different bytes make different tokens, so a token carries all 256 bits.
\<close>

lemma new_token_shape:
  assumes "length xs = 32" and "length ys = 32"
  shows "\<exists>t. new_token (Some xs) = Some t \<and> is_token_shaped t \<and> (new_token (Some ys) = Some t \<longleftrightarrow> ys = xs)"
  using base64url_shape [of xs] base64url_inj [of ys xs] assms
  by (auto simp: new_token_def is_token_shaped_def TOKEN_LENGTH_def)

lemma new_token_shape_witness:
  "new_token (Some (replicate 32 0)) \<noteq> new_token (Some (replicate 32 1))"
  using new_token_shape [of "replicate 32 0" "replicate 32 1"] by auto

end
