(* ===== verification/Auth_Accounts.thy ===== *)
theory Auth_Accounts
  imports Rust_Text Rust_BTree
begin

section \<open>Accounts and roles\<close>

text \<open>
  Models src/v3/crates/bmacd/src/auth/accounts.rs: the \<^verbatim>\<open>user:\<close> and \<^verbatim>\<open>group:\<close> lines of
  Proxmox's user.cfg, and what they let a user do. The role is
  \<^verbatim>\<open>Role\<close> of src/v3/crates/bmac-proto/src/api.rs.
\<close>

datatype role = Viewer | Operator | Admin

fun role_rank :: "role \<Rightarrow> nat" where
  \<comment> \<open>the derived \<open>Ord\<close> compares the variants in the order they are declared\<close>
  "role_rank Viewer = 0"
| "role_rank Operator = 1"
| "role_rank Admin = 2"

instantiation role :: linorder
begin

definition less_eq_role :: "role \<Rightarrow> role \<Rightarrow> bool" where
  "less_eq_role a b = (role_rank a \<le> role_rank b)"

definition less_role :: "role \<Rightarrow> role \<Rightarrow> bool" where
  "less_role a b = (role_rank a < role_rank b)"

instance
proof
  fix x y :: role
  assume "x \<le> y" "y \<le> x"
  then show "x = y" by (cases x; cases y) (simp_all add: less_eq_role_def)
qed (auto simp: less_eq_role_def less_role_def)

end

definition ROOT :: string where
  "ROOT = ''root@pam''"

definition GROUPS :: "(string \<times> role) list" where
  "GROUPS = [(''bmac-admin'', Admin), (''bmac-operator'', Operator), (''bmac-viewer'', Viewer)]"

datatype standing = Allowed role | NoGroup | Disabled | AccountExpired | UnknownAccount

fun standing_describe :: "standing \<Rightarrow> string" where
  "standing_describe (Allowed _) = ''allowed''"
| "standing_describe NoGroup = ''the account is in no BMAC group''"
| "standing_describe Disabled = ''the account is disabled''"
| "standing_describe AccountExpired = ''the account has expired''"
| "standing_describe UnknownAccount = ''the account no longer exists''"

record account =
  ac_enabled :: bool
  ac_expire :: int

record accounts =
  ac_users :: "(string, account) btree"
  ac_groups :: "(string, string set) btree"

definition accounts_default :: accounts where
  "accounts_default = \<lparr> ac_users = bt_empty, ac_groups = bt_empty \<rparr>"

fun user_line :: "string list \<Rightarrow> (string \<times> account) option" where
  \<comment> \<open>the pattern \<open>["user", id, enable, expire, ..]\<close>\<close>
  "user_line (tag # ident # enable # expire # _) =
     (if tag = ''user'' \<and> ident \<noteq> []
      then Some (ident, \<lparr> ac_enabled = (enable \<noteq> ''0''), ac_expire = unwrap_or 0 (parse_i64 expire) \<rparr>)
      else None)"
| "user_line _ = None"

fun group_line :: "string list \<Rightarrow> (string \<times> string set) option" where
  \<comment> \<open>the pattern \<open>["group", id, members, ..]\<close>\<close>
  "group_line (tag # ident # members # _) =
     (if tag = ''group'' \<and> ident \<noteq> []
      then Some (ident, set (filter (\<lambda>m. m \<noteq> []) (map trim (split_on (CHR '','') members))))
      else None)"
| "group_line _ = None"

definition accounts_line :: "string list \<Rightarrow> accounts \<Rightarrow> accounts" where
  "accounts_line fs a =
     (case user_line fs of
        Some (ident, account) \<Rightarrow> a\<lparr>ac_users := bt_insert ident account (ac_users a)\<rparr>
      | None \<Rightarrow>
          (case group_line fs of
             Some (ident, members) \<Rightarrow> a\<lparr>ac_groups := bt_insert ident members (ac_groups a)\<rparr>
           | None \<Rightarrow> a))"

definition line_fields :: "string \<Rightarrow> string list list" where
  "line_fields s = map (\<lambda>line. split_on (CHR '':'') (trim line)) (text_lines s)"

definition accounts_parse :: "string \<Rightarrow> accounts" where
  "accounts_parse s = fold accounts_line (line_fields s) accounts_default"

definition standing_of :: "accounts \<Rightarrow> string \<Rightarrow> int \<Rightarrow> standing" where
  "standing_of a user now =
     (case bt_get (ac_users a) user of
        None \<Rightarrow> UnknownAccount
      | Some account \<Rightarrow>
          if \<not> ac_enabled account then Disabled
          else if ac_expire account > 0 \<and> ac_expire account \<le> now then AccountExpired
          else if user = ROOT then Allowed Admin
          else case find (\<lambda>(g, _). is_some_and (\<lambda>m. user \<in> m) (bt_get (ac_groups a) g)) GROUPS of
                 None \<Rightarrow> NoGroup
               | Some (_, role) \<Rightarrow> Allowed role)"

subsection \<open>What the file decides\<close>

definition last_entry :: "('k \<times> 'v) list \<Rightarrow> 'k \<Rightarrow> 'v option" where
  "last_entry es k = map_of (rev es) k"

lemma last_entry_Nil [simp]: "last_entry [] k = None"
  by (simp add: last_entry_def)

lemma last_entry_snoc [simp]: "last_entry (es @ [(j, v)]) k = (if k = j then Some v else last_entry es k)"
  by (simp add: last_entry_def)

lemma not_both: "user_line fs = Some u \<Longrightarrow> group_line fs = None"
  by (cases fs rule: user_line.cases) (auto split: if_splits)

lemma accounts_fold:
  "bt_get (ac_users (fold accounts_line ls accounts_default)) u = last_entry (filter_map user_line ls) u"
  "bt_get (ac_groups (fold accounts_line ls accounts_default)) g = last_entry (filter_map group_line ls) g"
  by (induction ls rule: rev_induct)
    (auto simp: accounts_default_def bt_get_empty accounts_line_def bt_get_insert not_both split: option.splits)

definition in_group :: "string \<Rightarrow> string \<Rightarrow> string \<Rightarrow> bool" where
  "in_group s user g = is_some_and (\<lambda>m. user \<in> m) (last_entry (filter_map group_line (line_fields s)) g)"

definition account_good :: "account \<Rightarrow> int \<Rightarrow> bool" where
  "account_good a now = (ac_enabled a \<and> (ac_expire a \<le> 0 \<or> now < ac_expire a))"

text \<open>
  C27: a user may log in exactly when the last line of the file for that user is enabled and has not
  expired; \<^verbatim>\<open>root@pam\<close> is then an administrator whatever its groups, and everyone else has the
  role of the most privileged of the three groups that lists them, by the last line of each group.
\<close>

theorem standing_allowed_iff:
  "standing_of (accounts_parse s) user now = Allowed role
   \<longleftrightarrow> is_some_and (\<lambda>a. account_good a now) (last_entry (filter_map user_line (line_fields s)) user)
    \<and> role = (if user = ROOT \<or> in_group s user ''bmac-admin'' then Admin
              else if in_group s user ''bmac-operator'' then Operator else Viewer)
    \<and> (user = ROOT \<or> (\<exists>g\<in>fst ` set GROUPS. in_group s user g))"
  unfolding standing_of_def accounts_parse_def accounts_fold in_group_def GROUPS_def
  by (auto simp: account_good_def split: option.splits if_splits)

end
