(* ===== verification/Auth_Sessions.thy ===== *)
theory Auth_Sessions
  imports Auth_Tokens Auth_Accounts
begin

section \<open>Login sessions\<close>

text \<open>
  Models \<^verbatim>\<open>Sessions\<close> of src/v3/crates/bmacd/src/auth/sessions.rs: the table in memory, the rows
  of the host-local database (schema in src/v3/crates/bmacd/src/db.rs), and every operation on
  them. SHA-256 and the text form of an IP address are parameters. A call to the database may fail:
  each operation has a flag for that, and a call that fails leaves the rows as they are. Each method
  is one step; \<open>se_told\<close> lists what the watchers of ended sessions have been told.
\<close>

definition TOUCH_WRITE_MS :: int where
  "TOUCH_WRITE_MS = 60000"

record session_policy =
  sp_idle_ms :: int
  sp_absolute_ms :: int

definition session_policy_default :: session_policy where
  "session_policy_default = \<lparr> sp_idle_ms = 30 * 60 * 1000, sp_absolute_ms = 12 * 60 * 60 * 1000 \<rparr>"

datatype end_reason = LoggedOut | Idle | Expired | Revoked | AccountChanged string

fun end_reason_kind :: "end_reason \<Rightarrow> string" where
  "end_reason_kind LoggedOut = ''logged_out''"
| "end_reason_kind Idle = ''idle''"
| "end_reason_kind Expired = ''expired''"
| "end_reason_kind Revoked = ''revoked''"
| "end_reason_kind (AccountChanged _) = ''account_changed''"

fun end_reason_message :: "end_reason \<Rightarrow> string" where
  "end_reason_message LoggedOut = ''you logged out''"
| "end_reason_message Idle = ''the session ended after a period without activity; log in again''"
| "end_reason_message Expired = ''the session reached its time limit; log in again''"
| "end_reason_message Revoked = ''the session was ended by logging out everywhere; log in again''"
| "end_reason_message (AccountChanged why) = ''the session ended because '' @ why @ ''; log in again''"

fun role_name :: "role \<Rightarrow> string" where
  "role_name Viewer = ''viewer''"
| "role_name Operator = ''operator''"
| "role_name Admin = ''admin''"

definition parse_role :: "string \<Rightarrow> role option" where
  "parse_role name =
     (if name = ''viewer'' then Some Viewer
      else if name = ''operator'' then Some Operator
      else if name = ''admin'' then Some Admin
      else None)"

record 'ip session_info =
  si_token_hash :: string
  si_user :: string
  si_role :: role
  si_client :: 'ip
  si_created_ms :: int
  si_last_used_ms :: int

record 'ip live =
  lv_info :: "'ip session_info"
  lv_written_last_used_ms :: int

definition live_new :: "'ip session_info \<Rightarrow> 'ip live" where
  "live_new info = \<lparr> lv_info = info, lv_written_last_used_ms = si_last_used_ms info \<rparr>"

datatype 'ip lookup_result = Valid "'ip session_info" | Ended end_reason | Unknown

record row =
  row_user :: string
  row_role :: string
  row_client :: string
  row_created_ms :: int
  row_last_used_ms :: int

record 'ip sessions =
  se_policy :: session_policy
  se_live :: "(string, 'ip live) btree"
  se_db :: "(string, row) btree"
  se_told :: "(string \<times> end_reason) list"

text \<open>\<open>DbFailed\<close> is any error a database call returns; \<open>DbTask\<close> is the one \<open>create\<close> makes itself.\<close>

datatype db_error = DbFailed | DbTask string

definition hash_token :: "(string \<Rightarrow> u8 list) \<Rightarrow> string \<Rightarrow> string" where
  "hash_token sha256 token = concat (map (\<lambda>b. hex_fixed 2 (unat b)) (sha256 token))"

definition row_of :: "('ip \<Rightarrow> string) \<Rightarrow> 'ip session_info \<Rightarrow> row" where
  "row_of show_ip info = \<lparr> row_user = si_user info, row_role = role_name (si_role info),
     row_client = show_ip (si_client info), row_created_ms = si_created_ms info,
     row_last_used_ms = si_last_used_ms info \<rparr>"

definition read_row :: "(string \<Rightarrow> 'ip option) \<Rightarrow> string \<times> row \<Rightarrow> 'ip session_info option" where
  "read_row parse_ip = (\<lambda>(hash, r).
     case (parse_role (row_role r), parse_ip (row_client r)) of
       (Some role, Some client) \<Rightarrow>
         Some \<lparr> si_token_hash = hash, si_user = row_user r, si_role = role, si_client = client,
                si_created_ms = row_created_ms r, si_last_used_ms = row_last_used_ms r \<rparr>
     | _ \<Rightarrow> None)"

definition load_sessions ::
    "(string \<Rightarrow> 'ip option) \<Rightarrow> (string, row) btree \<Rightarrow> session_policy \<Rightarrow> bool \<Rightarrow> bool
     \<Rightarrow> (db_error, 'ip sessions) result" where
  \<comment> \<open>the flags say whether reading the rows and deleting the unreadable ones fail\<close>
  "load_sessions parse_ip db policy read_fails delete_fails =
     (if read_fails then Err DbFailed
      else let live = bt_collect (filter_map (\<lambda>e. map_option (\<lambda>i. (fst e, live_new i)) (read_row parse_ip e)) db);
               unreadable = filter (\<lambda>e. read_row parse_ip e = None) db
           in if unreadable \<noteq> [] \<and> delete_fails then Err DbFailed
              else Ok \<lparr> se_policy = policy, se_live = live,
                        se_db = fold (\<lambda>e. bt_remove (fst e)) unreadable db, se_told = [] \<rparr>)"

definition session_create ::
    "(string \<Rightarrow> u8 list) \<Rightarrow> ('ip \<Rightarrow> string) \<Rightarrow> u8 list option \<Rightarrow> string \<Rightarrow> role \<Rightarrow> 'ip \<Rightarrow> int \<Rightarrow> bool \<Rightarrow> 'ip sessions
     \<Rightarrow> (db_error, string \<times> 'ip session_info) result \<times> 'ip sessions" where
  \<comment> \<open>the hash is the primary key, so an insert of a present one fails\<close>
  "session_create sha256 show_ip random user role client now fails s =
     (case new_token random of
        None \<Rightarrow> (Err (DbTask ''the system random source failed''), s)
      | Some token \<Rightarrow>
          let info = \<lparr> si_token_hash = hash_token sha256 token, si_user = user, si_role = role,
                       si_client = client, si_created_ms = now, si_last_used_ms = now \<rparr> in
          if fails \<or> bt_contains_key (se_db s) (si_token_hash info) then (Err DbFailed, s)
          else (Ok (token, info),
                s\<lparr>se_live := bt_insert (si_token_hash info) (live_new info) (se_live s),
                  se_db := bt_insert (si_token_hash info) (row_of show_ip info) (se_db s)\<rparr>))"

definition expiry :: "session_policy \<Rightarrow> 'ip session_info \<Rightarrow> int \<Rightarrow> end_reason option" where
  "expiry policy info now =
     (if now - si_created_ms info \<ge> sp_absolute_ms policy then Some Expired
      else if now - si_last_used_ms info \<ge> sp_idle_ms policy then Some Idle
      else None)"

definition session_end ::
    "string \<Rightarrow> end_reason \<Rightarrow> bool \<Rightarrow> 'ip sessions
     \<Rightarrow> (db_error, 'ip session_info option) result \<times> 'ip sessions" where
  "session_end hash reason fails s =
     (let removed = bt_get (se_live s) hash;
          s = s\<lparr>se_live := bt_remove hash (se_live s)\<rparr>
      in if fails then (Err DbFailed, s)
         else (Ok (map_option lv_info removed),
               s\<lparr>se_db := bt_remove hash (se_db s),
                 se_told := (if removed = None then se_told s else se_told s @ [(hash, reason)])\<rparr>))"

definition touch :: "int \<Rightarrow> bool \<Rightarrow> 'ip live \<Rightarrow> 'ip live \<times> bool" where
  \<comment> \<open>the session after a check, and whether its row is to be written\<close>
  "touch now activity l =
     (if activity \<and> si_last_used_ms (lv_info l) < now then
        (let l' = l\<lparr>lv_info := (lv_info l)\<lparr>si_last_used_ms := now\<rparr>\<rparr>
         in if now - lv_written_last_used_ms l \<ge> TOUCH_WRITE_MS
            then (l'\<lparr>lv_written_last_used_ms := now\<rparr>, True)
            else (l', False))
      else (l, False))"

definition update_row :: "string \<Rightarrow> int \<Rightarrow> (string, row) btree \<Rightarrow> (string, row) btree" where
  "update_row hash used db = map (\<lambda>(k, r). (k, if k = hash then r\<lparr>row_last_used_ms := used\<rparr> else r)) db"

definition session_lookup ::
    "(string \<Rightarrow> u8 list) \<Rightarrow> string \<Rightarrow> int \<Rightarrow> bool \<Rightarrow> bool \<Rightarrow> 'ip sessions
     \<Rightarrow> (db_error, 'ip lookup_result) result \<times> 'ip sessions" where
  "session_lookup sha256 token now activity fails s =
     (if \<not> is_token_shaped token then (Ok Unknown, s)
      else let hash = hash_token sha256 token in
        case bt_get (se_live s) hash of
          None \<Rightarrow> (Ok Unknown, s)
        | Some l \<Rightarrow>
          (case expiry (se_policy s) (lv_info l) now of
             Some reason \<Rightarrow>
               (case session_end hash reason fails s of
                  (Err e, s') \<Rightarrow> (Err e, s')
                | (Ok _, s') \<Rightarrow> (Ok (Ended reason), s'))
           | None \<Rightarrow>
               (let (l', write) = touch now activity l;
                    s = s\<lparr>se_live := bt_insert hash l' (se_live s)\<rparr>
                in if write then
                     (if fails then (Err DbFailed, s)
                      else (Ok (Valid (lv_info l')),
                            s\<lparr>se_db := update_row (si_token_hash (lv_info l'))
                                (si_last_used_ms (lv_info l')) (se_db s)\<rparr>))
                   else (Ok (Valid (lv_info l')), s))))"

definition watch_end :: "string \<Rightarrow> 'ip sessions \<Rightarrow> bool" where
  \<comment> \<open>whether there is still a session to watch\<close>
  "watch_end hash s = bt_contains_key (se_live s) hash"

definition all_sessions :: "'ip sessions \<Rightarrow> 'ip session_info list" where
  "all_sessions s = map lv_info (bt_values (se_live s))"

definition expired_sessions :: "int \<Rightarrow> 'ip sessions \<Rightarrow> ('ip session_info \<times> end_reason) list" where
  "expired_sessions now s =
     filter_map (\<lambda>l. map_option (\<lambda>r. (lv_info l, r)) (expiry (se_policy s) (lv_info l) now))
       (bt_values (se_live s))"

subsection \<open>Sequences of operations\<close>

datatype 'ip session_op =
    Create "u8 list option" string role 'ip int bool
  | Lookup string int bool bool
  | End string end_reason bool

fun op_fails :: "'ip session_op \<Rightarrow> bool" where
  "op_fails (Create _ _ _ _ _ fails) = fails"
| "op_fails (Lookup _ _ _ fails) = fails"
| "op_fails (End _ _ fails) = fails"

fun run_op :: "(string \<Rightarrow> u8 list) \<Rightarrow> ('ip \<Rightarrow> string) \<Rightarrow> 'ip session_op \<Rightarrow> 'ip sessions \<Rightarrow> 'ip sessions" where
  "run_op sha256 show_ip (Create random user role client now fails) s =
     snd (session_create sha256 show_ip random user role client now fails s)"
| "run_op sha256 show_ip (Lookup token now activity fails) s =
     snd (session_lookup sha256 token now activity fails s)"
| "run_op sha256 show_ip (End hash reason fails) s = snd (session_end hash reason fails s)"

definition row_ok :: "bool \<Rightarrow> ('ip \<Rightarrow> string) \<Rightarrow> 'ip live \<Rightarrow> row \<Rightarrow> bool" where
  \<comment> \<open>the row is the session's, with the time that was last written, or an earlier one after a
    wr that failed\<close>
  "row_ok exact show_ip l r =
     (row_user r = si_user (lv_info l) \<and> row_role r = role_name (si_role (lv_info l))
      \<and> row_client r = show_ip (si_client (lv_info l)) \<and> row_created_ms r = si_created_ms (lv_info l)
      \<and> row_last_used_ms r \<le> lv_written_last_used_ms l
      \<and> (exact \<longrightarrow> row_last_used_ms r = lv_written_last_used_ms l))"

definition live_ok :: "string \<Rightarrow> 'ip live \<Rightarrow> bool" where
  "live_ok hash l = (si_token_hash (lv_info l) = hash
     \<and> lv_written_last_used_ms l \<le> si_last_used_ms (lv_info l)
     \<and> si_last_used_ms (lv_info l) < lv_written_last_used_ms l + TOUCH_WRITE_MS)"

definition sessions_ok :: "bool \<Rightarrow> ('ip \<Rightarrow> string) \<Rightarrow> 'ip sessions \<Rightarrow> bool" where
  "sessions_ok exact show_ip s =
     (bt_ok (se_live s) \<and> bt_ok (se_db s)
      \<and> (\<forall>h l. bt_get (se_live s) h = Some l
           \<longrightarrow> live_ok h l \<and> (\<exists>r. bt_get (se_db s) h = Some r \<and> row_ok exact show_ip l r))
      \<and> (exact \<longrightarrow> (\<forall>h r. bt_get (se_db s) h = Some r \<longrightarrow> bt_get (se_live s) h \<noteq> None)))"

lemma sessions_okD:
  assumes "sessions_ok exact show_ip s" and "bt_get (se_live s) h = Some l"
  shows "live_ok h l" "\<exists>r. bt_get (se_db s) h = Some r \<and> row_ok exact show_ip l r"
  using assms by (auto simp: sessions_ok_def)

lemma get_update_row:
  "bt_get (update_row h u db) k = map_option (\<lambda>r. if k = h then r\<lparr>row_last_used_ms := u\<rparr> else r) (bt_get db k)"
  by (induction db) (auto simp: update_row_def bt_get_def)

lemma bt_ok_update_row: "bt_ok db \<Longrightarrow> bt_ok (update_row h u db)"
proof -
  have "map fst (update_row h u db) = map fst db" by (auto simp: update_row_def)
  then show "bt_ok db \<Longrightarrow> bt_ok (update_row h u db)" by (simp add: bt_ok_def)
qed

lemma new_session_ok:
  "live_ok (si_token_hash i) (live_new i)" "row_ok exact show_ip (live_new i) (row_of show_ip i)"
  by (simp_all add: live_ok_def live_new_def row_ok_def row_of_def TOUCH_WRITE_MS_def)

lemma sessions_ok_insert:
  assumes "sessions_ok exact show_ip s" and "live_ok h l" and "bt_get db' h = Some r" "row_ok exact show_ip l r"
    and "bt_ok db'" and "\<And>k. k \<noteq> h \<Longrightarrow> bt_get db' k = bt_get (se_db s) k"
  shows "sessions_ok exact show_ip (s\<lparr>se_live := bt_insert h l (se_live s), se_db := db'\<rparr>)"
  using assms unfolding sessions_ok_def
  by (auto simp: bt_ok_insert bt_get_insert split: if_splits)

lemma session_create_ok:
  assumes "sessions_ok exact show_ip s"
  shows "sessions_ok exact show_ip (snd (session_create sha256 show_ip random user role client now fails s))"
proof (cases "new_token random")
  case (Some token)
  let ?i = "\<lparr> si_token_hash = hash_token sha256 token, si_user = user, si_role = role,
               si_client = client, si_created_ms = now, si_last_used_ms = now \<rparr>"
  have "sessions_ok exact show_ip (s\<lparr>se_live := bt_insert (si_token_hash ?i) (live_new ?i) (se_live s),
      se_db := bt_insert (si_token_hash ?i) (row_of show_ip ?i) (se_db s)\<rparr>)"
    using assms new_session_ok(1) [of ?i] new_session_ok(2) [where i = ?i]
    by (intro sessions_ok_insert) (auto simp: bt_get_insert bt_ok_insert sessions_ok_def)
  with Some assms show ?thesis by (simp add: session_create_def Let_def)
qed (use assms in \<open>simp add: session_create_def\<close>)

lemma session_end_ok:
  assumes "sessions_ok exact show_ip s" and "exact \<Longrightarrow> \<not> fails"
  shows "sessions_ok exact show_ip (snd (session_end hash reason fails s))"
  using assms unfolding sessions_ok_def session_end_def Let_def
  by (auto simp: bt_ok_remove bt_get_remove split: if_splits)

lemma touch_ok:
  assumes "touch now activity l = (l', wr)" and "live_ok h l" and "row_ok exact show_ip l r"
  shows "live_ok h l'"
    "wr \<Longrightarrow> row_ok exact show_ip l' (r\<lparr>row_last_used_ms := si_last_used_ms (lv_info l')\<rparr>)"
    "wr \<Longrightarrow> row_ok False show_ip l' r" "\<not> wr \<Longrightarrow> row_ok exact show_ip l' r"
  using assms
  by (auto simp: touch_def Let_def live_ok_def row_ok_def row_of_def TOUCH_WRITE_MS_def split: if_splits)

lemma lookup_expired:
  assumes "is_token_shaped token" and "bt_get (se_live s) (hash_token sha256 token) = Some l"
    and "expiry (se_policy s) (lv_info l) now = Some reason"
  shows "snd (session_lookup sha256 token now activity fails s)
    = snd (session_end (hash_token sha256 token) reason fails s)"
  using assms by (simp add: session_lookup_def Let_def split: prod.splits sum.splits)

lemma session_lookup_ok:
  assumes ok: "sessions_ok exact show_ip s" and "exact \<Longrightarrow> \<not> fails"
  shows "sessions_ok exact show_ip (snd (session_lookup sha256 token now activity fails s))"
proof (cases "is_token_shaped token \<and> bt_get (se_live s) (hash_token sha256 token) \<noteq> None")
  case True
  let ?h = "hash_token sha256 token"
  obtain l where l: "bt_get (se_live s) ?h = Some l" using True by blast
  obtain r where r: "bt_get (se_db s) ?h = Some r" "row_ok exact show_ip l r" and lok: "live_ok ?h l"
    using sessions_okD [OF ok l] by blast
  show ?thesis
  proof (cases "expiry (se_policy s) (lv_info l) now")
    case (Some reason)
    then show ?thesis using session_end_ok [OF assms] lookup_expired [OF _ l] True by simp
  next
    case None
    obtain l' wr where t: "touch now activity l = (l', wr)" by fastforce
    note tok = touch_ok [OF t lok r(2)]
    have hash: "si_token_hash (lv_info l') = ?h" using tok(1) by (simp add: live_ok_def)
    have dbok: "bt_ok (se_db s)" using ok by (simp add: sessions_ok_def)
    have "sessions_ok exact show_ip (s\<lparr>se_live := bt_insert ?h l' (se_live s),
        se_db := (if wr \<and> \<not> fails then update_row ?h (si_last_used_ms (lv_info l')) (se_db s) else se_db s)\<rparr>)"
    proof (cases "wr \<and> \<not> fails")
      case True
      then show ?thesis
        using r tok dbok
        by (simp, intro sessions_ok_insert [OF ok tok(1)]) (auto simp: get_update_row bt_ok_update_row option.map_ident)
    next
      case False
      then have "row_ok exact show_ip l' r"
        using tok(3,4) assms(2) by (cases wr; cases exact) (auto simp: row_ok_def)
      from sessions_ok_insert [OF ok tok(1) r(1) this dbok] False show ?thesis by auto
    qed
    moreover have "snd (session_lookup sha256 token now activity fails s) = s\<lparr>se_live := bt_insert ?h l' (se_live s),
        se_db := (if wr \<and> \<not> fails then update_row ?h (si_last_used_ms (lv_info l')) (se_db s) else se_db s)\<rparr>"
      using True l None t hash by (simp add: session_lookup_def Let_def)
    ultimately show ?thesis by simp
  qed
qed (use ok in \<open>auto simp: session_lookup_def Let_def\<close>)

lemma run_op_ok:
  assumes "sessions_ok exact show_ip s" and "exact \<Longrightarrow> \<not> op_fails op"
  shows "sessions_ok exact show_ip (run_op sha256 show_ip op s)"
  using assms by (cases op) (simp_all add: session_create_ok session_end_ok session_lookup_ok)

inductive session_step ::
    "bool \<Rightarrow> (string \<Rightarrow> u8 list) \<Rightarrow> ('ip \<Rightarrow> string) \<Rightarrow> 'ip sessions \<Rightarrow> 'ip sessions \<Rightarrow> bool"
  for exact sha256 show_ip where
  session_stepI: "(exact \<longrightarrow> \<not> op_fails op) \<Longrightarrow> session_step exact sha256 show_ip s (run_op sha256 show_ip op s)"

definition no_sessions :: "session_policy \<Rightarrow> 'ip sessions" where
  "no_sessions policy = \<lparr> se_policy = policy, se_live = bt_empty, se_db = bt_empty, se_told = [] \<rparr>"

interpretation sm: state_machine "no_sessions policy" "session_step exact sha256 show_ip"
    "sessions_ok exact show_ip" for policy exact sha256 show_ip
proof unfold_locales
  show "sessions_ok exact show_ip (no_sessions policy)"
    by (simp add: sessions_ok_def no_sessions_def bt_ok_empty bt_get_empty)
qed (auto elim!: session_step.cases intro: run_op_ok)

subsection \<open>Restarts\<close>

lemma parse_role_name [simp]: "parse_role (role_name r) = Some r"
  by (cases r) (simp_all add: parse_role_def)

lemma filter_map_all: "(\<And>x. x \<in> set xs \<Longrightarrow> f x = Some (g x)) \<Longrightarrow> filter_map f xs = map g xs"
  by (induction xs) auto

lemma map_of_rev_distinct: "distinct (map fst es) \<Longrightarrow> map_of (rev es) k = map_of es k"
proof -
  assume d: "distinct (map fst es)"
  then have "distinct (map fst (rev es))" by (simp add: rev_map [symmetric])
  with d have "map_of (rev es) k = Some v \<longleftrightarrow> map_of es k = Some v" for v
    by (simp add: map_of_eq_Some_iff)
  then show "map_of (rev es) k = map_of es k" by (metis not_None_eq)
qed

lemma get_collect_map:
  assumes "bt_ok m"
  shows "bt_get (bt_collect (map (\<lambda>e. (fst e, g e)) m)) k = map_option (\<lambda>v. g (k, v)) (bt_get m k)"
proof -
  let ?es = "map (\<lambda>e. (fst e, g e)) m"
  have "distinct (map fst ?es)" using bt_ok_distinct [OF assms] by (simp add: comp_def)
  then have "map_of (rev ?es) k = map_of ?es k" by (rule map_of_rev_distinct)
  also have "map_of ?es k = map_option (\<lambda>v. g (k, v)) (map_of m k)"
    by (induction m) (auto split: if_splits)
  finally show ?thesis unfolding bt_get_collect by (simp add: bt_get_def)
qed

lemma load_readable:
  assumes "bt_ok db" and "\<And>h r. (h, r) \<in> set db \<Longrightarrow> read_row parse_ip (h, r) = Some (g h r)"
  shows "\<exists>s. load_sessions parse_ip db policy False fails = Ok s \<and> se_db s = db \<and> se_policy s = policy
    \<and> (\<forall>h. bt_get (se_live s) h = map_option (\<lambda>r. live_new (g h r)) (bt_get db h))"
proof -
  have all: "read_row parse_ip e = Some (g (fst e) (snd e))" if "e \<in> set db" for e
    using assms(2) [of "fst e" "snd e"] that by simp
  then have "filter (\<lambda>e. read_row parse_ip e = None) db = []" by (simp add: filter_empty_conv)
  moreover have "filter_map (\<lambda>e. map_option (\<lambda>i. (fst e, live_new i)) (read_row parse_ip e)) db
      = map (\<lambda>e. (fst e, live_new (g (fst e) (snd e)))) db"
    by (rule filter_map_all) (simp add: all)
  ultimately show ?thesis
    using get_collect_map [OF assms(1), of "\<lambda>e. live_new (g (fst e) (snd e))"]
    by (simp add: load_sessions_def Let_def)
qed

definition reread :: "'ip live \<Rightarrow> 'ip live" where
  \<comment> \<open>a session as it is read back: last used when its row was last written\<close>
  "reread l = live_new ((lv_info l)\<lparr>si_last_used_ms := lv_written_last_used_ms l\<rparr>)"

lemma read_row_ok:
  assumes "row_ok True show_ip l r" and "live_ok h l" and "\<And>ip. parse_ip (show_ip ip) = Some ip"
  shows "read_row parse_ip (h, r) = Some (lv_info (reread l))"
  using assms by (simp add: read_row_def row_ok_def live_ok_def reread_def live_new_def)

text \<open>
  C22: after any operations during which the database did not fail, a restarted engine has the same
  sessions: the same tokens are known, with their user, role, client and start, and each counts as
  last used at most a minute before it really was, so none outlives its limits and none is lost.
\<close>

theorem restart_keeps_sessions:
  assumes reach: "(session_step True sha256 show_ip)\<^sup>*\<^sup>* (no_sessions policy) s"
    and ip: "\<And>ip. parse_ip (show_ip ip) = Some ip"
  shows "\<exists>s'. load_sessions parse_ip (se_db s) policy False fails = Ok s' \<and> se_db s' = se_db s
    \<and> (\<forall>h. bt_get (se_live s') h = map_option reread (bt_get (se_live s) h))
    \<and> (\<forall>h l. bt_get (se_live s) h = Some l
        \<longrightarrow> si_last_used_ms (lv_info (reread l)) \<le> si_last_used_ms (lv_info l)
          \<and> si_last_used_ms (lv_info l) < si_last_used_ms (lv_info (reread l)) + TOUCH_WRITE_MS)"
proof -
  have ok: "sessions_ok True show_ip s" by (rule sm.reachable_inv [OF reach])
  then have dbok: "bt_ok (se_db s)" by (simp add: sessions_ok_def)
  let ?g = "\<lambda>h r. lv_info (reread (the (bt_get (se_live s) h)))"
  have row: "\<exists>l. bt_get (se_live s) h = Some l \<and> live_ok h l \<and> row_ok True show_ip l r"
    if r: "bt_get (se_db s) h = Some r" for h r
  proof -
    obtain l where "bt_get (se_live s) h = Some l"
      using ok r unfolding sessions_ok_def by blast
    with sessions_okD [OF ok this] r show ?thesis by auto
  qed
  have "read_row parse_ip (h, r) = Some (?g h r)" if "(h, r) \<in> set (se_db s)" for h r
  proof -
    have "bt_get (se_db s) h = Some r" using that btm.entries_get [OF dbok] by blast
    then obtain l where "bt_get (se_live s) h = Some l" "live_ok h l" "row_ok True show_ip l r"
      using row by blast
    then show ?thesis using read_row_ok [of show_ip l r h parse_ip] ip by simp
  qed
  from load_readable [OF dbok this] obtain s' where
    s': "load_sessions parse_ip (se_db s) policy False fails = Ok s'" "se_db s' = se_db s"
      "\<forall>h. bt_get (se_live s') h = map_option (\<lambda>r. live_new (?g h r)) (bt_get (se_db s) h)"
    by blast
  have "bt_get (se_live s') h = map_option reread (bt_get (se_live s) h)" for h
  proof (cases "bt_get (se_live s) h")
    case None
    then have "bt_get (se_db s) h = None" using row by (metis option.exhaust option.distinct(1))
    with None s'(3) show ?thesis by simp
  next
    case (Some l)
    then obtain r where "bt_get (se_db s) h = Some r" using sessions_okD(2) [OF ok] by blast
    with Some s'(3) show ?thesis by (simp add: reread_def live_new_def)
  qed
  moreover have "live_ok h l" if "bt_get (se_live s) h = Some l" for h l
    using sessions_okD(1) [OF ok that] .
  ultimately show ?thesis
    using s'(1,2) by (auto simp: reread_def live_new_def live_ok_def)
qed

subsection \<open>Ended sessions\<close>

fun op_creates :: "(string \<Rightarrow> u8 list) \<Rightarrow> 'ip session_op \<Rightarrow> string option" where
  "op_creates sha256 (Create random _ _ _ _ _) = map_option (hash_token sha256) (new_token random)"
| "op_creates sha256 _ = None"

lemma run_op_not_live:
  assumes "bt_get (se_live s) h = None" and "op_creates sha256 op \<noteq> Some h"
  shows "bt_get (se_live (run_op sha256 show_ip op s)) h = None"
  using assms
  by (cases op) (auto simp: session_create_def session_lookup_def session_end_def Let_def bt_get_insert
      bt_get_remove split: option.splits prod.splits if_splits)

lemma run_ops_not_live:
  assumes "bt_get (se_live s) h = None" and "\<forall>op\<in>set ops. op_creates sha256 op \<noteq> Some h"
  shows "bt_get (se_live (fold (run_op sha256 show_ip) ops s)) h = None"
  using assms by (induction ops arbitrary: s) (auto simp: run_op_not_live)

text \<open>
  With a database that works, a lookup answers that a session is valid exactly when the token
  has the right shape, its hash is live and both time limits still hold; it then returns the session
  as it was created, last used now when the request was an activity.
\<close>

lemma lookup_valid_iff:
  "fst (session_lookup sha256 token now activity False s) = Ok (Valid info)
   \<longleftrightarrow> is_token_shaped token \<and> (\<exists>l. bt_get (se_live s) (hash_token sha256 token) = Some l
    \<and> now - si_created_ms (lv_info l) < sp_absolute_ms (se_policy s)
    \<and> now - si_last_used_ms (lv_info l) < sp_idle_ms (se_policy s)
    \<and> info = (lv_info l)\<lparr>si_last_used_ms := (if activity then max now (si_last_used_ms (lv_info l))
        else si_last_used_ms (lv_info l))\<rparr>)"
  by (cases "bt_get (se_live s) (hash_token sha256 token)")
    (auto simp: session_lookup_def session_end_def Let_def expiry_def touch_def max_def
      split: option.splits prod.splits if_splits sum.splits)

text \<open>
  C23: a session that a lookup or an end has ended, even when the database failed, is unknown to every
  later lookup until the engine restarts, whatever happens in between, unless the same token is
  drawn again.
\<close>

theorem ended_sessions_stay_ended:
  assumes "bt_get (se_live s) (hash_token sha256 token) = Some l"
    and "(\<exists>reason. t = snd (session_end (hash_token sha256 token) reason fails s))
      \<or> (expiry (se_policy s) (lv_info l) now \<noteq> None \<and> is_token_shaped token
          \<and> t = snd (session_lookup sha256 token now activity fails s))"
    and "\<forall>op\<in>set ops. op_creates sha256 op \<noteq> Some (hash_token sha256 token)"
  shows "fst (session_lookup sha256 token later activity' fails' (fold (run_op sha256 show_ip) ops t)) = Ok Unknown"
proof -
  have gone: "bt_get (se_live (snd (session_end h reason fails s))) h = None" for h reason
    by (auto simp: session_end_def Let_def bt_get_remove)
  have "bt_get (se_live t) (hash_token sha256 token) = None"
    using assms(2)
  proof
    assume "expiry (se_policy s) (lv_info l) now \<noteq> None \<and> is_token_shaped token
        \<and> t = snd (session_lookup sha256 token now activity fails s)"
    then obtain reason where "t = snd (session_end (hash_token sha256 token) reason fails s)"
      using lookup_expired [OF _ assms(1)] by blast
    then show ?thesis using gone by simp
  qed (use gone in auto)
  from run_ops_not_live [OF this assms(3)] show ?thesis by (simp add: session_lookup_def)
qed

subsection \<open>Concrete inputs\<close>

definition sample_sha256 :: "string \<Rightarrow> u8 list" where
  "sample_sha256 t = [of_nat (length t)]"

definition sample_token :: string where
  "sample_token = replicate 43 (CHR ''A'')"

definition sample_info :: "string session_info" where
  "sample_info = \<lparr> si_token_hash = ''2b'', si_user = ''alice@pve'', si_role = Operator,
     si_client = ''100.64.0.9'', si_created_ms = 1000, si_last_used_ms = 1000 \<rparr>"

definition sample_sessions :: "string sessions" where
  "sample_sessions = \<lparr> se_policy = session_policy_default, se_live = [(''2b'', live_new sample_info)],
     se_db = [(''2b'', row_of id sample_info)], se_told = [] \<rparr>"

lemma session_sample_facts:
  "hash_token sample_sha256 sample_token = ''2b''" "is_token_shaped sample_token"
  "bt_get (se_live sample_sessions) ''2b'' = Some (live_new sample_info)"
  "new_token (Some (replicate 32 0)) = Some sample_token"
  by code_simp+

theorem ended_sessions_stay_ended_witness:
  "fst (session_lookup sample_sha256 sample_token 5000 True False
     (fold (run_op sample_sha256 id) [Create None ''bob@pve'' Viewer ''100.64.0.9'' 3000 False]
        (snd (session_end (hash_token sample_sha256 sample_token) LoggedOut True sample_sessions)))) = Ok Unknown"
  by (rule ended_sessions_stay_ended [of sample_sessions sample_sha256 sample_token "live_new sample_info" _ True])
    (auto simp: session_sample_facts new_token_def)

theorem restart_keeps_sessions_witness:
  "\<exists>s'. load_sessions Some (se_db sample_sessions) session_policy_default False False = Ok s' \<and> se_db s' = se_db sample_sessions
    \<and> (\<forall>h. bt_get (se_live s') h = map_option reread (bt_get (se_live sample_sessions) h))"
proof -
  have "run_op sample_sha256 id (Create (Some (replicate 32 0)) ''alice@pve'' Operator ''100.64.0.9'' 1000 False)
      (no_sessions session_policy_default) = sample_sessions"
    by (simp add: session_create_def session_sample_facts Let_def no_sessions_def sample_sessions_def sample_info_def
        bt_empty_def bt_contains_key_def bt_get_def)
  then have "session_step True sample_sha256 id (no_sessions session_policy_default) sample_sessions"
    by (metis op_fails.simps(1) session_stepI)
  from restart_keeps_sessions [OF r_into_rtranclp [of "session_step True sample_sha256 id", OF this], of Some False]
  show ?thesis by auto
qed

text \<open>
  An end whose delete fails has already taken the session out of the table, and the caller cannot
  end it again; the row it leaves is read back by the next start, and the session lives on.
\<close>

lemma failed_end_survives_restart:
  "(case load_sessions Some (se_db (snd (session_end ''2b'' LoggedOut True sample_sessions)))
      session_policy_default False False of
     Err _ \<Rightarrow> False
   | Ok s' \<Rightarrow> fst (session_lookup sample_sha256 sample_token 5000 False False s') = Ok (Valid sample_info))"
  by code_simp

end
