(* ===== verification/Auth_Limits.thy ===== *)
theory Auth_Limits
  imports Rust_BTree
begin

section \<open>Limits on login attempts\<close>

text \<open>
  Models src/v3/crates/bmacd/src/auth/limits.rs: sliding windows of attempts per key. Times are
  milliseconds, integers here. Of the keys that have been idle equally long, the order of a
  \<^verbatim>\<open>HashMap\<close> decides which one is forgotten; the model takes the first one in key order, and no
  theorem depends on it. The abstract view is the log of everything that was recorded: the limiter
  answers as if it had kept that log, as long as its table does not overflow.
\<close>

definition MAX_KEYS :: nat where
  "MAX_KEYS = 10000"

record window =
  w_limit :: nat
  w_period_ms :: int

record limited =
  retry_after_seconds :: nat
  limited_first :: bool

record hits =
  h_times :: "int list"
  h_announced :: bool

record limiter =
  lm_window :: window
  lm_keys :: "(string, hits) btree"

definition limiter_new :: "window \<Rightarrow> limiter" where
  "limiter_new w = \<lparr> lm_window = w, lm_keys = bt_empty \<rparr>"

definition hits_default :: hits where
  "hits_default = \<lparr> h_times = [], h_announced = False \<rparr>"

definition hits_back :: "hits \<Rightarrow> int option" where
  "hits_back h = (if h_times h = [] then None else Some (last (h_times h)))"

definition limiter_check :: "string \<Rightarrow> int \<Rightarrow> limiter \<Rightarrow> (limited, unit) result \<times> limiter" where
  "limiter_check key now s =
     (let w = lm_window s in
      case bt_get (lm_keys s) key of
        None \<Rightarrow> (Ok (), s)
      | Some hits \<Rightarrow>
          let hits = hits\<lparr>h_times := dropWhile (\<lambda>t. t \<le> now - w_period_ms w) (h_times hits)\<rparr> in
          if length (h_times hits) < w_limit w
          then (Ok (), s\<lparr>lm_keys := bt_insert key (hits\<lparr>h_announced := False\<rparr>) (lm_keys s)\<rparr>)
          else let oldest = (case h_times hits of [] \<Rightarrow> now | t # _ \<Rightarrow> t);
                   wait_ms = max (oldest + w_period_ms w - now) 1000
               in (Err \<lparr> retry_after_seconds = nat_div_ceil (nat wait_ms) 1000,
                         limited_first = (\<not> h_announced hits) \<rparr>,
                   s\<lparr>lm_keys := bt_insert key (hits\<lparr>h_announced := True\<rparr>) (lm_keys s)\<rparr>))"

definition forget_one :: "int \<Rightarrow> limiter \<Rightarrow> limiter" where
  "forget_one now s =
     (let kept = filter (\<lambda>e. is_some_and (\<lambda>t. now - w_period_ms (lm_window s) < t) (hits_back (snd e))) (lm_keys s);
          idle = min_by (\<lambda>a b. unwrap_or i64_min (hits_back (snd a)) \<le> unwrap_or i64_min (hits_back (snd b))) kept
      in s\<lparr>lm_keys :=
          (case idle of
             Some e \<Rightarrow> if MAX_KEYS \<le> length kept then bt_remove (fst e) kept else kept
           | None \<Rightarrow> kept)\<rparr>)"

definition limiter_record :: "string \<Rightarrow> int \<Rightarrow> limiter \<Rightarrow> limiter" where
  \<comment> \<open>popping from the front until at most \<open>limit\<close> times are left keeps the last ones\<close>
  "limiter_record key now s =
     (let s = (if \<not> bt_contains_key (lm_keys s) key \<and> MAX_KEYS \<le> length (lm_keys s) then forget_one now s else s);
          hits = unwrap_or hits_default (bt_get (lm_keys s) key);
          times = h_times hits @ [now];
          times = drop (length times - w_limit (lm_window s)) times
      in s\<lparr>lm_keys := bt_insert key (hits\<lparr>h_times := times\<rparr>) (lm_keys s)\<rparr>)"

subsection \<open>The log of recorded hits\<close>

type_synonym hit_log = "(string \<times> int) list"

definition log_of :: "string \<Rightarrow> hit_log \<Rightarrow> int list" where
  "log_of k log = map snd (filter (\<lambda>e. fst e = k) log)"

definition recent :: "int \<Rightarrow> int \<Rightarrow> int list \<Rightarrow> int list" where
  "recent period now ts = filter (\<lambda>t. now - period < t) ts"

definition hits_ok :: "window \<Rightarrow> int \<Rightarrow> int list \<Rightarrow> int list \<Rightarrow> bool" where
  \<comment> \<open>the stored times are the end of the log, and what is missing has expired or does not matter
    because the limit is reached without it\<close>
  "hits_ok w now log ts =
     (sorted log \<and> (\<forall>t\<in>set log. t \<le> now) \<and> length ts \<le> w_limit w
      \<and> (\<exists>old. log = old @ ts \<and> ((\<forall>t\<in>set old. t \<le> now - w_period_ms w) \<or> length ts = w_limit w)))"

definition stored :: "limiter \<Rightarrow> string \<Rightarrow> int list" where
  "stored s k = (case bt_get (lm_keys s) k of None \<Rightarrow> [] | Some h \<Rightarrow> h_times h)"

definition limiter_ok :: "window \<Rightarrow> hit_log \<Rightarrow> int \<Rightarrow> limiter \<Rightarrow> bool" where
  "limiter_ok w log now s =
     (lm_window s = w \<and> 0 < w_limit w \<and> bt_ok (lm_keys s) \<and> (\<forall>k. hits_ok w now (log_of k log) (stored s k)))"

definition live_keys :: "int \<Rightarrow> hit_log \<Rightarrow> int \<Rightarrow> string set" where
  "live_keys period log now = {k. \<exists>t. (k, t) \<in> set log \<and> now - period < t}"

lemma hits_ok_later: "hits_ok w now log ts \<Longrightarrow> now \<le> now' \<Longrightarrow> hits_ok w now' log ts"
  unfolding hits_ok_def by fastforce

lemma limiter_ok_later: "limiter_ok w log now s \<Longrightarrow> now \<le> now' \<Longrightarrow> limiter_ok w log now' s"
  using hits_ok_later by (fastforce simp: limiter_ok_def)

lemma dropWhile_expired:
  "sorted ts \<Longrightarrow> t \<in> set (dropWhile (\<lambda>t. t \<le> b) ts) \<Longrightarrow> (b::int) < t"
  by (induction ts) (auto split: if_splits)

lemma hits_ok_expire:
  assumes "hits_ok w now log ts"
  shows "hits_ok w now log (dropWhile (\<lambda>t. t \<le> now - w_period_ms w) ts)"
proof (cases "dropWhile (\<lambda>t. t \<le> now - w_period_ms w) ts = ts")
  case False
  let ?gone = "takeWhile (\<lambda>t. t \<le> now - w_period_ms w) ts"
  obtain old where old: "log = old @ ts" and log: "sorted log" using assms by (auto simp: hits_ok_def)
  have ts: "ts = ?gone @ dropWhile (\<lambda>t. t \<le> now - w_period_ms w) ts" by simp
  have "?gone \<noteq> []" using False ts by (metis append_Nil)
  then obtain g where g: "g \<in> set ?gone" by (meson last_in_set)
  then have "t \<le> now - w_period_ms w" if "t \<in> set (old @ ?gone)" for t
    using that log set_takeWhileD [OF g] set_takeWhileD [of t "\<lambda>t. t \<le> now - w_period_ms w" ts]
    unfolding old by (auto simp: sorted_append intro: order_trans)
  moreover have "log = (old @ ?gone) @ dropWhile (\<lambda>t. t \<le> now - w_period_ms w) ts" using old ts by simp
  moreover have "length (dropWhile (\<lambda>t. t \<le> now - w_period_ms w) ts) \<le> w_limit w"
    using assms length_dropWhile_le order_trans unfolding hits_ok_def by blast
  ultimately show ?thesis using assms unfolding hits_ok_def by blast
qed (use assms in simp)

lemma recent_count:
  assumes "hits_ok w now log ts" and "\<And>t. t \<in> set ts \<Longrightarrow> now - w_period_ms w < t"
  shows "length (recent (w_period_ms w) now log) < w_limit w \<longleftrightarrow> length ts < w_limit w"
proof -
  obtain old where old: "log = old @ ts" "(\<forall>t\<in>set old. t \<le> now - w_period_ms w) \<or> length ts = w_limit w"
    using assms(1) by (auto simp: hits_ok_def)
  have "recent (w_period_ms w) now log = recent (w_period_ms w) now old @ ts"
    using assms(2) by (simp add: recent_def old(1))
  moreover have "recent (w_period_ms w) now old = []" if "\<forall>t\<in>set old. t \<le> now - w_period_ms w"
    using that by (auto simp: recent_def filter_empty_conv)
  ultimately show ?thesis using old(2) by auto
qed

lemma hits_ok_push:
  assumes "hits_ok w now log ts"
  shows "hits_ok w now (log @ [now]) (drop (length (ts @ [now]) - w_limit w) (ts @ [now]))"
proof -
  obtain old where old: "log = old @ ts" "(\<forall>t\<in>set old. t \<le> now - w_period_ms w) \<or> length ts = w_limit w"
    using assms by (auto simp: hits_ok_def)
  have log: "sorted (log @ [now])" "\<forall>t\<in>set (log @ [now]). t \<le> now"
    using assms by (auto simp: hits_ok_def sorted_append)
  show ?thesis
  proof (cases "length ts = w_limit w")
    case True
    have "log @ [now] = (old @ take 1 (ts @ [now])) @ drop 1 (ts @ [now])"
      using old(1) by (metis append_assoc append_take_drop_id)
    with log True show ?thesis unfolding hits_ok_def by (auto intro!: exI [of _ "old @ take 1 (ts @ [now])"])
  next
    case False
    with assms old log show ?thesis unfolding hits_ok_def by (auto intro!: exI [of _ old])
  qed
qed

lemma sorted_le_last: "sorted xs \<Longrightarrow> x \<in> set xs \<Longrightarrow> x \<le> last xs"
  by (induction xs) auto

lemma hits_ok_forgotten:
  assumes "hits_ok w now log ts" and "0 < w_limit w" and "ts = [] \<or> last ts \<le> now - w_period_ms w"
  shows "hits_ok w now log []"
proof -
  obtain old where old: "log = old @ ts" "(\<forall>t\<in>set old. t \<le> now - w_period_ms w) \<or> length ts = w_limit w"
    and log: "sorted log" "\<forall>t\<in>set log. t \<le> now"
    using assms(1) by (auto simp: hits_ok_def)
  have "t \<le> now - w_period_ms w" if t: "t \<in> set log" for t
  proof (cases "ts = []")
    case True
    with old t assms(2) show ?thesis by auto
  next
    case False
    then have "last ts = last log" using old(1) by simp
    moreover have "t \<le> last log" by (rule sorted_le_last [OF log(1) t])
    ultimately show ?thesis using assms(3) False by simp
  qed
  with log show ?thesis unfolding hits_ok_def by simp
qed

lemma limiter_check_absent: "bt_get (lm_keys s) k = None \<Longrightarrow> limiter_check k now s = (Ok (), s)"
  by (simp add: limiter_check_def Let_def)

lemma stored_check:
  "stored (snd (limiter_check k now s)) j
   = (if j = k then dropWhile (\<lambda>t. t \<le> now - w_period_ms (lm_window s)) (stored s k) else stored s j)"
  by (cases "bt_get (lm_keys s) k")
    (auto simp: limiter_check_def Let_def stored_def bt_get_insert)

lemma check_answer:
  assumes "0 < w_limit (lm_window s)"
  shows "is_ok (fst (limiter_check k now s))
    \<longleftrightarrow> length (dropWhile (\<lambda>t. t \<le> now - w_period_ms (lm_window s)) (stored s k)) < w_limit (lm_window s)"
  using assms by (cases "bt_get (lm_keys s) k") (auto simp: limiter_check_def Let_def stored_def)

lemma check_window [simp]: "lm_window (snd (limiter_check k now s)) = lm_window s"
  by (cases "bt_get (lm_keys s) k") (auto simp: limiter_check_def Let_def)

lemma check_bt_ok: "bt_ok (lm_keys s) \<Longrightarrow> bt_ok (lm_keys (snd (limiter_check k now s)))"
  by (cases "bt_get (lm_keys s) k") (auto simp: limiter_check_def Let_def bt_ok_insert)

lemma hits_ok_sorted: "hits_ok w now log ts \<Longrightarrow> sorted ts"
  by (auto simp: hits_ok_def sorted_append)

lemma check_refines:
  assumes ok: "limiter_ok w log now0 s" and "now0 \<le> now"
  shows "limiter_ok w log now (snd (limiter_check k now s))"
    and "is_ok (fst (limiter_check k now s))
      \<longleftrightarrow> length (recent (w_period_ms w) now (log_of k log)) < w_limit w"
proof -
  let ?ts = "\<lambda>k. dropWhile (\<lambda>t. t \<le> now - w_period_ms w) (stored s k)"
  have w: "lm_window s = w" "0 < w_limit w" and each: "hits_ok w now (log_of k log) (stored s k)" for k
    using ok hits_ok_later [OF _ assms(2)] by (auto simp: limiter_ok_def)
  note expired = hits_ok_expire [OF each]
  show "limiter_ok w log now (snd (limiter_check k now s))"
    using ok w each expired by (auto simp: limiter_ok_def stored_check check_bt_ok)
  have "\<And>t. t \<in> set (?ts k) \<Longrightarrow> now - w_period_ms w < t"
    using dropWhile_expired [OF hits_ok_sorted [OF each]] .
  from recent_count [OF expired this] w show "is_ok (fst (limiter_check k now s))
      \<longleftrightarrow> length (recent (w_period_ms w) now (log_of k log)) < w_limit w"
    by (simp add: check_answer)
qed

lemma live_keys_finite: "finite (live_keys period log now)"
  by (rule finite_subset [of _ "fst ` set log"]) (force simp: live_keys_def)+

lemma stored_in_log: "limiter_ok w log now s \<Longrightarrow> t \<in> set (stored s k) \<Longrightarrow> (k, t) \<in> set log"
proof -
  assume "limiter_ok w log now s" and t: "t \<in> set (stored s k)"
  then have "hits_ok w now (log_of k log) (stored s k)" by (simp add: limiter_ok_def)
  then have "t \<in> set (log_of k log)" using t by (auto simp: hits_ok_def)
  then show "(k, t) \<in> set log" by (auto simp: log_of_def)
qed

lemma bt_get_filter:
  assumes "bt_ok m"
  shows "bt_get (filter (\<lambda>e. p (snd e)) m) k = option_filter p (bt_get m k)"
  using assms by (induction m) (auto simp: bt_get_def option_filter_def map_of_eq_None_iff)

lemma bt_ok_filter: "bt_ok m \<Longrightarrow> bt_ok (filter p m)"
  by (induction m) auto

lemma length_keys_le:
  assumes "bt_ok m" and "\<And>k v. bt_get m k = Some v \<Longrightarrow> k \<in> K" and "finite K"
  shows "length m \<le> card K"
proof -
  have "set (map fst m) \<subseteq> K"
    using assms(2) btm.entries_get [OF assms(1)] by fastforce
  then have "card (set (map fst m)) \<le> card K" by (rule card_mono [OF assms(3)])
  then show ?thesis using distinct_card [OF bt_ok_distinct [OF assms(1)]] by simp
qed

lemma forget_one_refines:
  assumes ok: "limiter_ok w log now s" and few: "card (live_keys (w_period_ms w) log now) < MAX_KEYS"
  shows "limiter_ok w log now (forget_one now s)"
proof -
  let ?live = "\<lambda>h. is_some_and (\<lambda>t. now - w_period_ms w < t) (hits_back h)"
  let ?kept = "filter (\<lambda>e. ?live (snd e)) (lm_keys s)"
  have w: "lm_window s = w" "0 < w_limit w" and bt: "bt_ok (lm_keys s)"
    and each: "hits_ok w now (log_of k log) (stored s k)" for k
    using ok by (auto simp: limiter_ok_def)
  have get: "bt_get ?kept k = option_filter ?live (bt_get (lm_keys s) k)" for k
    by (rule bt_get_filter [OF bt])
  have "k \<in> live_keys (w_period_ms w) log now" if h: "bt_get ?kept k = Some h" for k h
  proof -
    have "stored s k = h_times h" "?live h" using h by (auto simp: get stored_def)
    then have "h_times h \<noteq> []" "now - w_period_ms w < last (h_times h)" "last (h_times h) \<in> set (stored s k)"
      by (auto simp: hits_back_def split: if_splits)
    then show ?thesis using stored_in_log [OF ok] unfolding live_keys_def by blast
  qed
  then have "length ?kept \<le> card (live_keys (w_period_ms w) log now)"
    by (rule length_keys_le [OF bt_ok_filter [OF bt] _ live_keys_finite])
  then have "\<not> MAX_KEYS \<le> length ?kept" using few by simp
  then have kept: "forget_one now s = s\<lparr>lm_keys := ?kept\<rparr>"
    using w by (simp add: forget_one_def Let_def split: option.splits)
  have "hits_ok w now (log_of k log) (stored (s\<lparr>lm_keys := ?kept\<rparr>) k)" for k
  proof (cases "bt_get ?kept k")
    case (Some h)
    then show ?thesis using each [of k] by (simp add: stored_def get)
  next
    case None
    then have "option_filter ?live (bt_get (lm_keys s) k) = None" using get by simp
    then have "stored s k = [] \<or> last (stored s k) \<le> now - w_period_ms w"
      by (cases "bt_get (lm_keys s) k")
        (auto simp: stored_def option_filter_def hits_back_def split: if_splits)
    then show ?thesis using hits_ok_forgotten [OF each w(2)] None by (simp add: stored_def)
  qed
  then show ?thesis using w bt unfolding kept limiter_ok_def by (simp add: bt_ok_filter)
qed

lemma record_refines:
  assumes ok: "limiter_ok w log now0 s" and "now0 \<le> now"
    and few: "card (live_keys (w_period_ms w) log now) < MAX_KEYS"
  shows "limiter_ok w (log @ [(k, now)]) now (limiter_record k now s)"
proof -
  define s' where
    "s' = (if \<not> bt_contains_key (lm_keys s) k \<and> MAX_KEYS \<le> length (lm_keys s) then forget_one now s else s)"
  have "limiter_ok w log now s"
    using ok hits_ok_later [OF _ assms(2)] by (auto simp: limiter_ok_def)
  then have ok': "limiter_ok w log now s'" using forget_one_refines few by (simp add: s'_def)
  let ?ts = "stored s' k @ [now]"
  have w: "lm_window s' = w" using ok' by (simp add: limiter_ok_def)
  have "stored (limiter_record k now s) j
      = (if j = k then drop (length ?ts - w_limit w) ?ts else stored s' j)" for j
    using w unfolding limiter_record_def Let_def s'_def [symmetric]
    by (auto simp: stored_def bt_get_insert hits_default_def split: option.splits)
  moreover have "lm_window (limiter_record k now s) = w" "bt_ok (lm_keys (limiter_record k now s))"
    using ok' w unfolding limiter_record_def Let_def s'_def [symmetric] by (auto simp: limiter_ok_def bt_ok_insert)
  moreover have "log_of j (log @ [(k, now)]) = (if j = k then log_of k log @ [now] else log_of j log)" for j
    by (simp add: log_of_def)
  moreover have "hits_ok w now (log_of k log @ [now]) (drop (length ?ts - w_limit w) ?ts)"
    using ok' by (intro hits_ok_push) (simp add: limiter_ok_def)
  ultimately show ?thesis
    using ok' unfolding limiter_ok_def by simp
qed

subsection \<open>Sequences of operations\<close>

datatype limiter_op = LimitCheck string int | LimitRecord string int

fun limit_op_time :: "limiter_op \<Rightarrow> int" where
  "limit_op_time (LimitCheck _ t) = t"
| "limit_op_time (LimitRecord _ t) = t"

fun run_limit_op :: "limiter_op \<Rightarrow> limiter \<Rightarrow> limiter" where
  "run_limit_op (LimitCheck k t) s = snd (limiter_check k t s)"
| "run_limit_op (LimitRecord k t) s = limiter_record k t s"

fun op_log :: "limiter_op \<Rightarrow> hit_log" where
  "op_log (LimitCheck _ _) = []"
| "op_log (LimitRecord k t) = [(k, t)]"

definition limit_log :: "limiter_op list \<Rightarrow> hit_log" where
  "limit_log ops = concat (map op_log ops)"

definition table_suffices :: "int \<Rightarrow> limiter_op list \<Rightarrow> bool" where
  \<comment> \<open>whenever something is recorded, fewer than \<open>MAX_KEYS\<close> keys have been hit within the period\<close>
  "table_suffices period ops =
     (\<forall>i<length ops. card (live_keys period (limit_log (take i ops)) (limit_op_time (ops ! i))) < MAX_KEYS)"

lemma limiter_new_ok: "0 < w_limit w \<Longrightarrow> limiter_ok w [] now (limiter_new w)"
  by (simp add: limiter_ok_def limiter_new_def stored_def bt_ok_empty bt_get_empty hits_ok_def log_of_def)

lemma run_limit_ops_ok:
  assumes "0 < w_limit w" and "sorted (map limit_op_time ops)" and "table_suffices (w_period_ms w) ops"
    and "\<forall>op\<in>set ops. limit_op_time op \<le> now"
  shows "limiter_ok w (limit_log ops) now (fold run_limit_op ops (limiter_new w))"
  using assms
proof (induction ops arbitrary: now rule: rev_induct)
  case Nil
  then show ?case by (simp add: limit_log_def limiter_new_ok)
next
  case (snoc op ops)
  let ?t = "limit_op_time op" and ?s = "fold run_limit_op ops (limiter_new w)"
  have few: "card (live_keys (w_period_ms w) (limit_log (take i (ops @ [op]))) (limit_op_time ((ops @ [op]) ! i))) < MAX_KEYS"
    if "i \<le> length ops" for i
    using snoc.prems(3) that by (simp add: table_suffices_def)
  have "table_suffices (w_period_ms w) ops"
    unfolding table_suffices_def
  proof (intro allI impI)
    fix i
    assume "i < length ops"
    with few [of i] show "card (live_keys (w_period_ms w) (limit_log (take i ops)) (limit_op_time (ops ! i))) < MAX_KEYS"
      by (simp add: nth_append)
  qed
  with snoc.prems have ok: "limiter_ok w (limit_log ops) ?t ?s"
    by (intro snoc.IH) (auto simp: sorted_append)
  have "limiter_ok w (limit_log (ops @ [op])) ?t (run_limit_op op ?s)"
  proof (cases op)
    case (LimitCheck k t)
    then show ?thesis using check_refines(1) [OF ok] by (simp add: limit_log_def)
  next
    case (LimitRecord k t)
    have "card (live_keys (w_period_ms w) (limit_log ops) ?t) < MAX_KEYS" using few [of "length ops"] by simp
    from record_refines [OF ok order_refl this, of k] LimitRecord show ?thesis by (simp add: limit_log_def)
  qed
  moreover have "?t \<le> now" using snoc.prems(4) by simp
  ultimately show ?case using limiter_ok_later by simp
qed

lemma refused_wait:
  assumes "limiter_check k now s = (Err l, s')" and "sorted (stored s k)" and "length (stored s k) \<le> w_limit (lm_window s)"
    and "0 < w_limit (lm_window s)" and "now + 1000 * int (retry_after_seconds l) \<le> later"
  shows "is_ok (fst (limiter_check k later s'))"
proof -
  let ?w = "lm_window s"
  let ?ts = "dropWhile (\<lambda>t. t \<le> now - w_period_ms ?w) (stored s k)"
  have s': "s' = snd (limiter_check k now s)" using assms(1) by simp
  have "\<not> length ?ts < w_limit ?w" using check_answer [OF assms(4), of k now] assms(1) by simp
  then obtain t ts where ts: "?ts = t # ts" using assms(4) by (cases ?ts) auto
  obtain h where h: "bt_get (lm_keys s) k = Some h"
    using assms(1) by (cases "bt_get (lm_keys s) k") (auto simp: limiter_check_absent)
  then have "retry_after_seconds l = nat_div_ceil (nat (max (t + w_period_ms ?w - now) 1000)) 1000"
    using assms(1) ts by (auto simp: limiter_check_def Let_def stored_def split: if_splits)
  then have "nat (t + w_period_ms ?w - now) \<le> retry_after_seconds l * 1000"
    using nat_div_ceil_mult_ge [of 1000 "nat (max (t + w_period_ms ?w - now) 1000)"] by simp
  then have "t \<le> later - w_period_ms ?w" using assms(5) by linarith
  then have "length (dropWhile (\<lambda>t. t \<le> later - w_period_ms ?w) ?ts) \<le> length ts"
    using ts length_dropWhile_le by simp
  moreover have "length ts < w_limit ?w"
    using ts assms(3) length_dropWhile_le [of "\<lambda>t. t \<le> now - w_period_ms ?w" "stored s k"] by simp
  ultimately show ?thesis using assms(4) unfolding s' by (simp add: check_answer stored_check)
qed

lemma table_suffices_short:
  assumes "length ops \<le> MAX_KEYS"
  shows "table_suffices period ops"
  unfolding table_suffices_def
proof (intro allI impI)
  fix i
  assume i: "i < length ops"
  let ?log = "limit_log (take i ops)"
  have short: "length (op_log op) \<le> 1" for op by (cases op) simp_all
  have "length (limit_log ops') \<le> length ops'" for ops'
    using short by (induction ops') (auto simp: limit_log_def intro: order_trans add_mono)
  then have "length ?log \<le> i" using order_trans by (metis length_take min.bounded_iff nat_le_linear)
  moreover have "card (live_keys period ?log now) \<le> length ?log" for now
    using card_mono [of "fst ` set ?log" "live_keys period ?log now"] card_image_le [of "set ?log" fst] card_length [of ?log]
    by (force simp: live_keys_def)
  ultimately show "card (live_keys period ?log (limit_op_time (ops ! i))) < MAX_KEYS"
    using i assms by (meson le_less_trans less_le_trans)
qed

text \<open>
  C26: as long as fewer than \<open>MAX_KEYS\<close> keys are hit within one period, a check refuses exactly when
  the key has been recorded \<open>limit\<close> times within the last period, however the checks and records of
  all keys followed each other; and once the refused caller has waited the seconds it was told, the
  check accepts it.
\<close>

theorem limiter_exact:
  assumes "0 < w_limit w" and "sorted (map limit_op_time ops)" and "\<forall>op\<in>set ops. limit_op_time op \<le> now"
    and "table_suffices (w_period_ms w) ops"
  defines "s \<equiv> fold run_limit_op ops (limiter_new w)"
  shows "(is_ok (fst (limiter_check k now s))
      \<longleftrightarrow> length (recent (w_period_ms w) now (log_of k (limit_log ops))) < w_limit w)
    \<and> (\<forall>l s' later. limiter_check k now s = (Err l, s') \<longrightarrow> now + 1000 * int (retry_after_seconds l) \<le> later
        \<longrightarrow> is_ok (fst (limiter_check k later s')))"
proof
  have ok: "limiter_ok w (limit_log ops) now s"
    unfolding s_def by (rule run_limit_ops_ok [OF assms(1,2,4,3)])
  then show "is_ok (fst (limiter_check k now s))
      \<longleftrightarrow> length (recent (w_period_ms w) now (log_of k (limit_log ops))) < w_limit w"
    by (rule check_refines(2)) simp
  have "lm_window s = w" and each: "hits_ok w now (log_of k (limit_log ops)) (stored s k)"
    using ok by (auto simp: limiter_ok_def)
  moreover have "sorted (stored s k)" "length (stored s k) \<le> w_limit w"
    using each hits_ok_sorted by (auto simp: hits_ok_def)
  ultimately show "\<forall>l s' later. limiter_check k now s = (Err l, s') \<longrightarrow> now + 1000 * int (retry_after_seconds l) \<le> later
        \<longrightarrow> is_ok (fst (limiter_check k later s'))"
    using refused_wait assms(1) by blast
qed

theorem limiter_exact_witness:
  "\<not> is_ok (fst (limiter_check ''a'' 3000 (fold run_limit_op
      [LimitRecord ''a'' 0, LimitRecord ''b'' 500, LimitCheck ''a'' 700, LimitRecord ''a'' 1000]
      (limiter_new \<lparr> w_limit = 2, w_period_ms = 60000 \<rparr>))))"
proof -
  let ?ops = "[LimitRecord ''a'' 0, LimitRecord ''b'' 500, LimitCheck ''a'' 700, LimitRecord ''a'' 1000]"
  have "table_suffices 60000 ?ops" by (rule table_suffices_short) (simp add: MAX_KEYS_def)
  moreover have "recent 60000 3000 (log_of ''a'' (limit_log ?ops)) = [0, 1000]" by code_simp
  ultimately show ?thesis
    using limiter_exact [of "\<lparr> w_limit = 2, w_period_ms = 60000 \<rparr>" ?ops 3000 "''a''"] by simp
qed

end
