(* ===== verification/Auth_Proxmox.thy ===== *)
theory Auth_Proxmox
  imports Backup_Json
begin

section \<open>Proxmox's login service\<close>

text \<open>
  Models src/v3/crates/bmacd/src/auth/proxmox.rs: the form that asks Proxmox to check a password or
  a second factor, and what its answer means. The connection (TCP, TLS with the node's certificate,
  HTTP) is I/O and is left out: \<open>interpret_answer\<close> starts from the status and the body. serde_json
  (\<open>from_json\<close>, with the text of its error) and the display of a status code are parameters.
\<close>

datatype ticket_form =
    PasswordForm string string
  | SecondFactorForm string string string

record challenge =
  ch_totp :: bool
  ch_recovery :: bool
  ch_webauthn :: bool
  ch_other :: bool

datatype ticket_outcome =
    Granted string
  | SecondFactorNeeded string string challenge

datatype proxmox_error = Refused | Unreachable string | Protocol string

subsection \<open>The form\<close>

definition form_fields :: "ticket_form \<Rightarrow> (string \<times> string) list" where
  "form_fields form =
     (case form of
        PasswordForm user password \<Rightarrow>
          [(''username'', user), (''password'', password), (''new-format'', ''1'')]
      | SecondFactorForm user partial_ticket response \<Rightarrow>
          [(''username'', user), (''password'', response), (''tfa-challenge'', partial_ticket),
           (''new-format'', ''1'')])"

definition form_safe :: "char \<Rightarrow> bool" where
  "form_safe c = (is_ascii_alphanumeric c \<or> c \<in> {CHR ''-'', CHR ''.'', CHR ''_'', CHR ''*''})"

definition hex_char_upper :: "nat \<Rightarrow> char" where
  "hex_char_upper d = (if d < 10 then char_of (48 + d) else char_of (55 + d))"

definition escape_byte :: "char \<Rightarrow> string" where
  "escape_byte c =
     (if form_safe c then [c]
      else if c = CHR '' '' then ''+''
      else [CHR ''%'', hex_char_upper (of_char c div 16), hex_char_upper (of_char c mod 16)])"

definition form_escape :: "string \<Rightarrow> string" where
  "form_escape s = concat (map escape_byte s)"

definition encode_form :: "ticket_form \<Rightarrow> string" where
  "encode_form form =
     join_with ''&'' (map (\<lambda>(k, v). form_escape k @ ''='' @ form_escape v) (form_fields form))"

subsection \<open>The answer\<close>

definition radix16_digit :: "char \<Rightarrow> nat option" where
  "radix16_digit c =
     (if is_ascii_digit c then Some (of_char c - 48)
      else if CHR ''a'' \<le> c \<and> c \<le> CHR ''f'' then Some (of_char c - 87)
      else if CHR ''A'' \<le> c \<and> c \<le> CHR ''F'' then Some (of_char c - 55)
      else None)"

definition radix16_byte :: "char \<Rightarrow> char \<Rightarrow> nat option" where
  \<comment> \<open>\<open>u8::from_str_radix\<close> of two characters, which accepts a leading \<open>+\<close>\<close>
  "radix16_byte a b =
     (if a = CHR ''+'' then radix16_digit b
      else Option.bind (radix16_digit a) (\<lambda>x. map_option (\<lambda>y. 16 * x + y) (radix16_digit b)))"

fun percent_bytes :: "string \<Rightarrow> string option" where
  "percent_bytes [] = Some []"
| "percent_bytes (c # cs) =
     (if c = CHR ''%'' then
        (case cs of
           a # b # rest \<Rightarrow>
             Option.bind (radix16_byte a b) (\<lambda>n. map_option (\<lambda>out. char_of n # out) (percent_bytes rest))
         | _ \<Rightarrow> None)
      else map_option (\<lambda>out. c # out) (percent_bytes cs))"

definition byte_in :: "nat \<Rightarrow> nat \<Rightarrow> char \<Rightarrow> bool" where
  "byte_in lo hi c = (lo \<le> (of_char c :: nat) \<and> (of_char c :: nat) \<le> hi)"

fun utf8_ok :: "string \<Rightarrow> bool" where
  \<comment> \<open>\<open>String::from_utf8\<close>: the well-formed byte sequences of the Unicode standard\<close>
  "utf8_ok [] = True"
| "utf8_ok (a # s) =
     (if byte_in 0 0x7F a then utf8_ok s
      else case s of
        b # t \<Rightarrow>
          if byte_in 0xC2 0xDF a then byte_in 0x80 0xBF b \<and> utf8_ok t
          else (case t of
            c # u \<Rightarrow>
              if byte_in 0xE0 0xEF a then
                byte_in (if of_char a = (0xE0::nat) then 0xA0 else 0x80)
                        (if of_char a = (0xED::nat) then 0x9F else 0xBF) b
                \<and> byte_in 0x80 0xBF c \<and> utf8_ok u
              else (case u of
                d # v \<Rightarrow>
                  byte_in 0xF0 0xF4 a
                  \<and> byte_in (if of_char a = (0xF0::nat) then 0x90 else 0x80)
                            (if of_char a = (0xF4::nat) then 0x8F else 0xBF) b
                  \<and> byte_in 0x80 0xBF c \<and> byte_in 0x80 0xBF d \<and> utf8_ok v
              | [] \<Rightarrow> False)
          | [] \<Rightarrow> False)
      | [] \<Rightarrow> False)"

definition percent_decode :: "string \<Rightarrow> string option" where
  "percent_decode s = option_filter utf8_ok (percent_bytes s)"

fun json_present :: "'f json option \<Rightarrow> bool" where
  "json_present None = False"
| "json_present (Some JNull) = False"
| "json_present (Some (JBool b)) = b"
| "json_present (Some (JArray items)) = (items \<noteq> [])"
| "json_present (Some (JObject items)) = (items \<noteq> [])"
| "json_present (Some _) = True"

definition find_challenge :: "string \<Rightarrow> string option" where
  "find_challenge partial_ticket =
     (case filter_map (strip_prefix ''!tfa!'') (split_on (CHR '':'') partial_ticket) of
        [] \<Rightarrow> None
      | encoded # _ \<Rightarrow> Some encoded)"

definition parse_challenge :: "(string \<Rightarrow> (string, 'f json) result) \<Rightarrow> string \<Rightarrow> challenge option" where
  "parse_challenge from_json partial_ticket =
     Option.bind (find_challenge partial_ticket) (\<lambda>encoded.
     Option.bind (percent_decode encoded) (\<lambda>decoded.
     case from_json decoded of
       Err _ \<Rightarrow> None
     | Ok v \<Rightarrow>
         map_option (\<lambda>fs. \<lparr> ch_totp = json_present (map_of fs ''totp''),
           ch_recovery = json_present (map_of fs ''recovery''),
           ch_webauthn = json_present (map_of fs ''webauthn''),
           ch_other = (json_present (map_of fs ''yubico'') \<or> json_present (map_of fs ''u2f'')) \<rparr>)
         (as_object v)))"

definition as_i64 :: "'f number \<Rightarrow> int option" where
  "as_i64 n = (case n of Integer i \<Rightarrow> (if i64_min \<le> i \<and> i < 2 ^ 63 then Some i else None) | Float _ \<Rightarrow> None)"

fun need_tfa :: "'f json option \<Rightarrow> bool" where
  "need_tfa (Some (JNumber n)) = (as_i64 n \<noteq> Some 0)"
| "need_tfa (Some (JBool b)) = b"
| "need_tfa _ = False"

definition answer_field :: "'f json \<Rightarrow> string \<Rightarrow> string option" where
  "answer_field data name = option_filter (\<lambda>s. s \<noteq> []) (Option.bind (json_get data name) value_as_str)"

fun not_null :: "'f json \<Rightarrow> bool" where
  "not_null JNull = False"
| "not_null _ = True"

definition answer_data :: "'f json \<Rightarrow> 'f json option" where
  "answer_data v = option_filter not_null (json_get v ''data'')"

definition interpret_answer ::
    "(string \<Rightarrow> (string, 'f json) result) \<Rightarrow> (nat \<Rightarrow> string) \<Rightarrow> nat \<Rightarrow> string
     \<Rightarrow> (proxmox_error, ticket_outcome) result" where
  "interpret_answer from_json show_status status body =
     (if status = 401 then Err Refused
      else if status \<noteq> 200 then Err (Protocol (''HTTP '' @ show_status status))
      else and_then (map_err Protocol (from_json body)) (\<lambda>v.
        and_then (ok_or Refused (answer_data v)) (\<lambda>data.
            and_then (ok_or (Protocol ''no user name in the answer'') (answer_field data ''username'')) (\<lambda>user.
            and_then (ok_or (Protocol ''no ticket in the answer'') (answer_field data ''ticket'')) (\<lambda>ticket.
            if \<not> need_tfa (json_get data ''NeedTFA'') then Ok (Granted user)
            else and_then (ok_or (Protocol ''cannot read the second-factor challenge'')
                (parse_challenge from_json ticket)) (\<lambda>ch.
              Ok (SecondFactorNeeded user ticket ch)))))))"

subsection \<open>Reading the form\<close>

text \<open>
  How a server reads the body, \<^verbatim>\<open>application/x-www-form-urlencoded\<close>.
\<close>

fun form_unescape :: "string \<Rightarrow> string" where
  "form_unescape (c # cs) =
     (if c = CHR ''+'' then CHR '' '' # form_unescape cs
      else if c = CHR ''%'' then
        (case cs of
           a # b # rest \<Rightarrow> (case radix16_byte a b of
               Some n \<Rightarrow> char_of n # form_unescape rest
             | None \<Rightarrow> c # form_unescape cs)
         | _ \<Rightarrow> c # form_unescape cs)
      else c # form_unescape cs)"
| "form_unescape [] = []"

definition read_field :: "string \<Rightarrow> string \<times> string" where
  "read_field f =
     (case split_once (CHR ''='') f of
        Some (k, v) \<Rightarrow> (form_unescape k, form_unescape v)
      | None \<Rightarrow> (form_unescape f, []))"

definition read_form :: "string \<Rightarrow> (string \<times> string) list" where
  "read_form body = map read_field (split_on (CHR ''&'') body)"

lemma hex_char_upper_safe: "d < 16 \<Longrightarrow> form_safe (hex_char_upper d)"
proof -
  assume "d < 16"
  moreover have "list_all (\<lambda>d. form_safe (hex_char_upper d)) [0..<16]" by code_simp
  ultimately show ?thesis by (simp add: list_all_iff)
qed

lemma not_form_safe:
  "\<not> form_safe (CHR ''+'')" "\<not> form_safe (CHR ''%'')" "\<not> form_safe (CHR ''&'')" "\<not> form_safe (CHR ''='')"
  by code_simp+

lemma radix16_digit_upper: "d < 16 \<Longrightarrow> radix16_digit (hex_char_upper d) = Some d"
proof -
  assume "d < 16"
  moreover have "list_all (\<lambda>d. radix16_digit (hex_char_upper d) = Some d) [0..<16]" by code_simp
  ultimately show ?thesis by (simp add: list_all_iff)
qed

lemma of_char_less_256: "(of_char c :: nat) < 256"
  by simp

lemma radix16_byte_upper:
  "radix16_byte (hex_char_upper ((of_char c :: nat) div 16)) (hex_char_upper (of_char c mod 16)) = Some (of_char c)"
proof -
  have c: "(of_char c :: nat) div 16 < 16" using of_char_less_256 [of c] by linarith
  have "hex_char_upper ((of_char c :: nat) div 16) \<noteq> CHR ''+''"
    using hex_char_upper_safe [OF c] not_form_safe(1) by metis
  then show ?thesis using c by (simp add: radix16_byte_def radix16_digit_upper)
qed

lemma form_unescape_escape [simp]: "form_unescape (form_escape s) = s"
proof (induction s)
  case (Cons c s)
  have "form_unescape (escape_byte c @ form_escape s) = c # form_unescape (form_escape s)"
    using not_form_safe by (cases "form_safe c") (auto simp: escape_byte_def radix16_byte_upper)
  with Cons.IH show ?case by (simp add: form_escape_def)
qed (simp add: form_escape_def)

lemma escape_byte_chars: "set (escape_byte b) \<subseteq> insert (CHR ''+'') (insert (CHR ''%'') {c. form_safe c})"
proof -
  have "(of_char b :: nat) div 16 < 16" using of_char_less_256 [of b] by linarith
  then show ?thesis by (simp add: escape_byte_def hex_char_upper_safe)
qed

lemma form_escape_chars: "CHR ''&'' \<notin> set (form_escape s)" "CHR ''='' \<notin> set (form_escape s)"
proof -
  have "CHR ''&'' \<notin> set (escape_byte b) \<and> CHR ''='' \<notin> set (escape_byte b)" for b
    using escape_byte_chars [of b] not_form_safe by auto
  then show "CHR ''&'' \<notin> set (form_escape s)" "CHR ''='' \<notin> set (form_escape s)"
    by (auto simp: form_escape_def)
qed

lemma read_field_escaped: "read_field (form_escape k @ CHR ''='' # form_escape v) = (k, v)"
proof -
  have "split_once (CHR ''='') (form_escape k @ CHR ''='' # form_escape v) = Some (form_escape k, form_escape v)"
    using form_escape_chars by (simp add: split_once_Some_iff)
  then show ?thesis by (simp add: read_field_def)
qed

text \<open>
  Whatever characters the user name, the password, the code and the partial ticket contain, the
  server reads from the form exactly the fields that were put in, so no input adds or changes a
  field, and different requests have different forms.
\<close>

lemma form_read_back:
  "read_form (encode_form form) = form_fields form \<and> (encode_form form = encode_form form' \<longleftrightarrow> form = form')"
proof
  show read: "read_form (encode_form form) = form_fields form" for form
  proof -
    let ?parts = "map (\<lambda>(k, v). form_escape k @ ''='' @ form_escape v) (form_fields form)"
    have "?parts \<noteq> []" "\<forall>w\<in>set ?parts. CHR ''&'' \<notin> set w"
      using form_escape_chars by (auto simp: form_fields_def split: ticket_form.splits)
    then have "split_on (CHR ''&'') (encode_form form) = ?parts"
      unfolding encode_form_def by (rule split_on_join)
    then show ?thesis by (simp add: read_form_def comp_def case_prod_beta read_field_escaped)
  qed
  have "form = form'" if "form_fields form = form_fields form'"
    using that by (auto simp: form_fields_def split: ticket_form.splits)
  then show "encode_form form = encode_form form' \<longleftrightarrow> form = form'" using read by metis
qed

lemma interpret_Granted_iff:
  "interpret_answer from_json show_status status body = Ok (Granted user)
   \<longleftrightarrow> status = 200 \<and> (\<exists>v data ticket. from_json body = Ok v \<and> answer_data v = Some data
     \<and> answer_field data ''username'' = Some user \<and> answer_field data ''ticket'' = Some ticket
     \<and> \<not> need_tfa (json_get data ''NeedTFA''))"
  by (auto simp: interpret_answer_def result_ops)

lemma challenge_from_ticket:
  assumes "interpret_answer from_json show_status status body = Ok (SecondFactorNeeded user ticket ch)"
  shows "user \<noteq> [] \<and> parse_challenge from_json ticket = Some ch"
  using assms by (auto simp: interpret_answer_def answer_field_def result_ops split: if_splits)

end
