(* ===== verification/Api_Errors.thy ===== *)
theory Api_Errors
  imports Rust_Text Rust_BTree
begin

section \<open>The errors of the API\<close>

text \<open>
  Models \<^verbatim>\<open>ErrorCode\<close> and \<^verbatim>\<open>ApiError\<close> of src/v3/crates/bmac-proto/src/api.rs, the error
  every operation of the daemon returns, and the sequencing of operations that change a state and
  may fail: an error leaves at once, with the state as the operation left it.
\<close>

datatype error_code =
    Unauthenticated | Forbidden | NotFound | Invalid | Conflict | RateLimited | NoQuorum | Unavailable | Internal

fun http_status :: "error_code \<Rightarrow> u16" where
  "http_status Unauthenticated = 401"
| "http_status Forbidden = 403"
| "http_status NotFound = 404"
| "http_status Invalid = 422"
| "http_status Conflict = 409"
| "http_status RateLimited = 429"
| "http_status NoQuorum = 503"
| "http_status Unavailable = 503"
| "http_status Internal = 500"

record api_error =
  ae_code :: error_code
  ae_message :: string
  ae_field_errors :: "(string, string) btree"
  ae_retry_after_seconds :: "nat option"

definition error_new :: "error_code \<Rightarrow> string \<Rightarrow> api_error" where
  "error_new code message =
     \<lparr> ae_code = code, ae_message = message, ae_field_errors = bt_empty, ae_retry_after_seconds = None \<rparr>"

definition field_error :: "string \<Rightarrow> string \<Rightarrow> string \<Rightarrow> api_error" where
  \<comment> \<open>an \<open>Invalid\<close> error with the message of one field\<close>
  "field_error message field what = (error_new Invalid message)\<lparr>ae_field_errors := bt_insert field what bt_empty\<rparr>"

type_synonym ('s, 'e, 'a) effect = "'s \<Rightarrow> ('e, 'a) result \<times> 's"

definition and_next ::
  "('s, 'e, 'a) effect \<Rightarrow> ('a \<Rightarrow> ('s, 'e, 'b) effect) \<Rightarrow> ('s, 'e, 'b) effect" where
  \<comment> \<open>the \<open>?\<close> operator where the operation also changes the state\<close>
  "and_next m f = (\<lambda>s. case m s of (Err e, t) \<Rightarrow> (Err e, t) | (Ok v, t) \<Rightarrow> f v t)"

definition returns :: "('e, 'a) result \<Rightarrow> ('s, 'e, 'a) effect" where
  "returns r = (\<lambda>s. (r, s))"

definition holds_after ::
  "('s \<Rightarrow> bool) \<Rightarrow> ('s, 'e, 'a) effect \<Rightarrow> ('a \<Rightarrow> 's \<Rightarrow> bool) \<Rightarrow> ('s \<Rightarrow> bool) \<Rightarrow> bool" where
  \<comment> \<open>from a state in \<open>pre\<close>, a result comes in a state in \<open>post\<close> and an error in one in \<open>fails\<close>\<close>
  "holds_after pre m post fails =
     (\<forall>s. pre s \<longrightarrow> (case m s of (Ok v, t) \<Rightarrow> post v t | (Err _, t) \<Rightarrow> fails t))"

named_theorems effect_rules \<open>what holds after an operation\<close>

lemma holds_after_returns [effect_rules]:
  assumes "\<And>s v. pre s \<Longrightarrow> r = Ok v \<Longrightarrow> post v s" and "\<And>s. pre s \<Longrightarrow> fails s"
  shows "holds_after pre (returns r) post fails"
  using assms by (auto simp: holds_after_def returns_def split: sum.splits)

lemma holds_afterD:
  assumes "holds_after pre m post fails" and "pre s" and "m s = (r, t)"
  shows "case r of Ok v \<Rightarrow> post v t | Err _ \<Rightarrow> fails t"
  using assms by (auto simp: holds_after_def split: prod.splits sum.splits)

lemma holds_afterI:
  assumes "\<And>s r t. pre s \<Longrightarrow> m s = (r, t) \<Longrightarrow> (case r of Ok v \<Rightarrow> post v t | Err _ \<Rightarrow> fails t)"
  shows "holds_after pre m post fails"
  unfolding holds_after_def
proof (intro allI impI)
  fix s assume "pre s"
  then show "case m s of (Ok v, t) \<Rightarrow> post v t | (Err _, t) \<Rightarrow> fails t"
    using assms [of s] by (auto split: prod.split)
qed

lemma holds_after_next:
  assumes "holds_after pre m mid fails" and "\<And>v. holds_after (mid v) (f v) post fails"
  shows "holds_after pre (and_next m f) post fails"
proof (rule holds_afterI)
  fix s r t
  assume pre: "pre s" and run: "and_next m f s = (r, t)"
  obtain q u where q: "m s = (q, u)" by (cases "m s")
  note mid = holds_afterD [OF assms(1) pre q]
  show "case r of Ok v \<Rightarrow> post v t | Err _ \<Rightarrow> fails t"
  proof (cases q)
    case (Inl e)
    then show ?thesis using run q mid by (auto simp: and_next_def)
  next
    case (Inr v)
    then have "f v u = (r, t)" "mid v u" using run q mid by (auto simp: and_next_def)
    then show ?thesis by (intro holds_afterD [OF assms(2)])
  qed
qed

lemma and_next_returns [simp]:
  "and_next (returns (Ok v)) f = f v" "and_next (returns (Err e)) f = returns (Err e)"
  by (auto simp: and_next_def returns_def)

lemma and_next_assoc: "and_next (and_next m f) g = and_next m (\<lambda>v. and_next (f v) g)"
  by (rule ext) (simp add: and_next_def split: prod.split sum.split)

lemma snd_returns [simp]: "snd (returns r s) = s"
  by (simp add: returns_def)

lemma and_next_Ok_iff [result_ops]:
  "and_next m f s = (Ok w, u) \<longleftrightarrow> (\<exists>v t. m s = (Ok v, t) \<and> f v t = (Ok w, u))"
  by (auto simp: and_next_def split: prod.splits sum.splits)

lemma returns_Ok_iff [result_ops]: "returns r s = (Ok v, t) \<longleftrightarrow> r = Ok v \<and> t = s"
  by (auto simp: returns_def)

end
