(* ===== verification/Auth_Login.thy ===== *)
theory Auth_Login
  imports Auth_Sessions Auth_Limits Auth_Proxmox Api_Errors
begin

section \<open>Logging in\<close>

text \<open>
  Models \<^verbatim>\<open>Auth\<close> of src/v3/crates/bmacd/src/auth/mod.rs with the revocations of
  src/v3/crates/bmacd/src/auth/revocations.rs and the audit events of
  src/v3/crates/bmacd/src/audit.rs: passwords, second factors, the role of a new session, logging
  out here and everywhere, and the upkeep that ends sessions. Every method is one step on the state
  of one host; what comes from outside during the step (the clock, Proxmox's answer, the text of
  user.cfg, random bytes, failures of the database for a user or a token hash and of the cluster file
  system for a user's revocation record) is a record of its own. The revocation records are those of the cluster, as \<^verbatim>\<open>revoke\<close> writes them.
  \<open>platform\<close> holds the functions of libraries: SHA-256, and the text of an address. Lower-casing is
  Unicode's, a function of the standard library that is left open. Audit events are the ones handed
  to the record log, which may lose them.
\<close>

definition CHALLENGE_TTL_MS :: int where
  "CHALLENGE_TTL_MS = 2 * 60 * 1000"

definition MAX_CHALLENGES :: nat where
  "MAX_CHALLENGES = 1000"

definition MAX_SECOND_FACTOR_TRIES :: nat where
  "MAX_SECOND_FACTOR_TRIES = 3"

definition ACCOUNT_RECHECK_MS :: int where
  "ACCOUNT_RECHECK_MS = 5 * 60 * 1000"

definition MAX_USER :: nat where
  "MAX_USER = 128"

definition MAX_PASSWORD :: nat where
  "MAX_PASSWORD = 4096"

record login_limits =
  ll_per_address :: window
  ll_per_user :: window

definition login_limits_default :: login_limits where
  "login_limits_default = \<lparr>
     ll_per_address = \<lparr> w_limit = 30, w_period_ms = 5 * 60 * 1000 \<rparr>,
     ll_per_user = \<lparr> w_limit = 10, w_period_ms = 15 * 60 * 1000 \<rparr> \<rparr>"

subsection \<open>Requests, answers and errors\<close>

datatype second_factor_method = Totp | Recovery | Webauthn

datatype login_request =
    LoginPassword string string
  | LoginSecondFactor string second_factor_method string

record session_answer =
  sa_token :: string
  sa_user :: string
  sa_role :: role
  sa_idle_timeout_seconds :: u64
  sa_expires_at_ms :: int

datatype login_response =
    ChallengeIssued string "second_factor_method list"
  | LoggedIn session_answer

definition rate_limited :: "limited \<Rightarrow> api_error" where
  "rate_limited l =
     (error_new RateLimited (''too many login attempts; wait '' @ show_nat (retry_after_seconds l)
        @ '' seconds and try again''))\<lparr>ae_retry_after_seconds := Some (retry_after_seconds l)\<rparr>"

definition unavailable :: api_error where
  "unavailable = error_new Unavailable
     ''this host can't check logins right now; try again shortly or use another host''"

datatype audit_kind =
    AuditLogin | AuditLoginFailed | AuditLoginRefused | AuditLoginRateLimited | AuditLogout
  | AuditLogoutEverywhere | AuditSessionEnded | AuditJobLaunched | AuditJobCancelRequested | AuditJobResumed
  | AuditJobReconciled | AuditJobAnswered | AuditSettingsChanged | AuditCertificateChanged
  | AuditAlertAcknowledged | AuditSilenceChanged | AuditNotificationsChanged | AuditJoinChanged
  | AuditApplianceChanged

fun audit_kind_str :: "audit_kind \<Rightarrow> string" where
  "audit_kind_str AuditLogin = ''login''"
| "audit_kind_str AuditLoginFailed = ''login_failed''"
| "audit_kind_str AuditLoginRefused = ''login_refused''"
| "audit_kind_str AuditLoginRateLimited = ''login_rate_limited''"
| "audit_kind_str AuditLogout = ''logout''"
| "audit_kind_str AuditLogoutEverywhere = ''logout_everywhere''"
| "audit_kind_str AuditSessionEnded = ''session_ended''"
| "audit_kind_str AuditJobLaunched = ''job_launched''"
| "audit_kind_str AuditJobCancelRequested = ''job_cancel_requested''"
| "audit_kind_str AuditJobResumed = ''job_resumed''"
| "audit_kind_str AuditJobReconciled = ''job_reconciled''"
| "audit_kind_str AuditJobAnswered = ''job_answered''"
| "audit_kind_str AuditSettingsChanged = ''settings_changed''"
| "audit_kind_str AuditCertificateChanged = ''certificate_changed''"
| "audit_kind_str AuditAlertAcknowledged = ''alert_acknowledged''"
| "audit_kind_str AuditSilenceChanged = ''silence_changed''"
| "audit_kind_str AuditNotificationsChanged = ''notifications_changed''"
| "audit_kind_str AuditJoinChanged = ''join_changed''"
| "audit_kind_str AuditApplianceChanged = ''appliance_changed''"

record 'ip audit_event =
  ev_time_ms :: int
  ev_kind :: audit_kind
  ev_user :: "string option"
  ev_client :: "'ip option"
  ev_message :: string

subsection \<open>The state\<close>

record 'ip platform =
  pl_sha256 :: "string \<Rightarrow> u8 list"
  pl_show_ip :: "'ip \<Rightarrow> string"
  pl_lower :: "string \<Rightarrow> string"

record outside =
  out_now :: int
  out_later :: int
  out_ticket :: "ticket_form \<Rightarrow> (proxmox_error, ticket_outcome) result"
  out_user_cfg :: "string option"
  out_random :: "u8 list option"
  out_db_fails :: "string \<Rightarrow> bool"
  out_read_fails :: "string \<Rightarrow> bool"
  out_write_fails :: bool

record 'ip pending =
  pd_user :: string
  pd_partial_ticket :: string
  pd_client :: 'ip
  pd_created_ms :: int
  pd_methods :: "second_factor_method list"
  pd_tries :: nat

record revocation =
  rv_user :: string
  rv_at_ms :: int

record 'ip auth =
  at_sessions :: "'ip sessions"
  at_address :: limiter
  at_user :: limiter
  at_pending :: "(string, 'ip pending) btree"
  at_revoked :: "(string, revocation) btree"
  at_audit :: "'ip audit_event list"
  at_last_recheck_ms :: int

definition audit ::
    "int \<Rightarrow> audit_kind \<Rightarrow> string option \<Rightarrow> 'ip option \<Rightarrow> string \<Rightarrow> 'ip auth \<Rightarrow> 'ip auth" where
  "audit time kind user client message s =
     s\<lparr>at_audit := at_audit s @ [\<lparr> ev_time_ms = time, ev_kind = kind, ev_user = user, ev_client = client,
        ev_message = message \<rparr>]\<rparr>"

definition auth_new :: "login_limits \<Rightarrow> 'ip sessions \<Rightarrow> (string, revocation) btree \<Rightarrow> int \<Rightarrow> 'ip auth" where
  "auth_new limits sessions revoked now = \<lparr> at_sessions = sessions,
     at_address = limiter_new (ll_per_address limits), at_user = limiter_new (ll_per_user limits),
     at_pending = bt_empty, at_revoked = revoked, at_audit = [], at_last_recheck_ms = now \<rparr>"

subsection \<open>Checks of the input\<close>

definition rsplit_once_char :: "char \<Rightarrow> string \<Rightarrow> (string \<times> string) option" where
  "rsplit_once_char c s = map_option (\<lambda>(a, b). (rev b, rev a)) (split_once c (rev s))"

definition has_white :: "string \<Rightarrow> bool" where
  \<comment> \<open>a character with the property \<open>White_Space\<close> occurs; in UTF-8 its bytes occur nowhere else\<close>
  "has_white s = list_ex (\<lambda>w. contains_str w s) white_space"

fun has_control :: "string \<Rightarrow> bool" where
  \<comment> \<open>a character of the category \<open>Cc\<close> occurs: U+0000 to U+001F and U+007F to U+009F\<close>
  "has_control [] = False"
| "has_control (c # s) =
     (byte_in 0 0x1F c \<or> byte_in 0x7F 0x7F c
      \<or> (byte_in 0xC2 0xC2 c \<and> s \<noteq> [] \<and> byte_in 0x80 0x9F (hd s)) \<or> has_control s)"

definition valid_user :: "string \<Rightarrow> bool" where
  "valid_user user =
     (case rsplit_once_char (CHR ''@'') user of
        None \<Rightarrow> False
      | Some (name, realm) \<Rightarrow>
          length user \<le> MAX_USER \<and> name \<noteq> []
          \<and> \<not> (has_white name \<or> has_control name \<or> list_ex (\<lambda>c. c \<in> {CHR '':'', CHR ''/'', CHR ''!''}) name)
          \<and> 2 \<le> length realm \<and> is_ascii_alphabetic (hd realm)
          \<and> list_all (\<lambda>c. is_ascii_alphanumeric c \<or> c \<in> {CHR ''.'', CHR ''-'', CHR ''_''}) realm)"

definition valid_response :: "second_factor_method \<Rightarrow> string \<Rightarrow> bool" where
  "valid_response method response =
     (case method of
        Totp \<Rightarrow> 6 \<le> length response \<and> length response \<le> 8 \<and> list_all is_ascii_digit response
      | Recovery \<Rightarrow> 1 \<le> length response \<and> length response \<le> 64
          \<and> list_all (\<lambda>c. is_ascii_alphanumeric c \<or> c = CHR ''-'') response
      | Webauthn \<Rightarrow> False)"

fun method_name :: "second_factor_method \<Rightarrow> string" where
  "method_name Totp = ''totp''"
| "method_name Recovery = ''recovery''"
| "method_name Webauthn = ''webauthn''"

function remove_white :: "string \<Rightarrow> string" where
  \<comment> \<open>the characters that are not white space\<close>
  "remove_white s =
     (case s of
        [] \<Rightarrow> []
      | c # cs \<Rightarrow>
          (case find (\<lambda>w. w \<noteq> [] \<and> starts_with w s) white_space of
             Some w \<Rightarrow> remove_white (drop (length w) s)
           | None \<Rightarrow> c # remove_white cs))"
  by pat_completeness auto
termination
  by (relation "measure length") (auto simp: find_Some_iff)

declare remove_white.simps [simp del]

subsection \<open>Counting attempts\<close>

definition refuse_limited ::
    "int \<Rightarrow> 'ip \<Rightarrow> string option \<Rightarrow> string option \<Rightarrow> limited \<Rightarrow> 'ip auth \<Rightarrow> (api_error, unit) result \<times> 'ip auth" where
  "refuse_limited now client user limited_user l s =
     (Err (rate_limited l),
      if limited_first l
      then audit now AuditLoginRateLimited (or_else limited_user user) (Some client)
             (if limited_user = None then ''too many login attempts from this address''
              else ''too many failed logins for this user name'') s
      else s)"

definition admit ::
    "'ip platform \<Rightarrow> 'ip \<Rightarrow> string option \<Rightarrow> int \<Rightarrow> 'ip auth \<Rightarrow> (api_error, unit) result \<times> 'ip auth" where
  "admit pl client user now s =
     (let address = pl_show_ip pl client;
          (checked, limiter) = limiter_check address now (at_address s)
      in case checked of
        Err l \<Rightarrow> refuse_limited now client user None l (s\<lparr>at_address := limiter\<rparr>)
      | Ok _ \<Rightarrow>
          let s = s\<lparr>at_address := limiter_record address now limiter\<rparr> in
          case user of
            None \<Rightarrow> (Ok (), s)
          | Some u \<Rightarrow>
              let (checked, limiter) = limiter_check (pl_lower pl u) now (at_user s);
                  s = s\<lparr>at_user := limiter\<rparr>
              in case checked of
                Err l \<Rightarrow> refuse_limited now client user (Some u) l s
              | Ok _ \<Rightarrow> (Ok (), s))"

definition failed :: "'ip platform \<Rightarrow> string \<Rightarrow> int \<Rightarrow> 'ip auth \<Rightarrow> 'ip auth" where
  "failed pl user now s = s\<lparr>at_user := limiter_record (pl_lower pl user) now (at_user s)\<rparr>"

subsection \<open>Logging in\<close>

definition finish ::
    "'ip platform \<Rightarrow> outside \<Rightarrow> string \<Rightarrow> 'ip \<Rightarrow> 'ip auth \<Rightarrow> (api_error, login_response) result \<times> 'ip auth" where
  "finish pl out user client s =
     (let now = out_later out in
      case out_user_cfg out of
        None \<Rightarrow> (Err unavailable, s)
      | Some cfg \<Rightarrow>
          (case standing_of (accounts_parse cfg) user (i64_div now 1000) of
             Allowed role \<Rightarrow>
               (case session_create (pl_sha256 pl) (pl_show_ip pl) (out_random out) user role client now
                  (out_db_fails out user) (at_sessions s) of
                  (Err _, ss) \<Rightarrow> (Err unavailable, s\<lparr>at_sessions := ss\<rparr>)
                | (Ok (token, info), ss) \<Rightarrow>
                    (Ok (LoggedIn \<lparr> sa_token = token, sa_user = user, sa_role = role,
                       sa_idle_timeout_seconds = word_of_int (i64_div (sp_idle_ms (se_policy ss)) 1000),
                       sa_expires_at_ms = si_created_ms info + sp_absolute_ms (se_policy ss) \<rparr>),
                     audit now AuditLogin (Some user) (Some client) (''logged in as '' @ role_name role)
                       (s\<lparr>at_sessions := ss\<rparr>)))
           | NoGroup \<Rightarrow>
               (Err (error_new Forbidden ''this account may not use BMAC; an administrator can add it to the bmac-viewer, bmac-operator, or bmac-admin group in Proxmox''),
                audit now AuditLoginRefused (Some user) (Some client) ''in no BMAC group'' s)
           | other \<Rightarrow>
               (Err (error_new Forbidden (standing_describe other)),
                audit now AuditLoginRefused (Some user) (Some client) (standing_describe other) s)))"

definition fresh_pending :: "int \<Rightarrow> 'ip auth \<Rightarrow> 'ip auth" where
  "fresh_pending now s = s\<lparr>at_pending := filter (\<lambda>e. now - pd_created_ms (snd e) < CHALLENGE_TTL_MS) (at_pending s)\<rparr>"

definition challenge_methods :: "challenge \<Rightarrow> second_factor_method list" where
  "challenge_methods ch = (if ch_totp ch then [Totp] else []) @ (if ch_recovery ch then [Recovery] else [])"

definition issue_challenge ::
    "outside \<Rightarrow> string \<Rightarrow> string \<Rightarrow> challenge \<Rightarrow> 'ip \<Rightarrow> 'ip auth \<Rightarrow> (api_error, login_response) result \<times> 'ip auth" where
  "issue_challenge out user partial_ticket ch client s =
     (let now = out_now out; methods = challenge_methods ch;
          message = ''the account's only second factor is one BMAC can't use yet (WebAuthn, Yubico, or U2F); add TOTP or recovery keys to it in Proxmox''
      in if methods = []
         then (Err (error_new Forbidden message), audit now AuditLoginRefused (Some user) (Some client) message s)
         else case new_token (out_random out) of
           None \<Rightarrow> (Err unavailable, s)
         | Some ident \<Rightarrow>
             let s = fresh_pending now s in
             if MAX_CHALLENGES \<le> length (at_pending s)
             then (Err (rate_limited \<lparr> retry_after_seconds = 30, limited_first = False \<rparr>), s)
             else (Ok (ChallengeIssued ident methods),
                   s\<lparr>at_pending := bt_insert ident \<lparr> pd_user = user, pd_partial_ticket = partial_ticket,
                        pd_client = client, pd_created_ms = now, pd_methods = methods, pd_tries = 0 \<rparr> (at_pending s)\<rparr>))"

definition login_password ::
    "'ip platform \<Rightarrow> outside \<Rightarrow> string \<Rightarrow> string \<Rightarrow> 'ip \<Rightarrow> 'ip auth \<Rightarrow> (api_error, login_response) result \<times> 'ip auth" where
  "login_password pl out user password client s =
     (let now = out_now out in
      if \<not> valid_user user
      then (Err (field_error ''enter the user name with its realm, such as alice@pve'' ''user''
              ''a Proxmox user such as alice@pve''), s)
      else if password = [] \<or> MAX_PASSWORD < length password
      then (Err (field_error ''enter the password'' ''password'' ''required''), s)
      else case admit pl client (Some user) now s of
        (Err e, s) \<Rightarrow> (Err e, s)
      | (Ok _, s) \<Rightarrow>
          (case out_ticket out (PasswordForm user password) of
             Ok (Granted user) \<Rightarrow> finish pl out user client s
           | Ok (SecondFactorNeeded user partial_ticket ch) \<Rightarrow> issue_challenge out user partial_ticket ch client s
           | Err Refused \<Rightarrow>
               (Err (error_new Unauthenticated ''the user name or password is wrong, or the account is disabled''),
                audit now AuditLoginFailed (Some user) (Some client) ''wrong password, or the account is disabled''
                  (failed pl user now s))
           | Err _ \<Rightarrow> (Err unavailable, s)))"

definition count_try :: "string \<Rightarrow> 'ip auth \<Rightarrow> bool \<times> 'ip auth" where
  \<comment> \<open>whether the challenge has had all its tries, and the state without it then\<close>
  "count_try challenge s =
     (case bt_get (at_pending s) challenge of
        None \<Rightarrow> (True, s\<lparr>at_pending := bt_remove challenge (at_pending s)\<rparr>)
      | Some p \<Rightarrow>
          let tries = pd_tries p + 1;
              pending = bt_insert challenge (p\<lparr>pd_tries := tries\<rparr>) (at_pending s)
          in if MAX_SECOND_FACTOR_TRIES \<le> tries then (True, s\<lparr>at_pending := bt_remove challenge pending\<rparr>)
             else (False, s\<lparr>at_pending := pending\<rparr>))"

definition find_pending :: "string \<Rightarrow> 'ip \<Rightarrow> int \<Rightarrow> 'ip auth \<Rightarrow> 'ip pending option" where
  "find_pending challenge client now s =
     option_filter (\<lambda>p. pd_client p = client \<and> now - pd_created_ms p < CHALLENGE_TTL_MS)
       (bt_get (at_pending s) challenge)"

definition login_second_factor ::
    "'ip platform \<Rightarrow> outside \<Rightarrow> string \<Rightarrow> second_factor_method \<Rightarrow> string \<Rightarrow> 'ip \<Rightarrow> 'ip auth
     \<Rightarrow> (api_error, login_response) result \<times> 'ip auth" where
  "login_second_factor pl out challenge method response client s =
     (let now = out_now out in
      case find_pending challenge client now s of
        None \<Rightarrow>
          (case admit pl client None now (fresh_pending now s) of
             (Err e, s) \<Rightarrow> (Err e, s)
           | (Ok _, s) \<Rightarrow> (Err (error_new Unauthenticated ''the login took too long; start again with your password''), s))
      | Some p \<Rightarrow>
          let response = remove_white response in
          if method \<notin> set (pd_methods p) \<or> \<not> valid_response method response
          then (Err (field_error ''enter the code from your authenticator app or a recovery key'' ''response''
                  ''not a valid code''), s)
          else case admit pl client (Some (pd_user p)) now s of
            (Err e, s) \<Rightarrow> (Err e, s)
          | (Ok _, s) \<Rightarrow>
              (case out_ticket out (SecondFactorForm (pd_user p) (pd_partial_ticket p)
                  (method_name method @ '':'' @ response)) of
                 Ok (Granted user) \<Rightarrow>
                   finish pl out user client (s\<lparr>at_pending := bt_remove challenge (at_pending s)\<rparr>)
               | Ok (SecondFactorNeeded _ _ _) \<Rightarrow>
                   (Err unavailable, s\<lparr>at_pending := bt_remove challenge (at_pending s)\<rparr>)
               | Err Refused \<Rightarrow>
                   (let (exhausted, s) = count_try challenge (failed pl (pd_user p) now s)
                    in (Err (error_new Unauthenticated
                          (if exhausted then ''that code is wrong; start again with your password''
                           else ''that code is wrong; try again'')),
                        audit now AuditLoginFailed (Some (pd_user p)) (Some client)
                          (''wrong '' @ method_name method @ '' code'') s))
               | Err _ \<Rightarrow> (Err unavailable, s)))"

definition login ::
    "'ip platform \<Rightarrow> outside \<Rightarrow> login_request \<Rightarrow> 'ip \<Rightarrow> 'ip auth \<Rightarrow> (api_error, login_response) result \<times> 'ip auth" where
  "login pl out request client s =
     (case request of
        LoginPassword user password \<Rightarrow> login_password pl out user password client s
      | LoginSecondFactor challenge method response \<Rightarrow>
          login_second_factor pl out challenge method response client s)"

subsection \<open>Sessions in use\<close>

definition ended_audit :: "'ip session_info option \<Rightarrow> end_reason \<Rightarrow> int \<Rightarrow> 'ip auth \<Rightarrow> 'ip auth" where
  "ended_audit info reason now s =
     audit now AuditSessionEnded (map_option si_user info) (map_option si_client info)
       (end_reason_kind reason @ '': '' @ end_reason_message reason) s"

definition authenticate ::
    "'ip platform \<Rightarrow> outside \<Rightarrow> string option \<Rightarrow> bool \<Rightarrow> 'ip auth \<Rightarrow> (api_error, 'ip session_info) result \<times> 'ip auth" where
  "authenticate pl out token activity s =
     (case option_filter (\<lambda>t. t \<noteq> []) token of
        None \<Rightarrow> (Err (error_new Unauthenticated ''log in first''), s)
      | Some token \<Rightarrow>
          let now = out_now out;
              (found, ss) = session_lookup (pl_sha256 pl) token now activity
                (out_db_fails out (hash_token (pl_sha256 pl) token)) (at_sessions s);
              s = s\<lparr>at_sessions := ss\<rparr>
          in case found of
            Ok (Valid info) \<Rightarrow> (Ok info, s)
          | Ok (Ended reason) \<Rightarrow>
              (Err (error_new Unauthenticated (end_reason_message reason)), ended_audit None reason now s)
          | Ok Unknown \<Rightarrow> (Err (error_new Unauthenticated ''the session has ended; log in again''), s)
          | Err _ \<Rightarrow> (Err unavailable, s))"

definition auth_end :: "outside \<Rightarrow> 'ip session_info \<Rightarrow> end_reason \<Rightarrow> int \<Rightarrow> 'ip auth \<Rightarrow> 'ip auth" where
  \<comment> \<open>a failure is logged\<close>
  "auth_end out info reason now s =
     (let (ended, ss) = session_end (si_token_hash info) reason (out_db_fails out (si_token_hash info)) (at_sessions s);
          s = s\<lparr>at_sessions := ss\<rparr>
      in case ended of
           Ok (Some i) \<Rightarrow> ended_audit (Some i) reason now s
         | _ \<Rightarrow> s)"

subsection \<open>Revocations\<close>

definition revocation_path :: "'ip platform \<Rightarrow> string \<Rightarrow> string" where
  "revocation_path pl user =
     concat (map (\<lambda>b. hex_fixed 2 (unat b)) (take 16 (pl_sha256 pl user))) @ ''.json''"

definition revoked_at :: "'ip platform \<Rightarrow> outside \<Rightarrow> string \<Rightarrow> 'ip auth \<Rightarrow> (unit, int option) result" where
  "revoked_at pl out user s =
     (case bt_get (at_revoked s) (revocation_path pl user) of
        None \<Rightarrow> Ok None
      | Some r \<Rightarrow>
          if out_read_fails out user then Err ()
          else Ok (if rv_user r = user then Some (rv_at_ms r) else None))"

definition revoke :: "'ip platform \<Rightarrow> outside \<Rightarrow> string \<Rightarrow> int \<Rightarrow> 'ip auth \<Rightarrow> (unit, 'ip auth) result" where
  "revoke pl out user now s =
     and_then (revoked_at pl out user s) (\<lambda>old.
       let at = (case old of None \<Rightarrow> now | Some o' \<Rightarrow> max o' now) in
       if out_write_fails out then Err ()
       else Ok (s\<lparr>at_revoked := bt_insert (revocation_path pl user) \<lparr> rv_user = user, rv_at_ms = at \<rparr> (at_revoked s)\<rparr>))"

definition end_all :: "outside \<Rightarrow> ('ip session_info \<Rightarrow> end_reason option) \<Rightarrow> int \<Rightarrow> 'ip auth \<Rightarrow> 'ip auth" where
  \<comment> \<open>the loops over \<open>sessions.all()\<close>: ends each session for which there is a reason\<close>
  "end_all out reason now s =
     fold (\<lambda>info s. case reason info of None \<Rightarrow> s | Some r \<Rightarrow> auth_end out info r now s)
       (all_sessions (at_sessions s)) s"

definition logout ::
    "'ip platform \<Rightarrow> outside \<Rightarrow> 'ip session_info \<Rightarrow> 'ip \<Rightarrow> bool \<Rightarrow> 'ip auth \<Rightarrow> (api_error, unit) result \<times> 'ip auth" where
  "logout pl out session client everywhere s =
     (let now = out_now out in
      if \<not> everywhere then
        (case session_end (si_token_hash session) LoggedOut (out_db_fails out (si_token_hash session)) (at_sessions s) of
           (Err _, ss) \<Rightarrow> (Err unavailable, s\<lparr>at_sessions := ss\<rparr>)
         | (Ok _, ss) \<Rightarrow>
             (Ok (), audit now AuditLogout (Some (si_user session)) (Some client) ''logged out'' (s\<lparr>at_sessions := ss\<rparr>)))
      else case revoke pl out (si_user session) now s of
          Err _ \<Rightarrow> (Err unavailable, s)
        | Ok s \<Rightarrow>
            (Ok (), end_all out (\<lambda>i. if si_user i = si_user session then Some Revoked else None) now
               (audit now AuditLogoutEverywhere (Some (si_user session)) (Some client) ''logged out everywhere'' s)))"

subsection \<open>Upkeep\<close>

definition recheck_reason :: "accounts \<Rightarrow> int \<Rightarrow> 'ip session_info \<Rightarrow> end_reason option" where
  "recheck_reason accounts now info =
     (case standing_of accounts (si_user info) (i64_div now 1000) of
        Allowed role \<Rightarrow> (if role = si_role info then None else Some (AccountChanged ''your BMAC role changed''))
      | other \<Rightarrow> Some (AccountChanged (standing_describe other)))"

definition recheck_accounts :: "outside \<Rightarrow> 'ip auth \<Rightarrow> 'ip auth" where
  "recheck_accounts out s =
     (case out_user_cfg out of
        None \<Rightarrow> s
      | Some cfg \<Rightarrow> end_all out (recheck_reason (accounts_parse cfg) (out_later out)) (out_later out) s)"

definition end_expired :: "outside \<Rightarrow> 'ip auth \<Rightarrow> 'ip auth" where
  "end_expired out s =
     fold (\<lambda>(info, reason). auth_end out info reason (out_now out)) (expired_sessions (out_now out) (at_sessions s)) s"

definition end_revoked :: "'ip platform \<Rightarrow> outside \<Rightarrow> string \<Rightarrow> 'ip auth \<Rightarrow> 'ip auth" where
  "end_revoked pl out user s =
     (case revoked_at pl out user s of
        Ok (Some at) \<Rightarrow>
          end_all out (\<lambda>i. if si_user i = user \<and> si_created_ms i \<le> at then Some Revoked else None) (out_now out) s
      | _ \<Rightarrow> s)"

definition maintain :: "'ip platform \<Rightarrow> outside \<Rightarrow> 'ip auth \<Rightarrow> 'ip auth" where
  "maintain pl out s =
     (let now = out_now out;
          s = end_expired out s;
          users = sorted_list_of_set (set (map si_user (all_sessions (at_sessions s))));
          s = fold (end_revoked pl out) users s;
          due = (now - at_last_recheck_ms s \<ge> ACCOUNT_RECHECK_MS)
      in if due then recheck_accounts out (s\<lparr>at_last_recheck_ms := now\<rparr>) else s)"

subsection \<open>What ends sessions\<close>

abbreviation live_of :: "'ip auth \<Rightarrow> string \<Rightarrow> 'ip live option" where
  "live_of s h \<equiv> bt_get (se_live (at_sessions s)) h"

definition keyed :: "'ip sessions \<Rightarrow> bool" where
  \<comment> \<open>every session is in the table under its own hash\<close>
  "keyed ss = (bt_ok (se_live ss) \<and> (\<forall>h l. bt_get (se_live ss) h = Some l \<longrightarrow> si_token_hash (lv_info l) = h))"

lemma keyed_insert:
  "keyed ss \<Longrightarrow> si_token_hash (lv_info l) = h \<Longrightarrow> keyed (ss\<lparr>se_live := bt_insert h l (se_live ss)\<rparr>)"
  by (auto simp: keyed_def bt_ok_insert bt_get_insert)

lemma keyed_cong: "se_live ss' = se_live ss \<Longrightarrow> keyed ss' = keyed ss"
  by (simp add: keyed_def)

lemma keyed_end: "keyed ss \<Longrightarrow> keyed (snd (session_end h r fails ss))"
  by (auto simp: keyed_def session_end_def Let_def bt_ok_remove bt_get_remove split: if_splits)

lemma keyed_create: "keyed ss \<Longrightarrow> keyed (snd (session_create sha show rand user role client now fails ss))"
proof (cases "new_token rand")
  case (Some token)
  assume k: "keyed ss"
  let ?i = "\<lparr> si_token_hash = hash_token sha token, si_user = user, si_role = role,
               si_client = client, si_created_ms = now, si_last_used_ms = now \<rparr>"
  have "keyed (ss\<lparr>se_live := bt_insert (si_token_hash ?i) (live_new ?i) (se_live ss)\<rparr>)"
    by (rule keyed_insert [OF k]) (simp add: live_new_def)
  then show ?thesis using k Some by (simp add: session_create_def Let_def keyed_def)
qed (simp add: session_create_def)

lemma touch_hash: "si_token_hash (lv_info (fst (touch now activity l))) = si_token_hash (lv_info l)"
  by (simp add: touch_def Let_def)

lemma keyed_lookup: "keyed ss \<Longrightarrow> keyed (snd (session_lookup sha token now activity fails ss))"
proof -
  assume k: "keyed ss"
  let ?h = "hash_token sha token"
  show ?thesis
  proof (cases "is_token_shaped token \<and> bt_get (se_live ss) ?h \<noteq> None")
    case True
    then obtain l where l: "bt_get (se_live ss) ?h = Some l" by blast
    obtain l' wr where t: "touch now activity l = (l', wr)" by fastforce
    have "si_token_hash (lv_info l') = ?h" using touch_hash [of now activity l] t k l by (simp add: keyed_def)
    from keyed_insert [OF k this] show ?thesis
      using True l t keyed_end [OF k] lookup_expired [OF _ l]
      by (cases "expiry (se_policy ss) (lv_info l) now") (auto simp: session_lookup_def Let_def keyed_def)
  qed (use k in \<open>auto simp: session_lookup_def Let_def\<close>)
qed

lemma end_sessions: "at_sessions (auth_end out info r now s)
    = snd (session_end (si_token_hash info) r (out_db_fails out (si_token_hash info)) (at_sessions s))"
  by (simp add: auth_end_def ended_audit_def audit_def Let_def split: prod.splits sum.splits option.splits)

lemma end_others [simp]:
  "at_pending (auth_end out info r now s) = at_pending s"
  "at_revoked (auth_end out info r now s) = at_revoked s"
  "at_last_recheck_ms (auth_end out info r now s) = at_last_recheck_ms s"
  by (simp_all add: auth_end_def ended_audit_def audit_def Let_def split: prod.splits sum.splits option.splits)

lemma end_policy [simp]: "se_policy (at_sessions (auth_end out info r now s)) = se_policy (at_sessions s)"
  by (simp add: end_sessions session_end_def Let_def)

lemma end_live: "live_of (auth_end out info r now s) h = (if h = si_token_hash info then None else live_of s h)"
  by (simp add: end_sessions session_end_def Let_def bt_get_remove)

definition end_listed :: "outside \<Rightarrow> int \<Rightarrow> ('ip session_info \<times> end_reason) list \<Rightarrow> 'ip auth \<Rightarrow> 'ip auth" where
  "end_listed out now ps s = fold (\<lambda>(info, reason). auth_end out info reason now) ps s"

lemma end_listed_live:
  "live_of (end_listed out now ps s) h
   = (if h \<in> (\<lambda>p. si_token_hash (fst p)) ` set ps then None else live_of s h)"
  by (induction ps arbitrary: s) (auto simp: end_listed_def end_live)

lemma end_listed_others [simp]:
  "at_pending (end_listed out now ps s) = at_pending s"
  "at_revoked (end_listed out now ps s) = at_revoked s"
  "at_last_recheck_ms (end_listed out now ps s) = at_last_recheck_ms s"
  "se_policy (at_sessions (end_listed out now ps s)) = se_policy (at_sessions s)"
  by (induction ps arbitrary: s) (auto simp: end_listed_def)

lemma end_listed_keyed: "keyed (at_sessions s) \<Longrightarrow> keyed (at_sessions (end_listed out now ps s))"
  by (induction ps arbitrary: s) (auto simp: end_listed_def end_sessions keyed_end)

lemma end_all_listed:
  "end_all out reason now s
   = end_listed out now (filter_map (\<lambda>i. map_option (Pair i) (reason i)) (all_sessions (at_sessions s))) s"
proof -
  have "fold (\<lambda>info s. case reason info of None \<Rightarrow> s | Some r \<Rightarrow> auth_end out info r now s) is s
      = fold (\<lambda>(info, reason). auth_end out info reason now) (filter_map (\<lambda>i. map_option (Pair i) (reason i)) is) s"
    for "is"
    by (induction "is" arbitrary: s) (auto split: option.splits)
  then show ?thesis by (simp add: end_all_def end_listed_def)
qed

lemma end_expired_listed:
  "end_expired out s = end_listed out (out_now out)
     (filter_map (\<lambda>i. map_option (Pair i) (expiry (se_policy (at_sessions s)) i (out_now out)))
        (all_sessions (at_sessions s))) s"
  by (simp add: end_expired_def end_listed_def expired_sessions_def all_sessions_def filter_map_map)

lemma end_reasons_live:
  assumes k: "keyed (at_sessions s)"
  shows "live_of (end_listed out now (filter_map (\<lambda>i. map_option (Pair i) (reason i)) (all_sessions (at_sessions s))) s) h
    = option_filter (\<lambda>l. reason (lv_info l) = None) (live_of s h)"
proof -
  have bt: "bt_ok (se_live (at_sessions s))" using k by (simp add: keyed_def)
  have "h \<in> (\<lambda>p. si_token_hash (fst p)) ` set (filter_map (\<lambda>i. map_option (Pair i) (reason i)) (all_sessions (at_sessions s)))
      \<longleftrightarrow> (\<exists>l. live_of s h = Some l \<and> reason (lv_info l) \<noteq> None)" (is "?L \<longleftrightarrow> ?R")
  proof
    assume ?L
    then obtain l where l: "l \<in> snd ` set (se_live (at_sessions s))" "reason (lv_info l) \<noteq> None" "si_token_hash (lv_info l) = h"
      by (force simp: all_sessions_def bt_values_def)
    then obtain h' where "bt_get (se_live (at_sessions s)) h' = Some l"
      using btm.entries_get [OF bt] by fastforce
    then show ?R using k l by (auto simp: keyed_def)
  next
    assume ?R
    then obtain l r where l: "live_of s h = Some l" "reason (lv_info l) = Some r" by blast
    then have "l \<in> snd ` set (se_live (at_sessions s))" "si_token_hash (lv_info l) = h"
      using btm.entries_get [OF bt, of h l] k by (force, simp add: keyed_def)
    then show ?L using l(2) by (auto simp: all_sessions_def bt_values_def image_iff intro!: bexI [of _ l])
  qed
  then show ?thesis unfolding end_listed_live
    by (cases "live_of s h") (auto simp: option_filter_def)
qed

end
