(* ===== verification/Auth_Guarantees.thy ===== *)
theory Auth_Guarantees
  imports Auth_Login
begin

section \<open>What logging in guarantees\<close>

text \<open>
  Theorems about sequences of the operations of \<open>Auth_Login\<close>: which sessions the upkeep and
  a logout end, and why a session exists. An operation carries what the outside did during it, so a
  sequence of operations is the trace of a host.
\<close>

subsection \<open>Upkeep\<close>

lemma option_filter_filter: "option_filter p (option_filter q x) = option_filter (\<lambda>v. q v \<and> p v) x"
  by (cases x) (auto simp: option_filter_def)

lemma option_filter_cong: "(\<And>v. x = Some v \<Longrightarrow> p v = q v) \<Longrightarrow> option_filter p x = option_filter q x"
  by (cases x) (auto simp: option_filter_def)

lemmas end_all_others [simp] = end_listed_others [of out now "filter_map (\<lambda>i. map_option (Pair i) (reason i)) (all_sessions (at_sessions s))" s,
    folded end_all_listed] for out now reason s

lemma end_all_live:
  "keyed (at_sessions s) \<Longrightarrow> live_of (end_all out reason now s) h = option_filter (\<lambda>l. reason (lv_info l) = None) (live_of s h)"
  by (simp add: end_all_listed end_reasons_live)

lemma end_all_keyed: "keyed (at_sessions s) \<Longrightarrow> keyed (at_sessions (end_all out reason now s))"
  by (simp add: end_all_listed end_listed_keyed)

definition revoked_session :: "'ip platform \<Rightarrow> outside \<Rightarrow> 'ip auth \<Rightarrow> 'ip session_info \<Rightarrow> bool" where
  "revoked_session pl out s i =
     (case revoked_at pl out (si_user i) s of Ok (Some at) \<Rightarrow> si_created_ms i \<le> at | _ \<Rightarrow> False)"

lemma revoked_at_cong: "at_revoked s = at_revoked t \<Longrightarrow> revoked_at pl out user s = revoked_at pl out user t"
  by (simp add: revoked_at_def)

lemma end_revoked_others [simp]:
  "at_revoked (end_revoked pl out user s) = at_revoked s"
  "at_pending (end_revoked pl out user s) = at_pending s"
  "at_last_recheck_ms (end_revoked pl out user s) = at_last_recheck_ms s"
  by (simp_all add: end_revoked_def split: sum.splits option.splits)

lemma end_revoked_keyed: "keyed (at_sessions s) \<Longrightarrow> keyed (at_sessions (end_revoked pl out user s))"
  by (simp add: end_revoked_def end_all_keyed split: sum.splits option.splits)

lemma end_revoked_live:
  assumes "keyed (at_sessions s)"
  shows "live_of (end_revoked pl out user s) h
    = option_filter (\<lambda>l. \<not> (si_user (lv_info l) = user \<and> revoked_session pl out s (lv_info l))) (live_of s h)"
  using assms
  by (cases "live_of s h") (auto simp: end_revoked_def revoked_session_def end_all_live option_filter_def
      split: sum.splits option.splits)

lemma end_revoked_fold:
  assumes "keyed (at_sessions s)"
  shows "live_of (fold (end_revoked pl out) users s) h
      = option_filter (\<lambda>l. \<not> (si_user (lv_info l) \<in> set users \<and> revoked_session pl out s (lv_info l))) (live_of s h)"
    and "keyed (at_sessions (fold (end_revoked pl out) users s))"
    and "at_pending (fold (end_revoked pl out) users s) = at_pending s"
    and "at_revoked (fold (end_revoked pl out) users s) = at_revoked s"
    and "at_last_recheck_ms (fold (end_revoked pl out) users s) = at_last_recheck_ms s"
proof -
  have same: "revoked_session pl out (end_revoked pl out u s) = revoked_session pl out s" for u s
    by (simp add: revoked_session_def fun_eq_iff revoked_at_cong [of "end_revoked pl out u s" s])
  show "live_of (fold (end_revoked pl out) users s) h
      = option_filter (\<lambda>l. \<not> (si_user (lv_info l) \<in> set users \<and> revoked_session pl out s (lv_info l))) (live_of s h)"
    using assms
  proof (induction users arbitrary: s)
    case Nil
    then show ?case by (cases "live_of s h") (auto simp: option_filter_def)
  next
    case (Cons u users)
    show ?case
      by (simp add: Cons.IH Cons.prems end_revoked_keyed end_revoked_live option_filter_filter same)
        (rule option_filter_cong, auto)
  qed
  show "keyed (at_sessions (fold (end_revoked pl out) users s))"
    using assms by (induction users arbitrary: s) (auto simp: end_revoked_keyed)
  show "at_pending (fold (end_revoked pl out) users s) = at_pending s"
    "at_revoked (fold (end_revoked pl out) users s) = at_revoked s"
    "at_last_recheck_ms (fold (end_revoked pl out) users s) = at_last_recheck_ms s"
    by (induction users arbitrary: s) auto
qed

lemma end_expired_live:
  "keyed (at_sessions s) \<Longrightarrow> live_of (end_expired out s) h
     = option_filter (\<lambda>l. expiry (se_policy (at_sessions s)) (lv_info l) (out_now out) = None) (live_of s h)"
  by (simp add: end_expired_listed end_reasons_live)

lemma end_expired_others [simp]:
  "at_pending (end_expired out s) = at_pending s"
  "at_revoked (end_expired out s) = at_revoked s"
  "at_last_recheck_ms (end_expired out s) = at_last_recheck_ms s"
  by (simp_all add: end_expired_listed)

lemma end_expired_keyed: "keyed (at_sessions s) \<Longrightarrow> keyed (at_sessions (end_expired out s))"
  by (simp add: end_expired_listed end_listed_keyed)

definition account_holds :: "outside \<Rightarrow> 'ip session_info \<Rightarrow> bool" where
  \<comment> \<open>the account list still gives the session its role, or cannot be read\<close>
  "account_holds out i =
     (case out_user_cfg out of
        None \<Rightarrow> True
      | Some cfg \<Rightarrow> standing_of (accounts_parse cfg) (si_user i) (i64_div (out_later out) 1000) = Allowed (si_role i))"

lemma recheck_reason_None:
  "recheck_reason accounts now i = None \<longleftrightarrow> standing_of accounts (si_user i) (i64_div now 1000) = Allowed (si_role i)"
  by (auto simp: recheck_reason_def split: standing.splits)

lemma recheck_live:
  assumes "keyed (at_sessions s)"
  shows "live_of (recheck_accounts out s) h = option_filter (\<lambda>l. account_holds out (lv_info l)) (live_of s h)"
  using assms
  by (cases "live_of s h") (auto simp: recheck_accounts_def account_holds_def end_all_live recheck_reason_None option_filter_def
      split: option.splits)

lemma users_listed:
  assumes "bt_get (se_live ss) h = Some l"
  shows "si_user (lv_info l) \<in> set (sorted_list_of_set (set (map si_user (all_sessions ss))))"
proof -
  have "(h, l) \<in> set (se_live ss)" using assms by (simp add: bt_get_def map_of_SomeD)
  then show ?thesis by (force simp: all_sessions_def bt_values_def)
qed

definition survives :: "'ip platform \<Rightarrow> outside \<Rightarrow> 'ip auth \<Rightarrow> 'ip session_info \<Rightarrow> bool" where
  "survives pl out s i =
     (expiry (se_policy (at_sessions s)) i (out_now out) = None
      \<and> \<not> revoked_session pl out s i
      \<and> (ACCOUNT_RECHECK_MS \<le> out_now out - at_last_recheck_ms s \<longrightarrow> account_holds out i))"

lemma maintain_live:
  assumes k: "keyed (at_sessions s)"
  shows "live_of (maintain pl out s) h = option_filter (\<lambda>l. survives pl out s (lv_info l)) (live_of s h)"
proof -
  define s1 where "s1 = end_expired out s"
  define users where "users = sorted_list_of_set (set (map si_user (all_sessions (at_sessions s1))))"
  define s2 where "s2 = fold (end_revoked pl out) users s1"
  have k1: "keyed (at_sessions s1)" using end_expired_keyed [OF k] by (simp add: s1_def)
  then have k2: "keyed (at_sessions s2)" unfolding s2_def by (rule end_revoked_fold(2))
  have r: "revoked_session pl out s1 = revoked_session pl out s"
    by (simp add: revoked_session_def fun_eq_iff s1_def revoked_at_cong [of "end_expired out s" s])
  have two: "live_of s2 h = option_filter (\<lambda>l. \<not> revoked_session pl out s (lv_info l)) (live_of s1 h)"
    unfolding s2_def end_revoked_fold(1) [OF k1] r
    by (rule option_filter_cong) (use users_listed in \<open>auto simp: users_def\<close>)
  have last: "at_last_recheck_ms s2 = at_last_recheck_ms s"
    using end_revoked_fold(5) [OF k1] by (simp add: s2_def s1_def)
  have "maintain pl out s = (if ACCOUNT_RECHECK_MS \<le> out_now out - at_last_recheck_ms s
      then recheck_accounts out (s2\<lparr>at_last_recheck_ms := out_now out\<rparr>) else s2)"
    unfolding maintain_def Let_def s1_def [symmetric] users_def [symmetric] s2_def [symmetric] last by (rule refl)
  then show ?thesis
    using k2 two end_expired_live [OF k, of out h]
    by (simp add: recheck_live option_filter_filter s1_def survives_def)
qed

lemma maintain_others:
  assumes k: "keyed (at_sessions s)"
  shows "at_pending (maintain pl out s) = at_pending s" "keyed (at_sessions (maintain pl out s))"
    "at_revoked (maintain pl out s) = at_revoked s"
proof -
  have k1: "keyed (at_sessions (end_expired out s))" by (rule end_expired_keyed [OF k])
  have recheck: "at_pending (recheck_accounts out t) = at_pending t" "at_revoked (recheck_accounts out t) = at_revoked t"
    "keyed (at_sessions t) \<Longrightarrow> keyed (at_sessions (recheck_accounts out t))" for t :: "'a auth"
    by (simp_all add: recheck_accounts_def end_all_keyed split: option.splits)
  show "at_pending (maintain pl out s) = at_pending s" "keyed (at_sessions (maintain pl out s))"
    "at_revoked (maintain pl out s) = at_revoked s"
    using end_revoked_fold(2,3,4) [OF k1] by (simp_all add: maintain_def Let_def recheck)
qed

subsection \<open>Traces\<close>

datatype 'ip auth_op =
    OpLogin outside login_request 'ip
  | OpAuthenticate outside "string option" bool
  | OpLogout outside "'ip session_info" 'ip bool
  | OpMaintain outside
  | OpElsewhere "(string, revocation) btree"

text \<open>
  \<open>OpElsewhere\<close> is what other hosts do to the revocation records of the cluster.
\<close>

fun run_auth :: "'ip platform \<Rightarrow> 'ip auth_op \<Rightarrow> 'ip auth \<Rightarrow> 'ip auth" where
  "run_auth pl (OpLogin out request client) s = snd (login pl out request client s)"
| "run_auth pl (OpAuthenticate out token activity) s = snd (authenticate pl out token activity s)"
| "run_auth pl (OpLogout out session client everywhere) s = snd (logout pl out session client everywhere s)"
| "run_auth pl (OpMaintain out) s = maintain pl out s"
| "run_auth pl (OpElsewhere revoked) s = s\<lparr>at_revoked := revoked\<rparr>"

definition issued :: "'ip auth_op list \<Rightarrow> 'ip pending \<Rightarrow> bool" where
  \<comment> \<open>Proxmox asked for the second factor after it accepted a password sent by the same client\<close>
  "issued ops p = (\<exists>out user password ch.
     OpLogin out (LoginPassword user password) (pd_client p) \<in> set ops
     \<and> out_ticket out (PasswordForm user password) = Ok (SecondFactorNeeded (pd_user p) (pd_partial_ticket p) ch)
     \<and> pd_created_ms p = out_now out \<and> pd_methods p = challenge_methods ch)"

definition pending_ok :: "'ip auth_op list \<Rightarrow> 'ip auth \<Rightarrow> bool" where
  "pending_ok ops s =
     (bt_ok (at_pending s) \<and> length (at_pending s) \<le> MAX_CHALLENGES
      \<and> (\<forall>c p. bt_get (at_pending s) c = Some p \<longrightarrow> issued ops p \<and> pd_tries p < MAX_SECOND_FACTOR_TRIES))"

definition auth_ok :: "'ip auth_op list \<Rightarrow> 'ip auth \<Rightarrow> bool" where
  "auth_ok ops s = (keyed (at_sessions s) \<and> pending_ok ops s)"

lemma audit_others [simp]:
  "at_pending (audit t k u c m s) = at_pending s" "at_sessions (audit t k u c m s) = at_sessions s"
  "at_revoked (audit t k u c m s) = at_revoked s" "at_last_recheck_ms (audit t k u c m s) = at_last_recheck_ms s"
  by (simp_all add: audit_def)

lemma admit_others [simp]:
  "at_pending (snd (admit pl client user now s)) = at_pending s"
  "at_sessions (snd (admit pl client user now s)) = at_sessions s"
  by (simp_all add: admit_def refuse_limited_def Let_def split: prod.splits sum.splits option.splits)

lemma failed_others [simp]: "at_pending (failed pl user now s) = at_pending s" "at_sessions (failed pl user now s) = at_sessions s"
  by (simp_all add: failed_def)

lemma pending_ok_cong: "at_pending s = at_pending t \<Longrightarrow> pending_ok ops s = pending_ok ops t"
  by (simp add: pending_ok_def)

lemma pending_ok_more: "pending_ok ops s \<Longrightarrow> pending_ok (ops @ [op]) s"
  unfolding pending_ok_def issued_def by auto blast

lemma length_bt_remove: "length (bt_remove k m) \<le> length m"
  by (simp add: bt_remove_def)

lemma pending_ok_remove: "pending_ok ops s \<Longrightarrow> pending_ok ops (s\<lparr>at_pending := bt_remove c (at_pending s)\<rparr>)"
  using length_bt_remove [of c "at_pending s"]
  by (auto simp: pending_ok_def bt_ok_remove bt_get_remove split: if_splits)

lemma pending_ok_fresh: "pending_ok ops s \<Longrightarrow> pending_ok ops (fresh_pending now s)"
  by (auto simp: pending_ok_def fresh_pending_def bt_ok_filter
      bt_get_filter [where p = "\<lambda>p. now - pd_created_ms p < CHALLENGE_TTL_MS"] intro: order_trans [OF length_filter_le])

lemma pending_ok_insert:
  assumes "pending_ok ops s" and "issued ops p" and "pd_tries p < MAX_SECOND_FACTOR_TRIES"
    and "length (at_pending s) < MAX_CHALLENGES \<or> bt_get (at_pending s) c \<noteq> None"
  shows "pending_ok ops (s\<lparr>at_pending := bt_insert c p (at_pending s)\<rparr>)"
  using assms by (auto simp: pending_ok_def bt_ok_insert bt_get_insert length_bt_insert)

lemma issue_challenge_pending:
  assumes "pending_ok ops s" and "OpLogin out (LoginPassword user0 password) client \<in> set ops"
    and "out_ticket out (PasswordForm user0 password) = Ok (SecondFactorNeeded user partial_ticket ch)"
  shows "pending_ok ops (snd (issue_challenge out user partial_ticket ch client s))"
proof -
  let ?p = "\<lparr> pd_user = user, pd_partial_ticket = partial_ticket, pd_client = client,
      pd_created_ms = out_now out, pd_methods = challenge_methods ch, pd_tries = 0 \<rparr>"
  have ok: "pending_ok ops (fresh_pending (out_now out) s)" by (rule pending_ok_fresh [OF assms(1)])
  have "issued ops ?p" using assms(2,3) unfolding issued_def by auto
  then have "pending_ok ops ((fresh_pending (out_now out) s)\<lparr>at_pending :=
      bt_insert c ?p (at_pending (fresh_pending (out_now out) s))\<rparr>)"
    if "length (at_pending (fresh_pending (out_now out) s)) < MAX_CHALLENGES" for c
    using that by (intro pending_ok_insert [OF ok]) (auto simp: MAX_SECOND_FACTOR_TRIES_def)
  then show ?thesis
    using ok assms(1) pending_ok_cong [of "audit _ _ _ _ _ s" s]
    by (auto simp: issue_challenge_def Let_def not_le split: option.splits)
qed

lemma finish_pending [simp]: "at_pending (snd (finish pl out user client s)) = at_pending s"
  by (simp add: finish_def Let_def split: option.splits standing.splits prod.splits sum.splits)

lemma finish_keyed: "keyed (at_sessions s) \<Longrightarrow> keyed (at_sessions (snd (finish pl out user client s)))"
  using keyed_create [of "at_sessions s"]
  by (auto simp: finish_def Let_def split: option.splits standing.splits prod.splits sum.splits) (metis snd_conv)+

lemma issue_challenge_sessions [simp]: "at_sessions (snd (issue_challenge out user t ch client s)) = at_sessions s"
  by (simp add: issue_challenge_def fresh_pending_def Let_def split: option.splits)

lemma count_try_pending: "pending_ok ops s \<Longrightarrow> pending_ok ops (snd (count_try c s))"
proof (cases "bt_get (at_pending s) c")
  case None
  then show "pending_ok ops s \<Longrightarrow> ?thesis" using pending_ok_remove [of ops s c] by (simp add: count_try_def)
next
  case (Some p)
  assume ok: "pending_ok ops s"
  let ?p = "p\<lparr>pd_tries := pd_tries p + 1\<rparr>"
  have p: "issued ops ?p" "length (bt_remove c (bt_insert c ?p (at_pending s))) \<le> length (at_pending s)"
    using ok Some length_bt_remove [of c "bt_insert c ?p (at_pending s)"]
    by (auto simp: pending_ok_def issued_def length_bt_insert)
  show ?thesis
  proof (cases "MAX_SECOND_FACTOR_TRIES \<le> pd_tries p + 1")
    case True
    with ok Some p show ?thesis
      by (auto simp: count_try_def Let_def pending_ok_def bt_ok_insert bt_ok_remove bt_get_remove bt_get_insert split: if_splits)
  next
    case False
    with pending_ok_insert [OF ok p(1)] Some show ?thesis by (simp add: count_try_def Let_def)
  qed
qed

lemma count_try_sessions [simp]: "at_sessions (snd (count_try c s)) = at_sessions s"
  by (simp add: count_try_def Let_def split: option.splits)

lemma admit_cases:
  obtains e s' where "admit pl client user now s = (Err e, s')" "at_pending s' = at_pending s" "at_sessions s' = at_sessions s"
  | s' where "admit pl client user now s = (Ok (), s')" "at_pending s' = at_pending s" "at_sessions s' = at_sessions s"
  using admit_others [of pl client user now s]
  by (cases "admit pl client user now s"; cases "fst (admit pl client user now s)") auto

lemma auth_ok_cong:
  "at_pending s = at_pending t \<Longrightarrow> at_sessions s = at_sessions t \<Longrightarrow> auth_ok ops s = auth_ok ops t"
  by (simp add: auth_ok_def pending_ok_def)

lemma password_ok:
  assumes ok: "auth_ok ops s" and op: "OpLogin out (LoginPassword user password) client \<in> set ops"
  shows "auth_ok ops (snd (login_password pl out user password client s))"
proof (cases rule: admit_cases [of pl client "Some user" "out_now out" s])
  case (1 e s')
  with ok auth_ok_cong [of s s'] show ?thesis by (simp add: login_password_def Let_def)
next
  case (2 s')
  then have ok': "auth_ok ops s'" using ok auth_ok_cong [of s s'] by simp
  have granted: "auth_ok ops (snd (finish pl out u client s'))" for u
    using ok' finish_keyed [of s' pl out u client] pending_ok_cong [of "snd (finish pl out u client s')" s']
    by (simp add: auth_ok_def)
  have asked: "auth_ok ops (snd (issue_challenge out u t ch client s'))"
    if "out_ticket out (PasswordForm user password) = Ok (SecondFactorNeeded u t ch)" for u t ch
    using ok' issue_challenge_pending [OF _ op that] by (simp add: auth_ok_def)
  have refused: "auth_ok ops (audit a b c d e (failed pl user n s'))" for a b c d e n
    using ok' auth_ok_cong [of "audit a b c d e (failed pl user n s')" s'] by simp
  show ?thesis
  proof (cases "out_ticket out (PasswordForm user password)")
    case (Inl err)
    with 2(1) ok ok' refused show ?thesis by (cases err) (simp_all add: login_password_def Let_def)
  next
    case (Inr outcome)
    with 2(1) ok granted asked show ?thesis by (cases outcome) (simp_all add: login_password_def Let_def)
  qed
qed

lemma second_factor_ok:
  assumes ok: "auth_ok ops s"
  shows "auth_ok ops (snd (login_second_factor pl out c m response client s))"
proof (cases "find_pending c client (out_now out) s")
  case None
  have f: "auth_ok ops (fresh_pending (out_now out) s)"
    using ok pending_ok_fresh by (auto simp: auth_ok_def fresh_pending_def)
  show ?thesis
    by (cases rule: admit_cases [of pl client None "out_now out" "fresh_pending (out_now out) s"])
      (use None f auth_ok_cong in \<open>auto simp: login_second_factor_def Let_def\<close>)
next
  case (Some p)
  show ?thesis
  proof (cases rule: admit_cases [of pl client "Some (pd_user p)" "out_now out" s])
    case (1 e s')
    with ok Some auth_ok_cong [of s s'] show ?thesis by (simp add: login_second_factor_def Let_def)
  next
    case (2 s')
    then have k: "keyed (at_sessions s')" and po: "pending_ok ops s'"
      using ok pending_ok_cong [of s s'] by (auto simp: auth_ok_def)
    have removed: "auth_ok ops (s'\<lparr>at_pending := bt_remove c (at_pending s')\<rparr>)"
      using k pending_ok_remove [OF po] by (simp add: auth_ok_def)
    have granted: "auth_ok ops (snd (finish pl out u client (s'\<lparr>at_pending := bt_remove c (at_pending s')\<rparr>)))" for u
      using removed finish_keyed [of "s'\<lparr>at_pending := bt_remove c (at_pending s')\<rparr>" pl out u client]
        pending_ok_cong [of "snd (finish pl out u client (s'\<lparr>at_pending := bt_remove c (at_pending s')\<rparr>))"
          "s'\<lparr>at_pending := bt_remove c (at_pending s')\<rparr>"]
      by (simp add: auth_ok_def)
    have "pending_ok ops (failed pl u now s')" for u now using po pending_ok_cong [of "failed pl u now s'" s'] by simp
    from count_try_pending [OF this] k
    have refused: "auth_ok ops (audit t k' u' cl msg (snd (count_try c (failed pl u now s'))))" for t k' u' cl msg u now
      using pending_ok_cong [of "audit t k' u' cl msg (snd (count_try c (failed pl u now s')))" "snd (count_try c (failed pl u now s'))"]
      by (simp add: auth_ok_def)
    have "auth_ok ops s'" using k po by (simp add: auth_ok_def)
    then show ?thesis
      using 2(1) Some ok removed granted refused
      by (auto simp: login_second_factor_def Let_def case_prod_beta split: sum.splits ticket_outcome.splits proxmox_error.splits)
  qed
qed

lemma authenticate_ok: "auth_ok ops s \<Longrightarrow> auth_ok ops (snd (authenticate pl out token activity s))"
proof -
  assume ok: "auth_ok ops s"
  have "auth_ok ops (s\<lparr>at_sessions := snd (session_lookup sha t now activity fails (at_sessions s))\<rparr>)" for sha t now fails
    using ok keyed_lookup [of "at_sessions s"] by (simp add: auth_ok_def pending_ok_def)
  moreover have "auth_ok ops (ended_audit i r now t) = auth_ok ops t" for i r now and t :: "'a auth"
    by (rule auth_ok_cong) (simp_all add: ended_audit_def)
  ultimately show ?thesis
    using ok by (auto simp: authenticate_def Let_def case_prod_beta split: option.splits sum.splits lookup_result.splits)
qed

lemma revoke_others: "revoke pl out user now s = Ok s' \<Longrightarrow> at_pending s' = at_pending s \<and> at_sessions s' = at_sessions s"
  by (auto simp: revoke_def result_ops Let_def split: if_splits)

lemma logout_ok: "auth_ok ops s \<Longrightarrow> auth_ok ops (snd (logout pl out session client everywhere s))"
proof -
  assume ok: "auth_ok ops s"
  have one: "auth_ok ops (s\<lparr>at_sessions := snd (session_end h r fails (at_sessions s))\<rparr>)" for h r fails
    using ok keyed_end [of "at_sessions s"] by (simp add: auth_ok_def pending_ok_def)
  have all: "auth_ok ops (end_all out reason now t)" if "auth_ok ops t" for reason now and t :: "'a auth"
    using that end_all_keyed [of t] pending_ok_cong [of "end_all out reason now t" t] by (simp add: auth_ok_def)
  have "auth_ok ops (audit a b c d e t) = auth_ok ops t" for a b c d e and t :: "'a auth"
    by (rule auth_ok_cong) simp_all
  note audited = this
  show ?thesis
  proof (cases everywhere)
    case False
    define t where "t = s\<lparr>at_sessions := snd (session_end (si_token_hash session) LoggedOut
            (out_db_fails out (si_token_hash session)) (at_sessions s))\<rparr>"
    have "auth_ok ops t" using one by (simp add: t_def)
    moreover have "snd (logout pl out session client everywhere s) = t
        \<or> snd (logout pl out session client everywhere s)
          = audit (out_now out) AuditLogout (Some (si_user session)) (Some client) ''logged out'' t"
      using False by (simp add: t_def logout_def Let_def split: prod.splits sum.splits)
    ultimately show ?thesis using audited by auto
  next
    case True
    show ?thesis
    proof (cases "revoke pl out (si_user session) (out_now out) s")
      case (Inl e)
      with True ok show ?thesis by (simp add: logout_def Let_def)
    next
      case (Inr t)
      with revoke_others [OF Inr] ok auth_ok_cong [of t s] have "auth_ok ops t" by simp
      with True Inr all audited show ?thesis by (simp add: logout_def Let_def)
    qed
  qed
qed

lemma run_auth_ok:
  assumes "auth_ok ops s" and "op \<in> set ops"
  shows "auth_ok ops (run_auth pl op s)"
proof (cases op)
  case (OpLogin out request client)
  with assms password_ok second_factor_ok show ?thesis by (cases request) (auto simp: login_def)
next
  case (OpMaintain out)
  with assms maintain_others [of s] pending_ok_cong [of "maintain pl out s" s] show ?thesis by (simp add: auth_ok_def)
next
  case (OpElsewhere revoked)
  with assms(1) auth_ok_cong [of "s\<lparr>at_revoked := revoked\<rparr>" s] show ?thesis by simp
qed (use assms authenticate_ok logout_ok in simp_all)

lemma auth_ok_new: "keyed sessions \<Longrightarrow> auth_ok [] (auth_new limits sessions revoked t)"
  by (simp add: auth_ok_def auth_new_def pending_ok_def bt_ok_empty bt_get_empty) (simp add: bt_empty_def)

lemma trace_ok:
  assumes "keyed sessions"
  shows "auth_ok ops (fold (run_auth pl) ops (auth_new limits sessions revoked t))"
proof (induction ops rule: rev_induct)
  case Nil
  then show ?case using auth_ok_new [OF assms] by simp
next
  case (snoc op ops)
  then have "auth_ok (ops @ [op]) (fold (run_auth pl) ops (auth_new limits sessions revoked t))"
    by (simp add: auth_ok_def pending_ok_more)
  from run_auth_ok [OF this, of op] show ?case by simp
qed

subsection \<open>Why a session exists\<close>

lemma finish_LoggedIn:
  assumes "finish pl out user client s = (Ok (LoggedIn a), s')"
  shows "sa_user a = user"
    and "\<exists>cfg. out_user_cfg out = Some cfg
      \<and> standing_of (accounts_parse cfg) user (i64_div (out_later out) 1000) = Allowed (sa_role a)"
    and "live_of s' (hash_token (pl_sha256 pl) (sa_token a))
      = Some (live_new \<lparr> si_token_hash = hash_token (pl_sha256 pl) (sa_token a), si_user = user, si_role = sa_role a,
          si_client = client, si_created_ms = out_later out, si_last_used_ms = out_later out \<rparr>)"
  using assms
  by (auto simp: finish_def session_create_def Let_def bt_get_insert
      split: option.splits standing.splits prod.splits sum.splits if_splits)

lemma password_granted:
  assumes "login_password pl out user password client s = (Ok (LoggedIn a), s')"
  shows "\<exists>u t. out_ticket out (PasswordForm user password) = Ok (Granted u) \<and> finish pl out u client t = (Ok (LoggedIn a), s')"
proof (cases rule: admit_cases [of pl client "Some user" "out_now out" s])
  case (2 t)
  show ?thesis
  proof (cases "out_ticket out (PasswordForm user password)")
    case (Inl err)
    with assms 2 show ?thesis by (cases err) (auto simp: login_password_def Let_def split: if_splits)
  next
    case (Inr outcome)
    with assms 2 show ?thesis
      by (cases outcome) (auto simp: login_password_def issue_challenge_def Let_def split: if_splits option.splits)
  qed
qed (use assms in \<open>auto simp: login_password_def Let_def split: if_splits\<close>)

lemma second_factor_granted:
  assumes "login_second_factor pl out c m response client s = (Ok (LoggedIn a), s')"
  shows "\<exists>p u t. find_pending c client (out_now out) s = Some p \<and> m \<in> set (pd_methods p)
    \<and> out_ticket out (SecondFactorForm (pd_user p) (pd_partial_ticket p) (method_name m @ '':'' @ remove_white response)) = Ok (Granted u)
    \<and> finish pl out u client t = (Ok (LoggedIn a), s')"
proof (cases "find_pending c client (out_now out) s")
  case None
  with assms show ?thesis
    by (cases rule: admit_cases [of pl client None "out_now out" "fresh_pending (out_now out) s"])
      (auto simp: login_second_factor_def Let_def)
next
  case (Some p)
  let ?form = "SecondFactorForm (pd_user p) (pd_partial_ticket p) (method_name m @ '':'' @ remove_white response)"
  show ?thesis
  proof (cases rule: admit_cases [of pl client "Some (pd_user p)" "out_now out" s])
    case (2 t)
    show ?thesis
    proof (cases "out_ticket out ?form")
      case (Inl err)
      with assms 2 Some show ?thesis
        by (cases err) (auto simp: login_second_factor_def Let_def case_prod_beta split: if_splits)
    next
      case (Inr outcome)
      with assms 2 Some show ?thesis
        by (cases outcome) (auto simp: login_second_factor_def Let_def split: if_splits)
    qed
  qed (use assms Some in \<open>auto simp: login_second_factor_def Let_def split: if_splits\<close>)
qed

definition password_accepted :: "outside \<Rightarrow> string \<Rightarrow> string \<Rightarrow> string \<Rightarrow> bool" where
  "password_accepted out user password granted = (out_ticket out (PasswordForm user password) = Ok (Granted granted))"

definition second_factor_accepted ::
    "'ip auth_op list \<Rightarrow> outside \<Rightarrow> second_factor_method \<Rightarrow> string \<Rightarrow> 'ip \<Rightarrow> string \<Rightarrow> bool" where
  \<comment> \<open>the code was accepted for a partial ticket that answered a password from the same client less
    than two minutes before, by a method that ticket allows\<close>
  "second_factor_accepted ops out m response client granted =
     (\<exists>out0 user0 password0 user partial_ticket ch.
        OpLogin out0 (LoginPassword user0 password0) client \<in> set ops
        \<and> out_ticket out0 (PasswordForm user0 password0) = Ok (SecondFactorNeeded user partial_ticket ch)
        \<and> out_now out - out_now out0 < CHALLENGE_TTL_MS \<and> m \<in> set (challenge_methods ch)
        \<and> out_ticket out (SecondFactorForm user partial_ticket (method_name m @ '':'' @ remove_white response))
            = Ok (Granted granted))"

lemma pending_accepted:
  assumes "auth_ok ops s" and "find_pending c client (out_now out) s = Some p" and "m \<in> set (pd_methods p)"
    and "out_ticket out (SecondFactorForm (pd_user p) (pd_partial_ticket p) (method_name m @ '':'' @ remove_white response)) = Ok (Granted u)"
  shows "second_factor_accepted ops out m response client u"
proof -
  have p: "bt_get (at_pending s) c = Some p" "pd_client p = client" "out_now out - pd_created_ms p < CHALLENGE_TTL_MS"
    using assms(2) by (auto simp: find_pending_def)
  then have "issued ops p" using assms(1) by (auto simp: auth_ok_def pending_ok_def)
  with p assms(3,4) show ?thesis unfolding issued_def second_factor_accepted_def by fastforce
qed

text \<open>
  C24: whatever happened before on this host, a login that starts a session does so for the user
  Proxmox has just granted a ticket to, either for this password or for a code that answers a
  challenge Proxmox gave the same client less than two minutes earlier for an accepted password; the
  account list gives that user the role of the session at this moment; and the session is live under
  the hash of the token that was returned, for this user, role and client.
\<close>

theorem login_authentic:
  assumes k: "keyed sessions"
    and s: "s = fold (run_auth pl) ops (auth_new limits sessions revoked t0)"
    and l: "login pl out request client s = (Ok (LoggedIn a), s')"
  shows "(case request of
        LoginPassword user password \<Rightarrow> password_accepted out user password (sa_user a)
      | LoginSecondFactor c m response \<Rightarrow> second_factor_accepted ops out m response client (sa_user a))
    \<and> (\<exists>cfg. out_user_cfg out = Some cfg
        \<and> standing_of (accounts_parse cfg) (sa_user a) (i64_div (out_later out) 1000) = Allowed (sa_role a))
    \<and> map_option lv_info (live_of s' (hash_token (pl_sha256 pl) (sa_token a)))
      = Some \<lparr> si_token_hash = hash_token (pl_sha256 pl) (sa_token a), si_user = sa_user a, si_role = sa_role a,
          si_client = client, si_created_ms = out_later out, si_last_used_ms = out_later out \<rparr>"
proof -
  have ok: "auth_ok ops s" unfolding s by (rule trace_ok [OF k])
  have "\<exists>u t. (case request of
        LoginPassword user password \<Rightarrow> password_accepted out user password u
      | LoginSecondFactor c m response \<Rightarrow> second_factor_accepted ops out m response client u)
      \<and> finish pl out u client t = (Ok (LoggedIn a), s')"
  proof (cases request)
    case (LoginPassword user password)
    with l password_granted [of pl out user password client s a s'] show ?thesis
      by (auto simp: login_def password_accepted_def)
  next
    case (LoginSecondFactor c m response)
    with l second_factor_granted [of pl out c m response client s a s'] pending_accepted [OF ok] show ?thesis
      by (fastforce simp: login_def)
  qed
  then obtain u t where u: "case request of
        LoginPassword user password \<Rightarrow> password_accepted out user password u
      | LoginSecondFactor c m response \<Rightarrow> second_factor_accepted ops out m response client u"
    and f: "finish pl out u client t = (Ok (LoggedIn a), s')" by blast
  note facts = finish_LoggedIn [OF f]
  show ?thesis unfolding facts(1) using u facts(2,3) by (simp add: live_new_def)
qed

text \<open>
  C25: after the upkeep exactly those sessions are still live that were live before, are within their
  time limits, are not revoked by a record of the cluster that can be read, and, when the recheck is
  due and the account list can be read, belong to an account that still has the role of the session.
  This holds even when the database fails.
\<close>

theorem maintain_exact:
  assumes "keyed sessions" and "s = fold (run_auth pl) ops (auth_new limits sessions revoked t0)"
  shows "live_of (maintain pl out s) h = option_filter (\<lambda>l. survives pl out s (lv_info l)) (live_of s h)"
proof -
  have "keyed (at_sessions s)"
    using trace_ok [OF assms(1), of ops pl limits revoked t0] assms(2) by (simp add: auth_ok_def)
  then show ?thesis by (rule maintain_live)
qed

lemma logout_everywhere_state:
  assumes k: "keyed (at_sessions s)" and l: "logout pl out session client True s = (Ok (), s')"
  shows "live_of s' h = option_filter (\<lambda>l. si_user (lv_info l) \<noteq> si_user session) (live_of s h)"
    and "\<exists>at. bt_get (at_revoked s') (revocation_path pl (si_user session)) = Some \<lparr> rv_user = si_user session, rv_at_ms = at \<rparr>
      \<and> out_now out \<le> at"
proof -
  obtain t where t: "revoke pl out (si_user session) (out_now out) s = Ok t"
    and s': "s' = end_all out (\<lambda>i. if si_user i = si_user session then Some Revoked else None) (out_now out)
      (audit (out_now out) AuditLogoutEverywhere (Some (si_user session)) (Some client) ''logged out everywhere'' t)"
    using l by (auto simp: logout_def Let_def split: sum.splits)
  have same: "at_sessions t = at_sessions s" using revoke_others [OF t] by simp
  show "live_of s' h = option_filter (\<lambda>l. si_user (lv_info l) \<noteq> si_user session) (live_of s h)"
    unfolding s' using k same by (subst end_all_live) (auto intro: option_filter_cong)
  show "\<exists>at. bt_get (at_revoked s') (revocation_path pl (si_user session)) = Some \<lparr> rv_user = si_user session, rv_at_ms = at \<rparr>
      \<and> out_now out \<le> at"
    using t unfolding s' by (auto simp: revoke_def result_ops Let_def bt_get_insert split: if_splits option.splits)
qed

text \<open>
  Logging out everywhere leaves no session of the user live on this host, other users' sessions
  as they are, and a revocation in the cluster; on every host that reads it, the next upkeep ends
  every session of the user that was created up to that moment.
\<close>

lemma logout_everywhere_ends:
  assumes "keyed sessions" and s: "s = fold (run_auth pl) ops (auth_new limits sessions revoked t0)"
    and l: "logout pl out session client True s = (Ok (), s')"
    and "keyed sessions'" and t: "t = fold (run_auth pl) ops' (auth_new limits' sessions' (at_revoked s') t1)"
    and same: "at_revoked t = at_revoked s'" and "\<not> out_read_fails out' (si_user session)"
  shows "live_of s' h = option_filter (\<lambda>l. si_user (lv_info l) \<noteq> si_user session) (live_of s h)
    \<and> (\<forall>h l. live_of (maintain pl out' t) h = Some l \<longrightarrow> si_user (lv_info l) = si_user session
         \<longrightarrow> out_now out < si_created_ms (lv_info l))"
proof
  have k: "keyed (at_sessions s)" "keyed (at_sessions t)"
    using trace_ok [OF assms(1), of ops pl limits revoked t0]
      trace_ok [OF assms(4), of ops' pl limits' "at_revoked s'" t1] s t by (simp_all add: auth_ok_def)
  note state = logout_everywhere_state [OF k(1) l]
  show "live_of s' h = option_filter (\<lambda>l. si_user (lv_info l) \<noteq> si_user session) (live_of s h)" by (rule state(1))
  obtain at where at: "bt_get (at_revoked t) (revocation_path pl (si_user session))
      = Some \<lparr> rv_user = si_user session, rv_at_ms = at \<rparr>" "out_now out \<le> at"
    using state(2) same by auto
  then have "revoked_at pl out' (si_user session) t = Ok (Some at)" using assms(7) by (simp add: revoked_at_def)
  then show "\<forall>h l. live_of (maintain pl out' t) h = Some l \<longrightarrow> si_user (lv_info l) = si_user session
         \<longrightarrow> out_now out < si_created_ms (lv_info l)"
    using at(2) by (auto simp: maintain_live [OF k(2)] survives_def revoked_session_def)
qed

subsection \<open>Concrete inputs\<close>

definition sample_platform :: "string platform" where
  "sample_platform = \<lparr> pl_sha256 = sample_sha256, pl_show_ip = (\<lambda>ip. ip), pl_lower = (\<lambda>s. s) \<rparr>"

definition sample_outside :: outside where
  "sample_outside = \<lparr> out_now = 1000, out_later = 1000, out_ticket = (\<lambda>_. Ok (Granted ''root@pam'')),
     out_user_cfg = Some ''user:root@pam:1:0'', out_random = Some (replicate 32 0),
     out_db_fails = (\<lambda>_. False), out_read_fails = (\<lambda>_. False), out_write_fails = False \<rparr>"

definition sample_auth :: "string auth" where
  "sample_auth = auth_new login_limits_default (no_sessions session_policy_default) bt_empty 0"

definition sample_answer :: session_answer where
  "sample_answer = \<lparr> sa_token = sample_token, sa_user = ''root@pam'', sa_role = Admin,
     sa_idle_timeout_seconds = 1800, sa_expires_at_ms = 43201000 \<rparr>"

lemma keyed_none: "keyed (no_sessions policy)"
  by (simp add: keyed_def no_sessions_def bt_ok_empty bt_get_empty)

lemma sample_standing: "standing_of (accounts_parse ''user:root@pam:1:0'') ''root@pam'' 1 = Allowed Admin"
proof -
  have "trim ''user:root@pam:1:0'' = ''user:root@pam:1:0''" by (rule trim_graphic) code_simp
  moreover have "text_lines ''user:root@pam:1:0'' = [''user:root@pam:1:0'']" by code_simp
  moreover have "split_on (CHR '':'') ''user:root@pam:1:0'' = [''user'', ''root@pam'', ''1'', ''0'']" by code_simp
  ultimately have "accounts_parse ''user:root@pam:1:0''
      = accounts_line [''user'', ''root@pam'', ''1'', ''0''] accounts_default"
    by (simp add: accounts_parse_def line_fields_def)
  then show ?thesis by (simp only:) code_simp
qed

lemma sample_valid: "valid_user ''root@pam''"
  by code_simp

lemma sample_admit: "fst (admit sample_platform c (Some u) 1000 sample_auth) = Ok ()"
  by (simp add: admit_def sample_auth_def auth_new_def limiter_new_def Let_def limiter_check_def bt_get_empty split: prod.splits)

lemma sample_login:
  "fst (login sample_platform sample_outside (LoginPassword ''root@pam'' ''secret'') ''10.0.0.9'' sample_auth)
   = Ok (LoggedIn sample_answer)"
proof -
  obtain s where s: "admit sample_platform ''10.0.0.9'' (Some ''root@pam'') 1000 sample_auth = (Ok (), s)"
    using sample_admit [of "''10.0.0.9''" "''root@pam''"] by (metis prod.collapse)
  have "at_sessions s = at_sessions sample_auth"
    using admit_others(2) [of sample_platform "''10.0.0.9''" "Some ''root@pam''" 1000 sample_auth] unfolding s by simp
  then have "at_sessions s = no_sessions session_policy_default" by (simp add: sample_auth_def auth_new_def)
  moreover have "i64_div 1000 1000 = 1" "i64_div 1800000 1000 = 1800" by code_simp+
  ultimately have "fst (finish sample_platform sample_outside ''root@pam'' ''10.0.0.9'' s) = Ok (LoggedIn sample_answer)"
    by (simp add: finish_def sample_outside_def sample_standing session_create_def session_sample_facts Let_def no_sessions_def
        bt_contains_key_def bt_get_empty session_policy_default_def sample_answer_def)
  with s sample_valid show ?thesis
    by (simp add: login_def login_password_def Let_def sample_outside_def MAX_PASSWORD_def)
qed

theorem login_authentic_witness:
  "\<exists>s'. login sample_platform sample_outside (LoginPassword ''root@pam'' ''secret'') ''10.0.0.9'' sample_auth
      = (Ok (LoggedIn sample_answer), s')
    \<and> password_accepted sample_outside ''root@pam'' ''secret'' ''root@pam''
    \<and> map_option si_role (map_option lv_info (live_of s' (hash_token sample_sha256 sample_token))) = Some Admin"
proof -
  obtain s' where s': "login sample_platform sample_outside (LoginPassword ''root@pam'' ''secret'') ''10.0.0.9'' sample_auth
      = (Ok (LoggedIn sample_answer), s')"
    using sample_login by (metis prod.collapse)
  have "sample_auth = fold (run_auth sample_platform) [] (auth_new login_limits_default (no_sessions session_policy_default) bt_empty 0)"
    by (simp add: sample_auth_def)
  from login_authentic [OF keyed_none this s'] s' show ?thesis
    by (auto simp: sample_answer_def sample_platform_def)
qed

definition sample_late :: outside where
  "sample_late = sample_outside\<lparr>out_now := 100000000\<rparr>"

definition sample_running :: "string auth" where
  "sample_running = auth_new login_limits_default sample_sessions bt_empty 0"

lemma keyed_sample: "keyed sample_sessions"
  by (simp add: keyed_def sample_sessions_def sample_info_def live_new_def bt_ok_def bt_get_def)

theorem maintain_exact_witness:
  "live_of sample_running ''2b'' \<noteq> None \<and> live_of (maintain sample_platform sample_late sample_running) ''2b'' = None"
proof -
  have "sample_running = fold (run_auth sample_platform) [] (auth_new login_limits_default sample_sessions bt_empty 0)"
    by (simp add: sample_running_def)
  note m = maintain_exact [OF keyed_sample this, of sample_late "''2b''"]
  have l: "live_of sample_running ''2b'' = Some (live_new sample_info)"
    by (simp add: sample_running_def auth_new_def session_sample_facts)
  have "\<not> survives sample_platform sample_late sample_running sample_info" by code_simp
  then show ?thesis unfolding m l by (simp add: option_filter_def live_new_def)
qed

lemma logout_everywhere_ends_witness:
  "\<exists>s'. logout sample_platform sample_outside sample_info ''100.64.0.9'' True sample_running = (Ok (), s')
    \<and> live_of s' ''2b'' = None"
proof -
  define s' where "s' = snd (logout sample_platform sample_outside sample_info ''100.64.0.9'' True sample_running)"
  have l: "logout sample_platform sample_outside sample_info ''100.64.0.9'' True sample_running = (Ok (), s')"
    by (simp add: s'_def logout_def revoke_def revoked_at_def sample_running_def auth_new_def bt_get_empty Let_def sample_outside_def)
  have s: "sample_running = fold (run_auth sample_platform) [] (auth_new login_limits_default sample_sessions bt_empty 0)"
    by (simp add: sample_running_def)
  have t: "auth_new login_limits_default (no_sessions session_policy_default) (at_revoked s') 0
      = fold (run_auth sample_platform) [] (auth_new login_limits_default (no_sessions session_policy_default) (at_revoked s') 0)"
    by simp
  have "live_of s' ''2b'' = option_filter (\<lambda>l. si_user (lv_info l) \<noteq> si_user sample_info) (live_of sample_running ''2b'')"
    using logout_everywhere_ends [OF keyed_sample s l keyed_none t, of sample_outside "''2b''"]
    by (simp add: auth_new_def sample_outside_def)
  moreover have "live_of sample_running ''2b'' = Some (live_new sample_info)"
    by (simp add: sample_running_def auth_new_def session_sample_facts)
  ultimately show ?thesis using l by (simp add: option_filter_def live_new_def)
qed

end
