(* ===== verification/Jobs_Operations.thy ===== *)
theory Jobs_Operations
  imports Core_Ids Auth_Accounts Backup_Json "HOL-Library.Sublist"
begin

section \<open>The operations a job can run\<close>

text \<open>
  Models src/v3/crates/bmacd/src/operations.rs with the types of
  src/v3/crates/bmac-proto/src/operations.rs: what an operation declares, the checks the registry
  makes when it loads, and how a launch's parameters become a script's arguments and a job's
  locks. How serde_json writes a number is the parameter \<open>number_text\<close>, and the parsed
  registry file is an argument of \<open>registry_from_parts\<close>. The texts of a refused launch are the
  code's; a refusal of the registry is a value of \<open>fault\<close>. A panic is the error
  \<open>Unreachable\<close> or \<open>LaunchPanics\<close>, and the theorems show that neither happens.
\<close>

datatype category =
    CategoryProduction | CategoryStaging | CategoryHosts | CategoryQdevice | CategoryStorage
  | CategoryBackups | CategoryCluster | CategoryDiagnostics

datatype operation_kind = ScriptOperation | NativeOperation

datatype param_type =
    TypeFlag | TypeFlagChoice | TypeChoice | TypeHost | TypeProduction | TypeStaging | TypeGuest
  | TypeInteger | TypeHostname

definition names_a_resource :: "param_type \<Rightarrow> bool" where
  "names_a_resource t = (t \<in> {TypeHost, TypeProduction, TypeStaging, TypeGuest})"

record param_choice =
  pc_value :: string
  pc_label :: string
  pc_flag :: "string option"

datatype param_suggest = FreeHostSlots

record 'f param =
  pm_id :: string
  pm_label :: string
  pm_kind :: param_type
  pm_flag :: "string option"
  pm_help :: "string option"
  pm_required :: bool
  pm_advanced :: bool
  pm_default :: "'f json option"
  pm_placeholder :: "string option"
  pm_choices :: "param_choice list"
  pm_suggest :: "param_suggest option"

datatype target_rule =
    TargetAny
  | TargetDuty
  | TargetHost string
  | TargetAnyExcept string
  | TargetOwner string
  | TargetStandby string
  | TargetPlacement

datatype cancel_rule = CancelScript | CancelPhases "string list"

datatype resume_rule = ResumeNever | ResumeCheckpoint

record 'f operation =
  op_id :: string
  op_title :: string
  op_summary :: string
  op_description :: string
  op_category :: category
  op_kind :: operation_kind
  op_script :: "string option"
  op_min_role :: role
  op_mutating :: bool
  op_destructive :: bool
  op_supports_dry_run :: bool
  op_params :: "'f param list"
  op_locks :: "string list"
  op_target :: target_rule
  op_cancel :: cancel_rule
  op_resume :: resume_rule
  op_notes :: "string option"

definition LOCK_CLASSES :: "string list" where
  "LOCK_CLASSES =
     [''capacity'', ''cluster-membership'', ''host'', ''production'', ''staging'', ''qdevice'',
      ''storage'', ''backups'', ''restore'', ''update'']"

definition DRY_RUN_FLAG :: string where
  "DRY_RUN_FLAG = ''--dry-run''"

definition RESERVED_FLAGS :: "string list" where
  "RESERVED_FLAGS = [''--json'', DRY_RUN_FLAG]"

subsection \<open>Values and arguments\<close>

datatype refusal = Refused string | Unreachable

definition find_param :: "'f operation \<Rightarrow> string \<Rightarrow> 'f param option" where
  "find_param op ident = find (\<lambda>p. pm_id p = ident) (op_params op)"

definition is_positional :: "'f param \<Rightarrow> bool" where
  "is_positional p = (pm_flag p = None \<and> pm_kind p \<notin> {TypeFlag, TypeFlagChoice})"

fun is_blank :: "'f json \<Rightarrow> bool" where
  "is_blank JNull = True"
| "is_blank (JString s) = (trim s = [])"
| "is_blank _ = False"

fun scalar_text :: "('f number \<Rightarrow> string) \<Rightarrow> 'f json \<Rightarrow> string option" where
  "scalar_text number_text (JString s) = Some (trim s)"
| "scalar_text number_text (JNumber n) = Some (number_text n)"
| "scalar_text _ _ = None"

definition is_hostname :: "string \<Rightarrow> bool" where
  "is_hostname s =
     (s \<noteq> [] \<and> length s \<le> 253
      \<and> list_all (\<lambda>label. label \<noteq> [] \<and> length label \<le> 63 \<and> \<not> starts_with ''-'' label
            \<and> \<not> ends_with ''-'' label
            \<and> list_all (\<lambda>b. is_ascii_alphanumeric b \<or> b = CHR ''-'') label)
          (split_on (CHR ''.'') s))"

definition canonical_value :: "'f param \<Rightarrow> string \<Rightarrow> (refusal, string) result" where
  "canonical_value p s =
     (let guest = (case guest_name_from_str s of Err _ \<Rightarrow> None | Ok g \<Rightarrow> Some g) in
      case pm_kind p of
        TypeChoice \<Rightarrow>
          ok_or (Refused ''not one of the allowed choices'')
            (map_option pc_value (find (\<lambda>c. pc_value c = s) (pm_choices p)))
      | TypeHost \<Rightarrow>
          (case host_slot_from_str s of
             Err _ \<Rightarrow> Err (Refused ''expected mox1 to mox32'')
           | Ok h \<Rightarrow> Ok (host_slot_display h))
      | TypeProduction \<Rightarrow>
          ok_or (Refused ''expected prodN'')
            (map_option guest_name_display (option_filter is_production guest))
      | TypeStaging \<Rightarrow>
          ok_or (Refused ''expected stageMprodN'')
            (map_option guest_name_display (option_filter (\<lambda>g. \<not> is_production g) guest))
      | TypeGuest \<Rightarrow>
          ok_or (Refused ''expected prodN or stageMprodN'') (map_option guest_name_display guest)
      | TypeInteger \<Rightarrow>
          (if s \<noteq> [] \<and> length s \<le> 9 \<and> list_all is_ascii_digit s \<and> \<not> starts_with ''0'' s
           then Ok s else Err (Refused ''expected a positive whole number''))
      | TypeHostname \<Rightarrow>
          (if is_hostname s then Ok (to_ascii_lowercase s) else Err (Refused ''expected a host name''))
      | TypeFlag \<Rightarrow> Err Unreachable
      | TypeFlagChoice \<Rightarrow> Err Unreachable)"

fun as_bool :: "'f json \<Rightarrow> bool option" where
  "as_bool (JBool b) = Some b"
| "as_bool _ = None"

definition param_arguments ::
  "('f number \<Rightarrow> string) \<Rightarrow> 'f param \<Rightarrow> 'f json \<Rightarrow> (refusal, string option \<times> string list) result" where
  "param_arguments number_text p v =
     (case pm_kind p of
        TypeFlag \<Rightarrow>
          and_then (ok_or (Refused ''expected true or false'') (as_bool v)) (\<lambda>on.
            let args = (case pm_flag p of Some flag \<Rightarrow> if on then [flag] else [] | None \<Rightarrow> [])
            in Ok (if on then Some ''yes'' else None, args))
      | TypeFlagChoice \<Rightarrow>
          and_then (ok_or (Refused ''expected a choice'') (value_as_str v)) (\<lambda>s.
          and_then (ok_or (Refused ''not one of the allowed choices'')
                     (find (\<lambda>c. pc_value c = s) (pm_choices p))) (\<lambda>choice.
            Ok (Some (pc_value choice), (case pc_flag choice of None \<Rightarrow> [] | Some flag \<Rightarrow> [flag]))))
      | _ \<Rightarrow>
          and_then (ok_or (Refused ''expected a single value'') (scalar_text number_text v)) (\<lambda>s.
          and_then (canonical_value p s) (\<lambda>s.
            Ok (Some s, (case pm_flag p of Some flag \<Rightarrow> [flag, s] | None \<Rightarrow> [s])))))"

subsection \<open>Lock names\<close>

datatype lock_part = LockLiteral string | LockParam (lp_id: string) (lp_optional: bool)

definition strip_suffix :: "string \<Rightarrow> string \<Rightarrow> string option" where
  "strip_suffix p s = (if ends_with p s then Some (take (length s - length p) s) else None)"

definition lock_part_of :: "string \<Rightarrow> lock_part option" where
  \<comment> \<open>one part of a template; \<open>None\<close> is the error that names it\<close>
  "lock_part_of part =
     (case Option.bind (strip_prefix ''{'' part) (strip_suffix ''}'') of
        Some inner \<Rightarrow>
          (let (ident, optional) =
             (case strip_suffix ''?'' inner of Some i \<Rightarrow> (i, True) | None \<Rightarrow> (inner, False)) in
           if ident = [] \<or> \<not> list_all (\<lambda>b. is_ascii_lowercase b \<or> b = CHR ''_'') ident then None
           else Some (LockParam ident optional))
      | None \<Rightarrow>
          if part \<noteq> []
             \<and> list_all (\<lambda>b. is_ascii_lowercase b \<or> is_ascii_digit b \<or> b = CHR ''-'') part
          then Some (LockLiteral part) else None)"

definition lock_parts :: "string \<Rightarrow> lock_part list option" where
  "lock_parts template = those (map lock_part_of (split_on (CHR '':'') template))"

fun lock_name :: "(string, string) btree \<Rightarrow> lock_part list \<Rightarrow> string list" where
  \<comment> \<open>the loop of \<open>resolve_lock\<close>: an absent parameter ends the name\<close>
  "lock_name summary [] = []"
| "lock_name summary (LockLiteral s # ps) = s # lock_name summary ps"
| "lock_name summary (LockParam ident _ # ps) =
     (case bt_get summary ident of Some v \<Rightarrow> v # lock_name summary ps | None \<Rightarrow> [])"

definition resolve_lock :: "string \<Rightarrow> (string, string) btree \<Rightarrow> string option" where
  "resolve_lock template summary =
     map_option (\<lambda>ps. join_with '':'' (lock_name summary ps)) (lock_parts template)"

definition locks_conflict :: "string \<Rightarrow> string \<Rightarrow> bool" where
  "locks_conflict a b =
     (let (short, long) = (if length a \<le> length b then (a, b) else (b, a))
      in long = short \<or> is_some_and (starts_with '':'') (strip_prefix short long))"

subsection \<open>Preparing a launch\<close>

record prepared =
  pr_args :: "string list"
  pr_summary :: "(string, string) btree"
  pr_locks :: "string list"
  pr_dry_run :: bool

record invalid_launch =
  il_message :: string
  il_field_errors :: "(string, string) btree"

datatype launch_fault = InvalidLaunch invalid_launch | LaunchPanics

record preparing =
  pg_errors :: "(string, string) btree"
  pg_options :: "string list"
  pg_positional :: "string list"
  pg_summary :: "(string, string) btree"

definition unknown_parameters :: "'f operation \<Rightarrow> (string, 'f json) btree \<Rightarrow> (string, string) btree" where
  "unknown_parameters op values =
     fold (\<lambda>key errors. if find_param op key = None
             then bt_insert key ''not a parameter of this operation'' errors else errors)
       (bt_keys values) bt_empty"

definition prepare_param ::
  "('f number \<Rightarrow> string) \<Rightarrow> (string, 'f json) btree \<Rightarrow> 'f param \<Rightarrow> preparing
   \<Rightarrow> (launch_fault, preparing) result" where
  "prepare_param number_text values p s =
     (let wrong = (\<lambda>why. s\<lparr>pg_errors := bt_insert (pm_id p) why (pg_errors s)\<rparr>) in
      case option_filter (\<lambda>v. \<not> is_blank v) (bt_get values (pm_id p)) of
        None \<Rightarrow> Ok (if pm_required p then wrong ''required'' else s)
      | Some v \<Rightarrow>
          (case param_arguments number_text p v of
             Err Unreachable \<Rightarrow> Err LaunchPanics
           | Err (Refused why) \<Rightarrow> Ok (wrong why)
           | Ok (None, _) \<Rightarrow> Ok s
           | Ok (Some txt, args) \<Rightarrow>
               if is_positional p \<and> starts_with ''-'' txt then Ok (wrong (''may not start with '' @ [CHR 0x27, CHR ''-'', CHR 0x27]))
               else
                 let s = (if is_positional p then s\<lparr>pg_positional := pg_positional s @ args\<rparr>
                          else s\<lparr>pg_options := pg_options s @ args\<rparr>)
                 in Ok (s\<lparr>pg_summary := bt_insert (pm_id p) txt (pg_summary s)\<rparr>)))"

definition launch_message :: "'f operation \<Rightarrow> (string, string) btree \<Rightarrow> string" where
  "launch_message op errors =
     (case errors of
        [(ident, why)] \<Rightarrow>
          (case find_param op ident of None \<Rightarrow> ident | Some p \<Rightarrow> pm_label p) @ '': '' @ why
      | _ \<Rightarrow> ''some parameters need attention'')"

definition prepare ::
  "('f number \<Rightarrow> string) \<Rightarrow> 'f operation \<Rightarrow> (string, 'f json) btree \<Rightarrow> bool
   \<Rightarrow> (launch_fault, prepared) result" where
  "prepare number_text op values dry_run =
     (let field_errors = unknown_parameters op values in
      if dry_run \<and> \<not> op_supports_dry_run op then
        Err (InvalidLaunch \<lparr> il_message = op_title op @ '' has no dry run'', il_field_errors = field_errors \<rparr>)
      else
        and_then (try_fold (prepare_param number_text values) (op_params op)
                    \<lparr> pg_errors = field_errors, pg_options = [], pg_positional = [], pg_summary = bt_empty \<rparr>)
          (\<lambda>s.
            if pg_errors s \<noteq> [] then
              Err (InvalidLaunch \<lparr> il_message = launch_message op (pg_errors s), il_field_errors = pg_errors s \<rparr>)
            else
              let args = pg_options s
                    @ (if dry_run \<and> op_kind op = ScriptOperation then [DRY_RUN_FLAG] else [])
                    @ pg_positional s
              in case those (map (\<lambda>t. resolve_lock t (pg_summary s)) (op_locks op)) of
                   None \<Rightarrow> Err LaunchPanics
                 | Some locks \<Rightarrow>
                     Ok \<lparr> pr_args = args, pr_summary = pg_summary s, pr_locks = locks, pr_dry_run = dry_run \<rparr>))"

subsection \<open>What the registry checks\<close>

datatype fault =
    EmptyText string
  | UnsafeScript string
  | ScriptMissing
  | NativeWithScript
  | DestructiveNotMutating
  | DestructiveNotAdmin
  | MutatingForViewers
  | ReadOnlyWithLocks
  | MutatingWithoutLocks
  | ScriptResumed
  | WrongCancelRule
  | NativeFlag string
  | BadFlag string
  | ReservedFlag string
  | FlagTwice string
  | BadParamId string
  | ParamTwice string
  | EmptyLabel string
  | ChoicesMismatch string
  | ChoiceTwice string string
  | ChoiceWithoutFlag string string
  | ChoiceWithFlag string
  | FlagOnFlagChoice string
  | FlagWithoutFlag string
  | SuggestNotHost string
  | RequiredDefault string
  | BadDefault string refusal
  | BadLock string
  | UnknownLockClass string
  | LockNoParam string string
  | LockNotResource string string
  | LockOptionalParam string string
  | LockTwice string
  | TargetNoParam string
  | TargetParam string

definition is_identifier :: "string \<Rightarrow> bool" where
  "is_identifier s =
     (s \<noteq> [] \<and> length s \<le> 64 \<and> is_ascii_lowercase (hd s)
      \<and> list_all (\<lambda>b. is_ascii_lowercase b \<or> is_ascii_digit b \<or> b = CHR ''_'') s)"

definition is_safe_relative_script :: "string \<Rightarrow> bool" where
  "is_safe_relative_script path =
     (ends_with ''.sh'' path
      \<and> list_all (\<lambda>part. part \<noteq> [] \<and> part \<noteq> ''.'' \<and> part \<noteq> ''..''
            \<and> list_all (\<lambda>b. is_ascii_alphanumeric b \<or> b = CHR ''_'' \<or> b = CHR ''-'' \<or> b = CHR ''.'') part)
          (split_on (CHR ''/'') path))"

definition add_flag :: "bool \<Rightarrow> string option \<Rightarrow> string list \<Rightarrow> (fault, string list) result" where
  \<comment> \<open>the closure of \<open>check_params\<close>; the list holds the flags seen so far\<close>
  "add_flag script flag flags =
     (case flag of
        None \<Rightarrow> Ok flags
      | Some flag \<Rightarrow>
          if \<not> script then Err (NativeFlag flag)
          else
            let name = unwrap_or [] (strip_prefix ''--'' flag) in
            if name = []
               \<or> \<not> list_all (\<lambda>b. is_ascii_lowercase b \<or> is_ascii_digit b \<or> b = CHR ''-'') name
            then Err (BadFlag flag)
            else if flag \<in> set RESERVED_FLAGS then Err (ReservedFlag flag)
            else if flag \<in> set flags then Err (FlagTwice flag)
            else Ok (flag # flags))"

definition check_choice ::
  "bool \<Rightarrow> 'f param \<Rightarrow> param_choice \<Rightarrow> string list \<times> string list \<Rightarrow> (fault, string list \<times> string list) result"
where
  "check_choice script p choice = (\<lambda>(values, flags).
     if pc_value choice \<in> set values then Err (ChoiceTwice (pm_id p) (pc_value choice))
     else if pm_kind p = TypeFlagChoice then
       (if script \<and> pc_flag choice = None then Err (ChoiceWithoutFlag (pm_id p) (pc_value choice))
        else and_then (add_flag script (pc_flag choice) flags) (\<lambda>flags.
               Ok (pc_value choice # values, flags)))
     else if pc_flag choice \<noteq> None then Err (ChoiceWithFlag (pm_id p))
     else Ok (pc_value choice # values, flags))"

definition check_param ::
  "('f number \<Rightarrow> string) \<Rightarrow> bool \<Rightarrow> 'f param \<Rightarrow> string list \<times> string list
   \<Rightarrow> (fault, string list \<times> string list) result" where
  \<comment> \<open>one turn of the loop of \<open>check_params\<close>, with the identifiers and the flags seen\<close>
  "check_param number_text script p = (\<lambda>(ids, flags).
     let ident = pm_id p; has_choices = (pm_kind p \<in> {TypeChoice, TypeFlagChoice}) in
     if \<not> is_identifier ident then Err (BadParamId ident)
     else if ident \<in> set ids then Err (ParamTwice ident)
     else if trim (pm_label p) = [] then Err (EmptyLabel ident)
     else
       and_then (add_flag script (pm_flag p) flags) (\<lambda>flags.
         if has_choices = (pm_choices p = []) then Err (ChoicesMismatch ident)
         else
           and_then (try_fold (check_choice script p) (pm_choices p) ([], flags)) (\<lambda>(_, flags).
             if pm_kind p = TypeFlagChoice \<and> pm_flag p \<noteq> None then Err (FlagOnFlagChoice ident)
             else if pm_kind p = TypeFlag \<and> script \<and> pm_flag p = None then Err (FlagWithoutFlag ident)
             else if pm_suggest p \<noteq> None \<and> pm_kind p \<noteq> TypeHost then Err (SuggestNotHost ident)
             else
               case pm_default p of
                 None \<Rightarrow> Ok (ident # ids, flags)
               | Some v \<Rightarrow>
                   if pm_required p then Err (RequiredDefault ident)
                   else and_then (map_err (BadDefault ident) (param_arguments number_text p v)) (\<lambda>_.
                          Ok (ident # ids, flags)))))"

definition check_params ::
  "('f number \<Rightarrow> string) \<Rightarrow> 'f operation \<Rightarrow> bool \<Rightarrow> (fault, unit) result" where
  "check_params number_text op script =
     and_then (try_fold (check_param number_text script) (op_params op) ([], [])) (\<lambda>_. Ok ())"

definition check_lock_part :: "'f operation \<Rightarrow> string \<Rightarrow> lock_part \<Rightarrow> (fault, unit) result" where
  "check_lock_part op template part =
     (case part of
        LockLiteral _ \<Rightarrow> Ok ()
      | LockParam ident optional \<Rightarrow>
          (case find_param op ident of
             None \<Rightarrow> Err (LockNoParam template ident)
           | Some p \<Rightarrow>
               if \<not> names_a_resource (pm_kind p) then Err (LockNotResource template ident)
               else if \<not> optional \<and> \<not> pm_required p then Err (LockOptionalParam template ident)
               else Ok ()))"

definition check_lock :: "'f operation \<Rightarrow> string \<Rightarrow> string list \<Rightarrow> (fault, string list) result" where
  "check_lock op template seen =
     (case lock_parts template of
        None \<Rightarrow> Err (BadLock template)
      | Some parts \<Rightarrow>
          if (case parts of LockLiteral cls # _ \<Rightarrow> cls \<in> set LOCK_CLASSES | _ \<Rightarrow> False) then
            and_then (try_for_each (check_lock_part op template) parts) (\<lambda>_.
              if template \<in> set seen then Err (LockTwice template) else Ok (template # seen))
          else Err (UnknownLockClass template))"

definition check_locks :: "'f operation \<Rightarrow> (fault, unit) result" where
  "check_locks op = and_then (try_fold (check_lock op) (op_locks op) []) (\<lambda>_. Ok ())"

fun target_param :: "target_rule \<Rightarrow> (string \<times> param_type list) option" where
  "target_param (TargetHost p) = Some (p, [TypeHost])"
| "target_param (TargetAnyExcept p) = Some (p, [TypeHost])"
| "target_param (TargetOwner p) = Some (p, [TypeProduction, TypeStaging, TypeGuest])"
| "target_param (TargetStandby p) = Some (p, [TypeProduction])"
| "target_param _ = None"

definition check_target :: "'f operation \<Rightarrow> (fault, unit) result" where
  "check_target op =
     (case target_param (op_target op) of
        None \<Rightarrow> Ok ()
      | Some (ident, kinds) \<Rightarrow>
          (case find_param op ident of
             None \<Rightarrow> Err (TargetNoParam ident)
           | Some p \<Rightarrow>
               if pm_kind p \<notin> set kinds \<or> \<not> pm_required p then Err (TargetParam ident) else Ok ()))"

definition check_texts :: "'f operation \<Rightarrow> (fault, unit) result" where
  "check_texts op =
     try_for_each (\<lambda>(name, txt). if trim txt = [] then Err (EmptyText name) else Ok ())
       [(''title'', op_title op), (''summary'', op_summary op), (''description'', op_description op)]"

definition check_script :: "'f operation \<Rightarrow> (fault, unit) result" where
  "check_script op =
     (case (op_script op, op_kind op) of
        (Some path, ScriptOperation) \<Rightarrow>
          if \<not> is_safe_relative_script path then Err (UnsafeScript path) else Ok ()
      | (None, ScriptOperation) \<Rightarrow> Err ScriptMissing
      | (Some _, NativeOperation) \<Rightarrow> Err NativeWithScript
      | (None, NativeOperation) \<Rightarrow> Ok ())"

definition check_flags :: "'f operation \<Rightarrow> (fault, unit) result" where
  "check_flags op =
     (let script = (op_kind op = ScriptOperation) in
      if op_destructive op \<and> \<not> op_mutating op then Err DestructiveNotMutating
      else if op_destructive op \<and> op_min_role op \<noteq> Admin then Err DestructiveNotAdmin
      else if op_mutating op \<and> op_min_role op = Viewer then Err MutatingForViewers
      else if \<not> op_mutating op \<and> (op_locks op \<noteq> [] \<or> op_supports_dry_run op) then Err ReadOnlyWithLocks
      else if op_mutating op \<and> op_locks op = [] then Err MutatingWithoutLocks
      else if script \<and> op_resume op \<noteq> ResumeNever then Err ScriptResumed
      else if script \<noteq> (op_cancel op = CancelScript) then Err WrongCancelRule
      else Ok ())"

definition check_operation :: "('f number \<Rightarrow> string) \<Rightarrow> 'f operation \<Rightarrow> (fault, unit) result" where
  "check_operation number_text op =
     and_then (check_texts op) (\<lambda>_.
     and_then (check_script op) (\<lambda>_.
     and_then (check_flags op) (\<lambda>_.
     and_then (check_params number_text op (op_kind op = ScriptOperation)) (\<lambda>_.
     and_then (check_locks op) (\<lambda>_.
       check_target op)))))"

subsection \<open>The registry\<close>

record 'f registry =
  rg_operations :: "'f operation list"

record 'f script_file =
  sf_schema_version :: u32
  sf_operations :: "'f operation list"

datatype load_fault =
    FileUnreadable string
  | UnsupportedSchema u32
  | DuplicateOperation string
  | OperationFault string fault

definition registry_add ::
  "('f number \<Rightarrow> string) \<Rightarrow> 'f operation \<Rightarrow> string list \<Rightarrow> (load_fault, string list) result" where
  "registry_add number_text op ids =
     (if op_id op \<in> set ids then Err (DuplicateOperation (op_id op))
      else and_then (map_err (OperationFault (op_id op)) (check_operation number_text op)) (\<lambda>_.
             Ok (op_id op # ids)))"

definition registry_new ::
  "('f number \<Rightarrow> string) \<Rightarrow> 'f operation list \<Rightarrow> (load_fault, 'f registry) result" where
  "registry_new number_text operations =
     and_then (try_fold (registry_add number_text) operations []) (\<lambda>_. Ok \<lparr> rg_operations = operations \<rparr>)"

definition registry_from_parts ::
  "('f number \<Rightarrow> string) \<Rightarrow> (string, 'f script_file) result \<Rightarrow> 'f operation list
   \<Rightarrow> (load_fault, 'f registry) result" where
  "registry_from_parts number_text parsed native =
     and_then (map_err FileUnreadable parsed) (\<lambda>sf.
       if sf_schema_version sf \<noteq> 1 then Err (UnsupportedSchema (sf_schema_version sf))
       else registry_new number_text (sf_operations sf @ native))"

definition registry_get :: "'f registry \<Rightarrow> string \<Rightarrow> 'f operation option" where
  "registry_get r ident = find (\<lambda>op. op_id op = ident) (rg_operations r)"

definition list_for :: "'f registry \<Rightarrow> role \<Rightarrow> ('f operation \<times> bool) list" where
  "list_for r role = map (\<lambda>op. (op, role \<ge> op_min_role op)) (rg_operations r)"

end
