(* ===== verification/Jobs_Cluster.thy ===== *)
theory Jobs_Cluster
  imports Core_Ids Backup_Json Rust_BTree
begin

section \<open>What jobs know of the cluster\<close>

text \<open>
  Models \<^verbatim>\<open>Membership\<close>, \<^verbatim>\<open>holds_duty\<close> and \<^verbatim>\<open>parse_members\<close> of
  src/v3/crates/bmacd/src/cluster.rs. The parsed text is an argument, and how an address is read is
  the parameter \<open>parse_ip\<close>.
\<close>

record 'ip membership =
  mb_quorate :: bool
  mb_online :: "(host_slot, unit) btree"
  mb_members :: "(host_slot, 'ip option) btree"

definition duty :: "'ip membership \<Rightarrow> host_slot option" where
  "duty m = option_filter (\<lambda>_. mb_quorate m) (case bt_keys (mb_online m) of [] \<Rightarrow> None | h # _ \<Rightarrow> Some h)"

definition holds_duty :: "(string, 'ip membership) result \<Rightarrow> host_slot \<Rightarrow> (string, unit) result" where
  "holds_duty membership host =
     and_then membership (\<lambda>m.
       case duty m of
         Some d \<Rightarrow> if d = host then Ok ()
                   else Err (host_slot_display d @ '' is the duty host, not '' @ host_slot_display host)
       | None \<Rightarrow> Err ''the cluster has no quorum, so no host has cluster duties'')"

fun json_str :: "'f json option \<Rightarrow> string option" where
  "json_str (Some (JString s)) = Some s"
| "json_str _ = None"

fun json_u64 :: "'f json option \<Rightarrow> int option" where
  "json_u64 (Some (JNumber (Integer n))) = (if 0 \<le> n \<and> n < 2 ^ 64 then Some n else None)"
| "json_u64 _ = None"

fun json_object :: "'f json option \<Rightarrow> (string \<times> 'f json) list" where
  "json_object (Some (JObject fs)) = fs"
| "json_object _ = []"

definition parse_slot :: "string \<Rightarrow> host_slot option" where
  "parse_slot name = (case host_slot_from_str name of Ok h \<Rightarrow> Some h | Err _ \<Rightarrow> None)"

definition parse_node ::
  "(string \<Rightarrow> 'ip option) \<Rightarrow> string \<times> 'f json \<Rightarrow> 'ip membership \<Rightarrow> 'ip membership" where
  \<comment> \<open>one turn of the loop over \<open>nodelist\<close>\<close>
  "parse_node parse_ip = (\<lambda>(name, node) m.
     case parse_slot name of
       None \<Rightarrow> m
     | Some slot \<Rightarrow>
         let m = m\<lparr>mb_members := bt_insert slot (Option.bind (json_str (json_get node ''ip'')) parse_ip) (mb_members m)\<rparr>
         in if json_u64 (json_get node ''online'') = Some 1
            then m\<lparr>mb_online := bt_insert slot () (mb_online m)\<rparr> else m)"

definition parse_members ::
  "(string \<Rightarrow> 'ip option) \<Rightarrow> (string, 'f json) result \<Rightarrow> (string, 'ip membership) result" where
  "parse_members parse_ip parsed =
     and_then (map_err (\<lambda>e. ''.members: '' @ e) parsed) (\<lambda>v.
       case json_get v ''cluster'' of
         None \<Rightarrow>
           (let online = (case Option.bind (json_str (json_get v ''nodename'')) parse_slot of
                            None \<Rightarrow> [] | Some h \<Rightarrow> [h])
            in Ok \<lparr> mb_quorate = True, mb_online = bt_collect (map (\<lambda>h. (h, ())) online),
                    mb_members = bt_collect (map (\<lambda>h. (h, None)) online) \<rparr>)
       | Some cluster \<Rightarrow>
           Ok (fold (parse_node parse_ip) (json_object (json_get v ''nodelist''))
             \<lparr> mb_quorate = (json_u64 (json_get cluster ''quorate'') = Some 1),
               mb_online = bt_empty, mb_members = bt_empty \<rparr>))"

subsection \<open>One duty host\<close>

lemma duty_Some_iff:
  assumes "bt_ok (mb_online m)"
  shows "duty m = Some h \<longleftrightarrow> mb_quorate m \<and> bt_get (mb_online m) h = Some ()
     \<and> (\<forall>j. bt_get (mb_online m) j = Some () \<longrightarrow> h \<le> j)"
proof (cases "mb_online m")
  case Nil
  then show ?thesis by (simp add: duty_def bt_keys_def bt_get_def)
next
  case (Cons e es)
  obtain d u where e: "e = (d, u)" by (cases e)
  have "\<forall>j\<in>set (map fst es). d < j" using assms Cons e by simp
  then have "d \<le> j" if "bt_get (mb_online m) j = Some ()" for j
    using that Cons e by (fastforce simp: bt_get_def intro: less_imp_le split: if_splits dest: map_of_SomeD)
  moreover have "bt_get (mb_online m) d = Some ()" using Cons e by (simp add: bt_get_def)
  ultimately show ?thesis
    using Cons e by (auto simp: duty_def bt_keys_def intro: order.antisym)
qed

lemma parse_node_online_ok: "bt_ok (mb_online m) \<Longrightarrow> bt_ok (mb_online (parse_node parse_ip e m))"
  by (auto simp: parse_node_def Let_def bt_ok_insert split: prod.splits option.splits)

lemma parse_nodes_online_ok:
  "bt_ok (mb_online m) \<Longrightarrow> bt_ok (mb_online (fold (parse_node parse_ip) es m))"
  by (induction es arbitrary: m) (auto simp: parse_node_online_ok)

lemma parse_members_online_ok: "parse_members parse_ip parsed = Ok m \<Longrightarrow> bt_ok (mb_online m)"
  by (auto simp: parse_members_def result_ops Let_def bt_ok_collect bt_ok_empty
      parse_nodes_online_ok split: option.splits)

lemma holds_duty_unique:
  \<comment> \<open>two hosts with the same view never both have the duty\<close>
  "holds_duty m a = Ok () \<Longrightarrow> holds_duty m b = Ok () \<Longrightarrow> a = b"
  by (auto simp: holds_duty_def result_ops split: option.splits if_splits)

end
