(* ===== verification/Jobs_Records.thy ===== *)
theory Jobs_Records
  imports Jobs_Operations Jobs_Cluster Api_Errors
begin

section \<open>Job records\<close>

text \<open>
  Models src/v3/crates/bmacd/src/jobs.rs with \<^verbatim>\<open>write_record\<close> of
  src/v3/crates/bmac-pmxcfs/src/record.rs: the records of all jobs in the cluster's shared
  directory, and every operation a host makes on them.

  The directory is a map from identifiers to records. What lies outside is the record \<open>env\<close>, a
  value for each run of an operation: the times, the order the directory is listed in (\<open>je_order\<close>
  ranks the identifiers), which reads, writes, removals, and lock calls fail, the random identifier
  and nonce, and what the cluster answers. A write may fail before or after the file is in place. An
  operation runs under the jobs lock, so it is one function of the directory. \<open>show_id\<close> is the
  text of an identifier.
\<close>

datatype job_state = Admitted | Running | Completed | Failed | Cancelled | Interrupted

definition is_terminal :: "job_state \<Rightarrow> bool" where
  "is_terminal s = (s \<in> {Completed, Failed, Cancelled})"

fun job_state_debug :: "job_state \<Rightarrow> string" where
  "job_state_debug Admitted = ''Admitted''"
| "job_state_debug Running = ''Running''"
| "job_state_debug Completed = ''Completed''"
| "job_state_debug Failed = ''Failed''"
| "job_state_debug Cancelled = ''Cancelled''"
| "job_state_debug Interrupted = ''Interrupted''"

fun role_debug :: "role \<Rightarrow> string" where
  "role_debug Viewer = ''Viewer''"
| "role_debug Operator = ''Operator''"
| "role_debug Admin = ''Admin''"

definition JOB_SCHEMA :: u64 where
  "JOB_SCHEMA = 1"

definition RECORD_TYPE :: string where
  "RECORD_TYPE = ''job''"

definition KEEP_FINISHED :: nat where
  "KEEP_FINISHED = 500"

definition LEASE_TTL_MS :: int where
  "LEASE_TTL_MS = 60000"

definition CLAIM_TIMEOUT_MS :: int where
  "CLAIM_TIMEOUT_MS = 5 * 60000"

definition MAX_IDEMPOTENCY_KEY :: nat where
  "MAX_IDEMPOTENCY_KEY = 128"

record job_lease =
  jl_nonce :: string
  jl_holder :: host_slot
  jl_acquired_at_ms :: int
  jl_expires_at_ms :: int

record cancel_order =
  co_forced :: bool
  co_by :: string
  co_requested_at_ms :: int

record job_record =
  jr_schema_version :: u64
  jr_record_type :: string
  jr_revision :: u64
  jr_id :: uuid
  jr_operation :: string
  jr_title :: string
  jr_parameters :: "(string, string) btree"
  jr_args :: "string list"
  jr_locks :: "string list"
  jr_dry_run :: bool
  jr_user :: string
  jr_role :: role
  jr_idempotency_key :: string
  jr_admitted_by :: host_slot
  jr_target :: host_slot
  jr_state :: job_state
  jr_message :: "string option"
  jr_created_at_ms :: int
  jr_updated_at_ms :: int
  jr_admitted_at_ms :: int
  jr_finished_at_ms :: "int option"
  jr_lease :: "job_lease option"
  jr_cancel :: "cancel_order option"
  jr_cancel_allowed :: bool
  jr_phase :: "string option"
  jr_pending_request :: "string option"
  jr_attempts :: u32
  jr_last_seq :: u64

definition holds_locks :: "job_record \<Rightarrow> bool" where
  "holds_locks r = (\<not> is_terminal (jr_state r))"

record job_summary =
  js_id :: uuid
  js_operation :: string
  js_title :: string
  js_state :: job_state
  js_host :: host_slot
  js_user :: string
  js_dry_run :: bool
  js_created_at_ms :: int
  js_updated_at_ms :: int
  js_pending_request :: "string option"
  js_message :: "string option"
  js_cancel_requested :: bool
  js_last_seq :: u64

definition job_summary_of :: "job_record \<Rightarrow> job_summary" where
  "job_summary_of r = \<lparr> js_id = jr_id r, js_operation = jr_operation r, js_title = jr_title r,
     js_state = jr_state r, js_host = jr_target r, js_user = jr_user r, js_dry_run = jr_dry_run r,
     js_created_at_ms = jr_created_at_ms r, js_updated_at_ms = jr_updated_at_ms r,
     js_pending_request = jr_pending_request r, js_message = jr_message r,
     js_cancel_requested = (jr_cancel r \<noteq> None \<and> \<not> is_terminal (jr_state r)),
     js_last_seq = jr_last_seq r \<rparr>"

definition record_finish :: "job_state \<Rightarrow> string \<Rightarrow> int \<Rightarrow> job_record \<Rightarrow> job_record" where
  "record_finish state message now r =
     r\<lparr>jr_state := state, jr_message := Some message, jr_finished_at_ms := Some now,
       jr_updated_at_ms := now, jr_pending_request := None\<rparr>"

record caller =
  ca_user :: string
  ca_role :: role

record admission =
  ad_job :: job_record
  ad_existing :: bool

record job_claim =
  cl_job :: job_record
  cl_nonce :: string

record job_progress =
  pp_phase :: "string option"
  pp_cancel_allowed :: bool
  pp_pending_request :: "string option"
  pp_last_seq :: u64

record jobs_config =
  jc_dir :: string
  jc_host :: host_slot
  jc_lease_ttl_ms :: int
  jc_claim_timeout_ms :: int
  jc_keep_finished :: nat

definition jobs_config_system :: "host_slot \<Rightarrow> jobs_config" where
  "jobs_config_system host = \<lparr> jc_dir = ''/etc/pve/priv/bmac/jobs'', jc_host = host,
     jc_lease_ttl_ms = LEASE_TTL_MS, jc_claim_timeout_ms = CLAIM_TIMEOUT_MS, jc_keep_finished = KEEP_FINISHED \<rparr>"

record 'f launch_job =
  lj_operation :: string
  lj_parameters :: "(string, 'f json) btree"
  lj_idempotency_key :: string
  lj_dry_run :: bool

subsection \<open>The directory\<close>

type_synonym job_store = "(uuid, job_record) btree"

datatype pmxcfs_error =
    LockTimeout
  | RevisionConflict string u64 u64
  | NewerSchema string u64 u64
  | PmxcfsOther string

datatype write_outcome = Written | NotWritten pmxcfs_error | WrittenThenFailed pmxcfs_error

fun pmxcfs_text :: "pmxcfs_error \<Rightarrow> string" where
  "pmxcfs_text LockTimeout = ''timed out waiting for allocator lock''"
| "pmxcfs_text (RevisionConflict path expected found) =
     ''revision conflict on '' @ path @ '': expected '' @ show_uint expected @ '', found '' @ show_uint found"
| "pmxcfs_text (NewerSchema context found supported) =
     context @ '' uses schema version '' @ show_uint found
     @ ''; this version of BMAC understands up to '' @ show_uint supported"
| "pmxcfs_text (PmxcfsOther message) = message"

definition storage :: "pmxcfs_error \<Rightarrow> api_error" where
  "storage e =
     (case e of
        LockTimeout \<Rightarrow> error_new Unavailable ''the job records are busy; try again''
      | other \<Rightarrow> error_new Internal (''job records: '' @ pmxcfs_text other))"

record 'ip env =
  je_now_before :: int
  je_now :: int
  je_acquire :: "pmxcfs_error option"
  je_release :: "pmxcfs_error option"
  je_list :: "string option"
  je_order :: "uuid \<Rightarrow> nat"
  je_read :: "uuid \<Rightarrow> pmxcfs_error option"
  je_write :: "uuid \<Rightarrow> write_outcome"
  je_remove :: "uuid \<Rightarrow> pmxcfs_error option"
  je_id :: uuid
  je_nonce :: "u8 list option"
  je_membership :: "(string, 'ip membership) result"
  je_guest_owner :: "guest_name \<Rightarrow> (string, host_slot option) result"
  je_placement :: "guest_name \<Rightarrow> (string, host_slot list) result"

definition job_path :: "(uuid \<Rightarrow> string) \<Rightarrow> jobs_config \<Rightarrow> uuid \<Rightarrow> string" where
  "job_path show_id cfg ident = jc_dir cfg @ ''/'' @ show_id ident @ ''.json''"

definition write_record ::
  "(uuid \<Rightarrow> string) \<Rightarrow> jobs_config \<Rightarrow> 'ip env \<Rightarrow> job_record \<Rightarrow> u64 option
   \<Rightarrow> (job_store, pmxcfs_error, u64) effect" where
  \<comment> \<open>the path is always inside the locked directory, and a record is always an object\<close>
  "write_record show_id cfg env r expected s =
     (let path = job_path show_id cfg (jr_id r);
          found = (case bt_get s (jr_id r) of
                     None \<Rightarrow> Ok 0
                   | Some current \<Rightarrow>
                       (case je_read env (jr_id r) of
                          Some e \<Rightarrow> Err e
                        | None \<Rightarrow>
                            if 1 \<le> jr_revision current then Ok (jr_revision current)
                            else Err (PmxcfsOther (''record revision must be positive: '' @ path))))
      in case found of
           Err e \<Rightarrow> (Err e, s)
         | Ok found \<Rightarrow>
             let wanted = unwrap_or 0 expected in
             if found \<noteq> wanted then (Err (RevisionConflict path wanted found), s)
             else
               let revision = wanted + 1; t = bt_insert (jr_id r) (r\<lparr>jr_revision := revision\<rparr>) s in
               case je_write env (jr_id r) of
                 Written \<Rightarrow> (Ok revision, t)
               | NotWritten e \<Rightarrow> (Err e, s)
               | WrittenThenFailed e \<Rightarrow> (Err e, t))"

record locked_records =
  lk_records :: "job_record list"
  lk_store :: job_store

type_synonym 'a locked_effect = "(locked_records, api_error, 'a) effect"

definition locked_find :: "(uuid \<Rightarrow> string) \<Rightarrow> uuid \<Rightarrow> job_record locked_effect" where
  "locked_find show_id ident l =
     (ok_or (error_new NotFound (''no job '' @ show_id ident)) (find (\<lambda>r. jr_id r = ident) (lk_records l)), l)"

fun replace_record :: "job_record \<Rightarrow> job_record list \<Rightarrow> job_record list" where
  \<comment> \<open>the first record with the identifier, or one more at the end\<close>
  "replace_record r [] = [r]"
| "replace_record r (x # xs) = (if jr_id x = jr_id r then r # xs else x # replace_record r xs)"

definition locked_save ::
  "(uuid \<Rightarrow> string) \<Rightarrow> jobs_config \<Rightarrow> 'ip env \<Rightarrow> job_record \<Rightarrow> job_record locked_effect" where
  \<comment> \<open>the result is the record with the revision it was stored under\<close>
  "locked_save show_id cfg env r l =
     (let expected = (if 0 < jr_revision r then Some (jr_revision r) else None) in
      case write_record show_id cfg env r expected (lk_store l) of
        (Err e, s) \<Rightarrow> (Err (storage e), l\<lparr>lk_store := s\<rparr>)
      | (Ok revision, s) \<Rightarrow>
          let r = r\<lparr>jr_revision := revision\<rparr>
          in (Ok r, l\<lparr>lk_records := replace_record r (lk_records l), lk_store := s\<rparr>))"

definition finished_at :: "job_record \<Rightarrow> int" where
  "finished_at r = unwrap_or (jr_updated_at_ms r) (jr_finished_at_ms r)"

definition excess_finished :: "jobs_config \<Rightarrow> job_record list \<Rightarrow> uuid list" where
  \<comment> \<open>the oldest finished records beyond the limit\<close>
  "excess_finished cfg records =
     (let finished = map (\<lambda>r. (finished_at r, jr_id r)) (filter (\<lambda>r. is_terminal (jr_state r)) records)
      in if length finished \<le> jc_keep_finished cfg then []
         else map snd (take (length finished - jc_keep_finished cfg) (sort finished)))"

fun remove_records :: "'ip env \<Rightarrow> uuid list \<Rightarrow> unit locked_effect" where
  "remove_records env [] l = (Ok (), l)"
| "remove_records env (ident # idents) l =
     (case je_remove env ident of
        Some e \<Rightarrow> (Err (storage e), l)
      | None \<Rightarrow>
          remove_records env idents
            (l\<lparr>lk_records := filter (\<lambda>r. jr_id r \<noteq> ident) (lk_records l),
               lk_store := bt_remove ident (lk_store l)\<rparr>))"

definition locked_prune :: "jobs_config \<Rightarrow> 'ip env \<Rightarrow> unit locked_effect" where
  "locked_prune cfg env l = remove_records env (excess_finished cfg (lk_records l)) l"

definition read_one ::
  "(uuid \<Rightarrow> string) \<Rightarrow> jobs_config \<Rightarrow> 'ip env \<Rightarrow> uuid \<times> job_record \<Rightarrow> (api_error, job_record) result" where
  "read_one show_id cfg env = (\<lambda>(ident, r).
     case je_read env ident of
       Some e \<Rightarrow> Err (storage e)
     | None \<Rightarrow>
         if JOB_SCHEMA < jr_schema_version r
         then Err (storage (NewerSchema ''job record'' (jr_schema_version r) JOB_SCHEMA))
         else if jr_record_type r \<noteq> RECORD_TYPE
         then Err (error_new Internal (job_path show_id cfg ident @ '' is not a job record''))
         else Ok r)"

definition read_entry ::
  "(uuid \<Rightarrow> string) \<Rightarrow> jobs_config \<Rightarrow> 'ip env \<Rightarrow> uuid \<times> job_record \<Rightarrow> job_record list
   \<Rightarrow> (api_error, job_record list) result" where
  "read_entry show_id cfg env e records =
     and_then (read_one show_id cfg env e) (\<lambda>r.
       if jr_id r \<noteq> fst e
       then Err (error_new Internal (show_id (fst e) @ ''.json holds job '' @ show_id (jr_id r)))
       else Ok (records @ [r]))"

definition read_all ::
  "(uuid \<Rightarrow> string) \<Rightarrow> jobs_config \<Rightarrow> 'ip env \<Rightarrow> job_store \<Rightarrow> (api_error, job_record list) result" where
  "read_all show_id cfg env s =
     (case je_list env of
        Some e \<Rightarrow> Err (error_new Internal (''cannot list '' @ jc_dir cfg @ '': '' @ e))
      | None \<Rightarrow> try_fold (read_entry show_id cfg env) (sort_key (\<lambda>e. je_order env (fst e)) s) [])"

definition locked ::
  "(uuid \<Rightarrow> string) \<Rightarrow> jobs_config \<Rightarrow> 'ip env \<Rightarrow> 'a locked_effect \<Rightarrow> (job_store, api_error, 'a) effect" where
  "locked show_id cfg env f s =
     (case je_acquire env of
        Some e \<Rightarrow> (Err (storage e), s)
      | None \<Rightarrow>
          (case read_all show_id cfg env s of
             Err e \<Rightarrow> (Err e, s)
           | Ok records \<Rightarrow>
               let (result, l) = f \<lparr> lk_records = records, lk_store = s \<rparr>;
                   released = (case je_release env of Some e \<Rightarrow> Err (storage e) | None \<Rightarrow> Ok ())
               in (and_then result (\<lambda>v. and_then released (\<lambda>_. Ok v)), lk_store l)))"

subsection \<open>The operations\<close>

definition valid_idempotency_key :: "string \<Rightarrow> bool" where
  "valid_idempotency_key key =
     (key \<noteq> [] \<and> length key \<le> MAX_IDEMPOTENCY_KEY
      \<and> list_all (\<lambda>b. is_ascii_alphanumeric b \<or> b \<in> set ''-_.:'') key)"

definition operation_of :: "'f registry \<Rightarrow> string \<Rightarrow> (api_error, 'f operation) result" where
  "operation_of reg ident = ok_or (error_new NotFound (''no operation '' @ ident)) (registry_get reg ident)"

definition quorate :: "'ip env \<Rightarrow> (api_error, 'ip membership) result" where
  "quorate env =
     and_then (map_err (error_new Unavailable) (je_membership env)) (\<lambda>m.
       if \<not> mb_quorate m
       then Err (error_new NoQuorum ''this host's part of the cluster has no quorum, so nothing can change'')
       else Ok m)"

definition jobs_list ::
  "(uuid \<Rightarrow> string) \<Rightarrow> jobs_config \<Rightarrow> 'ip env \<Rightarrow> job_store \<Rightarrow> (api_error, job_record list) result" where
  \<comment> \<open>a stable sort by the key in descending order\<close>
  "jobs_list show_id cfg env s =
     and_then (read_all show_id cfg env s) (\<lambda>records.
       Ok (rev (sort_key (\<lambda>r. (jr_created_at_ms r, jr_id r)) (rev records))))"

definition jobs_get ::
  "(uuid \<Rightarrow> string) \<Rightarrow> jobs_config \<Rightarrow> 'ip env \<Rightarrow> uuid \<Rightarrow> job_store \<Rightarrow> (api_error, job_record) result" where
  "jobs_get show_id cfg env ident s =
     (case bt_get s ident of
        None \<Rightarrow> Err (error_new NotFound (''no job '' @ show_id ident))
      | Some r \<Rightarrow> read_one show_id cfg env (ident, r))"

definition target_text :: "string \<Rightarrow> (string, string) btree \<Rightarrow> (api_error, string) result" where
  "target_text ident parameters =
     ok_or (error_new Invalid (ident @ '' is required'')) (bt_get parameters ident)"

definition target_guest :: "string \<Rightarrow> (string, string) btree \<Rightarrow> (api_error, guest_name) result" where
  "target_guest ident parameters =
     and_then (target_text ident parameters) (\<lambda>s.
       map_err (\<lambda>_. error_new Invalid (ident @ '' is not a guest'')) (guest_name_from_str s))"

definition target_online :: "'f operation \<Rightarrow> 'ip membership \<Rightarrow> host_slot \<Rightarrow> (api_error, host_slot) result" where
  "target_online op m host =
     (if bt_contains_key (mb_online m) host then Ok host
      else Err (error_new Unavailable (host_slot_display host @ '' is offline, and '' @ op_title op @ '' runs there'')))"

definition resolve_target ::
  "jobs_config \<Rightarrow> 'ip env \<Rightarrow> 'f operation \<Rightarrow> (string, string) btree \<Rightarrow> 'ip membership
   \<Rightarrow> (api_error, host_slot) result" where
  "resolve_target cfg env op parameters m =
     (let me = jc_host cfg in
      case op_target op of
        TargetAny \<Rightarrow> Ok me
      | TargetPlacement \<Rightarrow> Ok me
      | TargetDuty \<Rightarrow> ok_or (error_new Unavailable ''no host is online'') (duty m)
      | TargetHost ident \<Rightarrow>
          and_then (target_text ident parameters) (\<lambda>s.
          and_then (map_err (\<lambda>_. error_new Invalid (ident @ '' is not a host'')) (host_slot_from_str s))
            (target_online op m))
      | TargetAnyExcept ident \<Rightarrow>
          and_then (target_text ident parameters) (\<lambda>excluded.
            if host_slot_display me \<noteq> excluded then Ok me
            else ok_or (error_new Unavailable (''no host other than '' @ excluded @ '' is online''))
                   (find (\<lambda>h. host_slot_display h \<noteq> excluded) (bt_keys (mb_online m))))
      | TargetOwner ident \<Rightarrow>
          and_then (target_guest ident parameters) (\<lambda>name.
          and_then (map_err (error_new Unavailable) (je_guest_owner env name)) (\<lambda>owner.
            case owner of
              Some h \<Rightarrow> target_online op m h
            | None \<Rightarrow> Err (error_new NotFound (''no host has '' @ guest_name_display name))))
      | TargetStandby ident \<Rightarrow>
          and_then (target_guest ident parameters) (\<lambda>name.
          and_then (map_err (error_new Unavailable) (je_guest_owner env name)) (\<lambda>owner.
          and_then (map_err (error_new Unavailable) (je_placement env name)) (\<lambda>placement.
            if placement = [] then Err (error_new NotFound (''no host has '' @ guest_name_display name))
            else ok_or (error_new Unavailable (''none of '' @ guest_name_display name @ [CHR 0x27]
                          @ ''s standby hosts is online''))
                   (list_min (filter (\<lambda>h. Some h \<noteq> owner \<and> bt_contains_key (mb_online m) h) placement))))))"

fun conflict_of :: "job_record list \<Rightarrow> string list \<Rightarrow> (job_record \<times> string) option" where
  \<comment> \<open>the loops of \<open>check_conflicts\<close>: the first unfinished record with a lock that overlaps\<close>
  "conflict_of [] wanted = None"
| "conflict_of (r # records) wanted =
     (if holds_locks r
      then (case filter_map (\<lambda>held. find (\<lambda>w. locks_conflict w held) wanted) (jr_locks r) of
              [] \<Rightarrow> conflict_of records wanted
            | lock # _ \<Rightarrow> Some (r, lock))
      else conflict_of records wanted)"

definition check_conflicts ::
  "(uuid \<Rightarrow> string) \<Rightarrow> job_record list \<Rightarrow> string list \<Rightarrow> (api_error, unit) result" where
  "check_conflicts show_id records wanted =
     (case conflict_of records wanted of
        None \<Rightarrow> Ok ()
      | Some (r, lock) \<Rightarrow>
          let hint = (if jr_state r = Interrupted then '' until someone resumes it or marks it failed'' else [])
          in Err (error_new Conflict (lock @ '' is in use by '' @ [CHR 0x22] @ jr_title r @ [CHR 0x22] @ '' (''
               @ show_id (jr_id r) @ ''), started by '' @ jr_user r @ hint)))"

definition refused :: "string \<Rightarrow> role \<Rightarrow> 'f operation \<Rightarrow> api_error" where
  "refused what role op =
     error_new Forbidden (what @ op_title op @ '' needs the '' @ role_debug role @ '' role'')"

definition api_of_launch :: "launch_fault \<Rightarrow> api_error" where
  \<comment> \<open>\<open>From<InvalidLaunch>\<close>; a panic of \<open>prepare\<close> ends the request, and no checked operation has one\<close>
  "api_of_launch e =
     (case e of
        InvalidLaunch i \<Rightarrow> (error_new Invalid (il_message i))\<lparr>ae_field_errors := il_field_errors i\<rparr>
      | LaunchPanics \<Rightarrow> error_new Internal ''panicked'')"

definition new_record ::
  "jobs_config \<Rightarrow> 'ip env \<Rightarrow> caller \<Rightarrow> 'f launch_job \<Rightarrow> 'f operation \<Rightarrow> prepared \<Rightarrow> host_slot \<Rightarrow> job_record" where
  "new_record cfg env caller launch op p target = \<lparr> jr_schema_version = JOB_SCHEMA,
     jr_record_type = RECORD_TYPE, jr_revision = 0, jr_id = je_id env, jr_operation = lj_operation launch,
     jr_title = op_title op, jr_parameters = pr_summary p, jr_args = pr_args p, jr_locks = pr_locks p,
     jr_dry_run = pr_dry_run p, jr_user = ca_user caller, jr_role = ca_role caller,
     jr_idempotency_key = lj_idempotency_key launch, jr_admitted_by = jc_host cfg, jr_target = target,
     jr_state = Admitted, jr_message = None, jr_created_at_ms = je_now env, jr_updated_at_ms = je_now env,
     jr_admitted_at_ms = je_now env, jr_finished_at_ms = None, jr_lease = None, jr_cancel = None,
     jr_cancel_allowed = True, jr_phase = None, jr_pending_request = None, jr_attempts = 0,
     jr_last_seq = 0 \<rparr>"

definition admit_locked ::
  "(uuid \<Rightarrow> string) \<Rightarrow> jobs_config \<Rightarrow> 'ip env \<Rightarrow> caller \<Rightarrow> 'f launch_job \<Rightarrow> 'f operation \<Rightarrow> prepared
   \<Rightarrow> admission locked_effect" where
  "admit_locked show_id cfg env caller launch op p l =
     (case find (\<lambda>r. jr_user r = ca_user caller \<and> jr_idempotency_key r = lj_idempotency_key launch) (lk_records l) of
        Some existing \<Rightarrow>
          (if jr_operation existing = lj_operation launch \<and> jr_parameters existing = pr_summary p
              \<and> jr_dry_run existing = pr_dry_run p
           then (Ok \<lparr> ad_job = existing, ad_existing = True \<rparr>, l)
           else (Err (error_new Conflict ''this idempotency key was already used for a different launch''), l))
      | None \<Rightarrow>
          and_next (returns (and_then (quorate env) (resolve_target cfg env op (pr_summary p)))) (\<lambda>target.
          and_next (returns (check_conflicts show_id (lk_records l) (pr_locks p))) (\<lambda>_.
          and_next (locked_save show_id cfg env (new_record cfg env caller launch op p target)) (\<lambda>r.
          and_next (locked_prune cfg env) (\<lambda>_.
            returns (Ok \<lparr> ad_job = r, ad_existing = False \<rparr>))))) l)"

definition jobs_admit ::
  "(uuid \<Rightarrow> string) \<Rightarrow> ('f number \<Rightarrow> string) \<Rightarrow> jobs_config \<Rightarrow> 'f registry \<Rightarrow> 'ip env \<Rightarrow> caller
   \<Rightarrow> 'f launch_job \<Rightarrow> (job_store, api_error, admission) effect" where
  "jobs_admit show_id number_text cfg reg env caller launch =
     (if \<not> valid_idempotency_key (lj_idempotency_key launch)
      then returns (Err (error_new Invalid ''the idempotency key must be 1 to 128 letters, digits, or - _ . :''))
      else
        and_next (returns (operation_of reg (lj_operation launch))) (\<lambda>op.
          if ca_role caller < op_min_role op then returns (Err (refused [] (op_min_role op) op))
          else
            and_next (returns (map_err api_of_launch (prepare number_text op (lj_parameters launch) (lj_dry_run launch)))) (\<lambda>p.
              locked show_id cfg env (admit_locked show_id cfg env caller launch op p))))"

fun nonce_text :: "u8 list \<Rightarrow> string" where
  "nonce_text bs = concat (map (\<lambda>b. hex_fixed 2 (unat b)) bs)"

definition job_claimed :: "jobs_config \<Rightarrow> int \<Rightarrow> string \<Rightarrow> job_record \<Rightarrow> job_record" where
  "job_claimed cfg now nonce r =
     r\<lparr>jr_state := Running,
       jr_lease := Some \<lparr> jl_nonce = nonce, jl_holder = jc_host cfg, jl_acquired_at_ms = now,
                         jl_expires_at_ms = now + jc_lease_ttl_ms cfg \<rparr>,
       jr_attempts := jr_attempts r + 1, jr_cancel_allowed := True, jr_phase := None,
       jr_pending_request := None, jr_message := None, jr_updated_at_ms := now\<rparr>"

definition jobs_claim ::
  "(uuid \<Rightarrow> string) \<Rightarrow> jobs_config \<Rightarrow> 'ip env \<Rightarrow> uuid \<Rightarrow> (job_store, api_error, job_claim) effect" where
  "jobs_claim show_id cfg env ident =
     (case je_nonce env of
        None \<Rightarrow> returns (Err (error_new Internal ''no randomness''))
      | Some bytes \<Rightarrow>
          let nonce = nonce_text bytes in
          locked show_id cfg env
            (and_next (locked_find show_id ident) (\<lambda>r.
               if jr_state r \<noteq> Admitted
               then returns (Err (error_new Conflict (''job '' @ show_id ident @ '' is ''
                      @ job_state_debug (jr_state r) @ '', not waiting to start'')))
               else if jr_target r \<noteq> jc_host cfg
               then returns (Err (error_new Conflict (''job '' @ show_id ident @ '' runs on ''
                      @ host_slot_display (jr_target r))))
               else
                 and_next (locked_save show_id cfg env (job_claimed cfg (je_now env) nonce r)) (\<lambda>r.
                   returns (Ok \<lparr> cl_job = r, cl_nonce = nonce \<rparr>)))))"

definition check_holder ::
  "(uuid \<Rightarrow> string) \<Rightarrow> jobs_config \<Rightarrow> job_record \<Rightarrow> string \<Rightarrow> (api_error, unit) result" where
  "check_holder show_id cfg r nonce =
     (if is_some_and (\<lambda>l. jl_nonce l = nonce \<and> jl_holder l = jc_host cfg) (jr_lease r) then Ok ()
      else Err (error_new Conflict (''this host no longer holds job '' @ show_id (jr_id r))))"

definition renewed :: "jobs_config \<Rightarrow> int \<Rightarrow> job_progress \<Rightarrow> job_record \<Rightarrow> job_record" where
  "renewed cfg now p r =
     r\<lparr>jr_lease := map_option (\<lambda>l. l\<lparr>jl_expires_at_ms := now + jc_lease_ttl_ms cfg\<rparr>) (jr_lease r),
       jr_phase := pp_phase p, jr_cancel_allowed := pp_cancel_allowed p,
       jr_pending_request := pp_pending_request p, jr_last_seq := max (jr_last_seq r) (pp_last_seq p),
       jr_updated_at_ms := now\<rparr>"

definition jobs_renew ::
  "(uuid \<Rightarrow> string) \<Rightarrow> jobs_config \<Rightarrow> 'ip env \<Rightarrow> uuid \<Rightarrow> string \<Rightarrow> job_progress
   \<Rightarrow> (job_store, api_error, job_record) effect" where
  "jobs_renew show_id cfg env ident nonce p =
     locked show_id cfg env
       (and_next (locked_find show_id ident) (\<lambda>r.
        and_next (returns (check_holder show_id cfg r nonce)) (\<lambda>_.
          if jr_state r \<noteq> Running \<or> is_some_and (\<lambda>l. jl_expires_at_ms l \<le> je_now env) (jr_lease r)
          then returns (Err (error_new Conflict (''the lease on job '' @ show_id ident @ '' has expired'')))
          else locked_save show_id cfg env (renewed cfg (je_now env) p r))))"

definition jobs_finish ::
  "(uuid \<Rightarrow> string) \<Rightarrow> jobs_config \<Rightarrow> 'ip env \<Rightarrow> uuid \<Rightarrow> string \<Rightarrow> job_state \<Rightarrow> string \<Rightarrow> u64
   \<Rightarrow> (job_store, api_error, job_record) effect" where
  "jobs_finish show_id cfg env ident nonce state message last_seq =
     (if \<not> is_terminal state
      then returns (Err (error_new Invalid ''a job finishes completed, failed, or cancelled''))
      else
        locked show_id cfg env
          (and_next (locked_find show_id ident) (\<lambda>r.
           and_next (returns (check_holder show_id cfg r nonce)) (\<lambda>_.
             if jr_state r \<notin> {Running, Interrupted}
             then returns (Err (error_new Conflict (''job '' @ show_id ident @ '' is already '' @ job_state_debug (jr_state r))))
             else
               and_next (locked_save show_id cfg env
                   ((record_finish state message (je_now env) r)\<lparr>jr_last_seq := max (jr_last_seq r) last_seq\<rparr>)) (\<lambda>r.
               and_next (locked_prune cfg env) (\<lambda>_.
                 returns (Ok r)))))))"

definition cancelled ::
  "(uuid \<Rightarrow> string) \<Rightarrow> int \<Rightarrow> string \<Rightarrow> bool \<Rightarrow> job_record \<Rightarrow> (api_error, job_record) result" where
  \<comment> \<open>the match on the record's state\<close>
  "cancelled show_id now user force r =
     (case jr_state r of
        Admitted \<Rightarrow>
          Ok ((record_finish Cancelled (''cancelled by '' @ user @ '' before it started'') now r)
                \<lparr>jr_cancel := Some \<lparr> co_forced = force, co_by = user, co_requested_at_ms = now \<rparr>\<rparr>)
      | Running \<Rightarrow>
          if \<not> force \<and> \<not> jr_cancel_allowed r \<and> jr_pending_request r = None
          then Err (error_new Conflict (''the job marked '' @ [CHR 0x22] @ unwrap_or ''this phase'' (jr_phase r)
                 @ [CHR 0x22] @ '' as unsafe to interrupt; wait for it to finish''))
          else
            Ok (r\<lparr>jr_cancel := Some \<lparr> co_forced = force \<or> is_some_and co_forced (jr_cancel r), co_by = user,
                   co_requested_at_ms = (case jr_cancel r of None \<Rightarrow> now | Some c \<Rightarrow> co_requested_at_ms c) \<rparr>,
                 jr_updated_at_ms := now\<rparr>)
      | Interrupted \<Rightarrow>
          Err (error_new Conflict ''the job was interrupted; check the live state, then resume it or mark it failed'')
      | _ \<Rightarrow> Err (error_new Conflict (''job '' @ show_id (jr_id r) @ '' has already finished'')))"

definition jobs_cancel ::
  "(uuid \<Rightarrow> string) \<Rightarrow> jobs_config \<Rightarrow> 'f registry \<Rightarrow> 'ip env \<Rightarrow> caller \<Rightarrow> uuid \<Rightarrow> bool
   \<Rightarrow> (job_store, api_error, job_record) effect" where
  "jobs_cancel show_id cfg reg env caller ident force =
     locked show_id cfg env
       (and_next (locked_find show_id ident) (\<lambda>r.
        and_next (returns (operation_of reg (jr_operation r))) (\<lambda>op.
          if ca_role caller < op_min_role op then returns (Err (refused ''cancelling '' (op_min_role op) op))
          else if force \<and> ca_role caller < Admin
          then returns (Err (error_new Forbidden ''a forced cancel needs the Admin role''))
          else
            and_next (returns (cancelled show_id (je_now env) (ca_user caller) force r)) (\<lambda>r.
            and_next (locked_save show_id cfg env r) (\<lambda>r.
            and_next (locked_prune cfg env) (\<lambda>_.
              returns (Ok r)))))))"

definition interrupted ::
  "(uuid \<Rightarrow> string) \<Rightarrow> 'f registry \<Rightarrow> caller \<Rightarrow> uuid \<Rightarrow> job_record locked_effect" where
  "interrupted show_id reg caller ident =
     and_next (locked_find show_id ident) (\<lambda>r.
     and_next (returns (operation_of reg (jr_operation r))) (\<lambda>op.
       if ca_role caller < op_min_role op then returns (Err (refused [] (op_min_role op) op))
       else if jr_state r \<noteq> Interrupted
       then returns (Err (error_new Conflict (''job '' @ show_id ident @ '' is '' @ job_state_debug (jr_state r)
              @ '', not interrupted'')))
       else returns (Ok r)))"

definition resumed :: "int \<Rightarrow> string \<Rightarrow> host_slot \<Rightarrow> job_record \<Rightarrow> job_record" where
  "resumed now message target r =
     r\<lparr>jr_target := target, jr_state := Admitted, jr_message := Some message, jr_admitted_at_ms := now,
       jr_updated_at_ms := now\<rparr>"

definition jobs_resume ::
  "(uuid \<Rightarrow> string) \<Rightarrow> jobs_config \<Rightarrow> 'f registry \<Rightarrow> 'ip env \<Rightarrow> caller \<Rightarrow> uuid
   \<Rightarrow> (job_store, api_error, job_record) effect" where
  "jobs_resume show_id cfg reg env caller ident =
     locked show_id cfg env
       (and_next (interrupted show_id reg caller ident) (\<lambda>r.
        and_next (returns (operation_of reg (jr_operation r))) (\<lambda>op.
          if op_resume op \<noteq> ResumeCheckpoint
          then returns (Err (error_new Invalid (op_title op
                 @ '' can't continue after an interruption; check the live state, then mark it failed'')))
          else
            and_next (returns (and_then (quorate env) (resolve_target cfg env op (jr_parameters r)))) (\<lambda>target.
              locked_save show_id cfg env
                (resumed (je_now env) (''resumed by '' @ ca_user caller) target r)))))"

definition held_by :: "host_slot \<Rightarrow> job_record \<Rightarrow> bool" where
  "held_by host r = is_some_and (\<lambda>l. jl_holder l = host) (jr_lease r)"

definition own_running :: "host_slot \<Rightarrow> job_record \<Rightarrow> bool" where
  "own_running host r = (jr_state r = Running \<and> held_by host r)"

fun save_each ::
  "(uuid \<Rightarrow> string) \<Rightarrow> jobs_config \<Rightarrow> 'ip env \<Rightarrow> (job_record \<Rightarrow> job_record) \<Rightarrow> job_record list
   \<Rightarrow> job_record list locked_effect" where
  \<comment> \<open>the loops of \<open>interrupt_own\<close> and \<open>sweep\<close>, with the changed records\<close>
  "save_each show_id cfg env f [] = returns (Ok [])"
| "save_each show_id cfg env f (r # rs) =
     and_next (locked_save show_id cfg env (f r)) (\<lambda>r.
     and_next (save_each show_id cfg env f rs) (\<lambda>changed.
       returns (Ok (r # changed))))"

definition restarted :: "host_slot \<Rightarrow> int \<Rightarrow> job_record \<Rightarrow> job_record" where
  "restarted host now r =
     r\<lparr>jr_state := Interrupted,
       jr_message := Some (host_slot_display host
          @ '' restarted while it ran; inspect the live state before resuming or marking it failed''),
       jr_updated_at_ms := now\<rparr>"

definition interrupt_own ::
  "(uuid \<Rightarrow> string) \<Rightarrow> jobs_config \<Rightarrow> 'ip env \<Rightarrow> job_store
   \<Rightarrow> (job_store, api_error, job_record list) effect" where
  \<comment> \<open>the first argument after the environment is the directory as the read before the lock saw it\<close>
  "interrupt_own show_id cfg env before =
     (let host = jc_host cfg in
      and_next (returns (read_all show_id cfg env before)) (\<lambda>records.
        if \<not> list_ex (own_running host) records then returns (Ok [])
        else
          locked show_id cfg env (\<lambda>l.
            save_each show_id cfg env (restarted host (je_now env)) (filter (own_running host) (lk_records l)) l)))"

definition resume_after_restart ::
  "(uuid \<Rightarrow> string) \<Rightarrow> jobs_config \<Rightarrow> 'f registry \<Rightarrow> 'ip env \<Rightarrow> uuid
   \<Rightarrow> (job_store, api_error, job_record) effect" where
  "resume_after_restart show_id cfg reg env ident =
     (let host = jc_host cfg in
      locked show_id cfg env
        (and_next (locked_find show_id ident) (\<lambda>r.
         and_next (returns (operation_of reg (jr_operation r))) (\<lambda>op.
           if jr_state r \<noteq> Interrupted \<or> \<not> held_by host r \<or> op_resume op \<noteq> ResumeCheckpoint
           then returns (Err (error_new Conflict (''job '' @ show_id ident
                  @ '' isn't an interrupted checkpoint job of '' @ host_slot_display host)))
           else
             and_next (returns (quorate env)) (\<lambda>_.
               locked_save show_id cfg env
                 (resumed (je_now env) (''resumed after '' @ host_slot_display host @ '' restarted'') host r))))))"

definition reconcile ::
  "(uuid \<Rightarrow> string) \<Rightarrow> jobs_config \<Rightarrow> 'f registry \<Rightarrow> 'ip env \<Rightarrow> caller \<Rightarrow> uuid
   \<Rightarrow> (job_store, api_error, job_record) effect" where
  "reconcile show_id cfg reg env caller ident =
     locked show_id cfg env
       (and_next (interrupted show_id reg caller ident) (\<lambda>r.
        and_next (locked_save show_id cfg env
            (record_finish Failed (''marked failed by '' @ ca_user caller @ '' after checking the live state'')
               (je_now env) r)) (\<lambda>r.
        and_next (locked_prune cfg env) (\<lambda>_.
          returns (Ok r)))))"

definition is_stale :: "jobs_config \<Rightarrow> int \<Rightarrow> job_record \<Rightarrow> bool" where
  "is_stale cfg now r =
     (case jr_state r of
        Running \<Rightarrow> is_some_and (\<lambda>l. jl_expires_at_ms l \<le> now) (jr_lease r)
      | Admitted \<Rightarrow> jr_admitted_at_ms r + jc_claim_timeout_ms cfg \<le> now
      | _ \<Rightarrow> False)"

definition swept :: "int \<Rightarrow> job_record \<Rightarrow> job_record" where
  "swept now r =
     (if jr_state r = Running then
        r\<lparr>jr_state := Interrupted,
          jr_message := Some ((case jr_lease r of None \<Rightarrow> ''its host'' | Some l \<Rightarrow> host_slot_display (jl_holder l))
            @ '' stopped renewing its lease; inspect the live state before resuming or marking it failed''),
          jr_updated_at_ms := now\<rparr>
      else record_finish Failed (host_slot_display (jr_target r) @ '' never started it'') now r)"

definition sweep ::
  "(uuid \<Rightarrow> string) \<Rightarrow> jobs_config \<Rightarrow> 'ip env \<Rightarrow> job_store
   \<Rightarrow> (job_store, api_error, job_record list) effect" where
  \<comment> \<open>staleness is judged at the time read first, also under the lock\<close>
  "sweep show_id cfg env before =
     (let stale = is_stale cfg (je_now_before env) in
      and_next (returns (read_all show_id cfg env before)) (\<lambda>records.
        if \<not> list_ex stale records then returns (Ok [])
        else
          locked show_id cfg env (\<lambda>l.
            and_next (save_each show_id cfg env (swept (je_now env)) (filter stale (lk_records l))) (\<lambda>changed.
            and_next (locked_prune cfg env) (\<lambda>_.
              returns (Ok changed))) l)))"

end
