(* ===== verification/Jobs_Launch.thy ===== *)
theory Jobs_Launch
  imports Jobs_Operations
begin

section \<open>What a prepared launch guarantees\<close>

text \<open>
  The properties of \<open>Jobs_Operations\<close>: when two locks conflict, which launches are accepted, and
  what the arguments and locks of an accepted launch of a checked operation look like.
\<close>

subsection \<open>Locks form a tree\<close>

lemma split_on_prefix_iff:
  "prefix (split_on c a) (split_on c b) \<longleftrightarrow> b = a \<or> (\<exists>t. b = a @ c # t)"
proof
  assume "prefix (split_on c a) (split_on c b)"
  then obtain zs where zs: "split_on c b = split_on c a @ zs" by (auto simp: prefix_def)
  show "b = a \<or> (\<exists>t. b = a @ c # t)"
  proof (cases zs)
    case Nil
    then have "join_with [c] (split_on c b) = join_with [c] (split_on c a)" using zs by simp
    then show ?thesis unfolding join_split by simp
  next
    case (Cons z zs')
    have "join_with [c] (ws @ z # zs') = join_with [c] ws @ c # join_with [c] (z # zs')"
      if "ws \<noteq> []" for ws
      using that by (induction ws rule: induct_list012) (auto simp: join_with_Cons)
    from this [of "split_on c a"]
    have "join_with [c] (split_on c b) = join_with [c] (split_on c a) @ c # join_with [c] (z # zs')"
      using zs Cons by simp
    then show ?thesis unfolding join_split by blast
  qed
next
  assume "b = a \<or> (\<exists>t. b = a @ c # t)"
  then show "prefix (split_on c a) (split_on c b)" by (auto simp: split_on_append_sep)
qed

lemma strip_prefix_colon:
  "is_some_and (starts_with '':'') (strip_prefix p s) \<longleftrightarrow> (\<exists>t. s = p @ CHR '':'' # t)"
  by (auto simp: is_some_and_def strip_prefix_Some_iff starts_with_iff split: option.splits)

text \<open>
  C32: two locks conflict exactly when the path of one, its name split at the colons, is a prefix of
  the path of the other: a lock covers the resource it names and everything below it, and
  \<^verbatim>\<open>production:prod1\<close> does not cover \<^verbatim>\<open>production:prod10\<close>.
\<close>

theorem locks_conflict_iff:
  "locks_conflict a b
   \<longleftrightarrow> prefix (split_on (CHR '':'') a) (split_on (CHR '':'') b)
     \<or> prefix (split_on (CHR '':'') b) (split_on (CHR '':'') a)"
  unfolding split_on_prefix_iff locks_conflict_def strip_prefix_colon by auto

lemma locks_conflict_refl [simp]: "locks_conflict a a"
  by (simp add: locks_conflict_def)

lemma locks_conflict_sym: "locks_conflict a b \<longleftrightarrow> locks_conflict b a"
  unfolding locks_conflict_def strip_prefix_colon by auto

subsection \<open>Which launches are accepted\<close>

lemma canonical_value_reachable:
  "pm_kind p \<notin> {TypeFlag, TypeFlagChoice} \<Longrightarrow> canonical_value p s \<noteq> Err Unreachable"
  by (cases "pm_kind p")
    (simp_all add: canonical_value_def Let_def ok_or_def split: option.split sum.split)

lemma param_arguments_reachable: "param_arguments nt p v \<noteq> Err Unreachable"
  using canonical_value_reachable [of p]
  by (cases "pm_kind p")
    (auto simp: param_arguments_def and_then_Err_iff Let_def ok_or_def split: option.splits)

lemma bt_insert_not_Nil [simp]: "bt_insert k v m \<noteq> []"
  by (cases "(k, v, m)" rule: bt_insert.cases) auto

definition given :: "(string, 'f json) btree \<Rightarrow> 'f param \<Rightarrow> 'f json option" where
  \<comment> \<open>the value of a parameter that is there and not blank\<close>
  "given values p = option_filter (\<lambda>v. \<not> is_blank v) (bt_get values (pm_id p))"

definition param_accepts :: "('f number \<Rightarrow> string) \<Rightarrow> (string, 'f json) btree \<Rightarrow> 'f param \<Rightarrow> bool" where
  "param_accepts nt values p =
     (case given values p of
        None \<Rightarrow> \<not> pm_required p
      | Some v \<Rightarrow>
          (case param_arguments nt p v of
             Err _ \<Rightarrow> False
           | Ok (shown, _) \<Rightarrow> \<not> (is_positional p \<and> is_some_and (starts_with ''-'') shown)))"

lemmas prepare_param_cases =
  prepare_param_def given_def [symmetric] param_accepts_def Let_def

lemma prepare_param_errors:
  "\<exists>t. prepare_param nt values p s = Ok t
     \<and> (pg_errors t = [] \<longleftrightarrow> pg_errors s = [] \<and> param_accepts nt values p)"
  using param_arguments_reachable [of nt p]
  by (auto simp: prepare_param_cases is_some_and_def split: option.split sum.split refusal.split)

lemma prepare_params_errors:
  "\<exists>t. try_fold (prepare_param nt values) ps s = Ok t
     \<and> (pg_errors t = [] \<longleftrightarrow> pg_errors s = [] \<and> (\<forall>p\<in>set ps. param_accepts nt values p))"
proof (induction ps arbitrary: s)
  case (Cons p ps)
  obtain u where "prepare_param nt values p s = Ok u"
      "pg_errors u = [] \<longleftrightarrow> pg_errors s = [] \<and> param_accepts nt values p"
    using prepare_param_errors by blast
  with Cons [of u] show ?case by auto
qed simp

lemma unknown_parameters_Nil:
  "unknown_parameters op values = [] \<longleftrightarrow> (\<forall>k\<in>set (bt_keys values). find_param op k \<noteq> None)"
proof -
  have "fold (\<lambda>key errors. if find_param op key = None then bt_insert key w errors else errors) ks e = []
      \<longleftrightarrow> e = [] \<and> (\<forall>k\<in>set ks. find_param op k \<noteq> None)" for ks w and e :: "(string, string) btree"
    by (induction ks arbitrary: e) auto
  then show ?thesis by (simp add: unknown_parameters_def bt_empty_def)
qed

lemma those_map_list_all2: "those (map f xs) = Some ys \<longleftrightarrow> list_all2 (\<lambda>x y. f x = Some y) xs ys"
proof (induction xs arbitrary: ys)
  case (Cons x xs)
  then show ?case by (cases ys) (auto split: option.splits)
qed auto

lemma list_all2_from: "list_all2 P xs ys \<Longrightarrow> y \<in> set ys \<Longrightarrow> \<exists>x\<in>set xs. P x y"
  by (induction rule: list_all2_induct) auto

lemma those_map_None_iff: "those (map f xs) = None \<longleftrightarrow> (\<exists>x\<in>set xs. f x = None)"
  by (induction xs) (auto split: option.splits)

lemma check_lock_Ok_iff:
  "check_lock op template seen = Ok seen'
   \<longleftrightarrow> (\<exists>cls parts. lock_parts template = Some (LockLiteral cls # parts) \<and> cls \<in> set LOCK_CLASSES
        \<and> (\<forall>part\<in>set parts. check_lock_part op template part = Ok ())
        \<and> template \<notin> set seen \<and> seen' = template # seen)"
  by (auto simp: check_lock_def and_then_Ok_iff try_for_each_Ok_iff check_lock_part_def
      split: option.splits list.splits lock_part.splits if_splits)

lemma checked_locks:
  assumes "check_operation nt op = Ok ()" and "template \<in> set (op_locks op)"
  obtains cls parts where "lock_parts template = Some (LockLiteral cls # parts)"
    "cls \<in> set LOCK_CLASSES" "\<forall>part\<in>set parts. check_lock_part op template part = Ok ()"
proof -
  obtain t where "try_fold (check_lock op) (op_locks op) [] = Ok t"
    using assms(1) by (auto simp: check_operation_def check_locks_def result_ops)
  then have "\<forall>x\<in>set (op_locks op). \<exists>s u. check_lock op x s = Ok u"
    by (rule try_fold_all) blast
  with assms(2) show ?thesis using that by (auto simp: check_lock_Ok_iff)
qed

lemma checked_locks_resolve:
  "check_operation nt op = Ok () \<Longrightarrow> those (map (\<lambda>t. resolve_lock t s) (op_locks op)) \<noteq> None"
  by (auto simp: those_map_None_iff resolve_lock_def elim: checked_locks)

text \<open>
  C30: a launch of a checked operation is accepted exactly when every parameter supplied is one the
  operation declares, every required parameter has a value that is not blank, every value is one
  its parameter's type accepts and, where it is positional, does not start with a dash, and a dry
  run is asked only of an operation that has one; otherwise it is refused with a message, and never
  panics.
\<close>

theorem prepare_accepts_iff:
  assumes "check_operation nt op = Ok ()"
  shows "(is_ok (prepare nt op values dry_run)
      \<longleftrightarrow> (\<forall>k\<in>set (bt_keys values). find_param op k \<noteq> None)
        \<and> (\<forall>p\<in>set (op_params op). param_accepts nt values p)
        \<and> (dry_run \<longrightarrow> op_supports_dry_run op))
    \<and> prepare nt op values dry_run \<noteq> Err LaunchPanics"
proof -
  let ?s = "\<lparr> pg_errors = unknown_parameters op values, pg_options = [], pg_positional = [],
              pg_summary = bt_empty \<rparr>"
  obtain t where t: "try_fold (prepare_param nt values) (op_params op) ?s = Ok t"
      "pg_errors t = [] \<longleftrightarrow> unknown_parameters op values = []
         \<and> (\<forall>p\<in>set (op_params op). param_accepts nt values p)"
    using prepare_params_errors [of nt "values" "op_params op" ?s] by auto
  obtain locks where "those (map (\<lambda>u. resolve_lock u (pg_summary t)) (op_locks op)) = Some locks"
    using checked_locks_resolve [OF assms] by blast
  with t show ?thesis by (simp add: prepare_def Let_def unknown_parameters_Nil)
qed

subsection \<open>Arguments\<close>

definition flag_ok :: "string \<Rightarrow> bool" where
  "flag_ok flag = (starts_with ''--'' flag \<and> flag \<notin> set RESERVED_FLAGS)"

lemma add_flag_Ok:
  "add_flag script flag flags = Ok flags' \<Longrightarrow> flag = Some f \<Longrightarrow> script \<and> flag_ok f"
  by (auto simp: add_flag_def Let_def flag_ok_def starts_with_iff strip_prefix_def
      split: if_splits)

lemma check_choice_Ok:
  "check_choice script p c s = Ok t \<Longrightarrow> pc_flag c = Some f
   \<Longrightarrow> pm_kind p = TypeFlagChoice \<and> flag_ok f"
  by (auto simp: check_choice_def and_then_Ok_iff split: prod.splits if_splits dest: add_flag_Ok)

definition declared_flags :: "'f operation \<Rightarrow> string set" where
  "declared_flags op =
     {f. \<exists>p\<in>set (op_params op). pm_flag p = Some f
        \<or> (\<exists>c\<in>set (pm_choices p). pc_flag c = Some f)}"

lemma check_param_Ok:
  assumes "check_param nt script p s = Ok t"
  shows "(pm_flag p = Some f \<longrightarrow> flag_ok f \<and> pm_kind p \<noteq> TypeFlagChoice)
    \<and> (\<forall>c\<in>set (pm_choices p). pc_flag c = Some f \<longrightarrow> flag_ok f)"
proof -
  from assms obtain flags flags' u where
    flag: "add_flag script (pm_flag p) flags = Ok flags'"
      and choices: "try_fold (check_choice script p) (pm_choices p) ([], flags') = Ok u"
      and kind: "\<not> (pm_kind p = TypeFlagChoice \<and> pm_flag p \<noteq> None)"
    by (auto simp: check_param_def Let_def and_then_Ok_iff split: prod.splits if_splits)
  from choices have "\<forall>c\<in>set (pm_choices p). pc_flag c = Some f \<longrightarrow> flag_ok f"
    by (rule try_fold_all) (blast dest: check_choice_Ok)
  with flag kind show ?thesis by (auto dest: add_flag_Ok)
qed

lemma checked_params:
  assumes "check_operation nt op = Ok ()" and "p \<in> set (op_params op)"
  obtains s t where "check_param nt (op_kind op = ScriptOperation) p s = Ok t"
proof -
  obtain t where "try_fold (check_param nt (op_kind op = ScriptOperation)) (op_params op) ([], []) = Ok t"
    using assms(1) by (auto simp: check_operation_def check_params_def result_ops)
  then have "\<forall>x\<in>set (op_params op). \<exists>s u. check_param nt (op_kind op = ScriptOperation) x s = Ok u"
    by (rule try_fold_all) blast
  with assms(2) show ?thesis using that by blast
qed

lemma checked_flags: "check_operation nt op = Ok () \<Longrightarrow> f \<in> declared_flags op \<Longrightarrow> flag_ok f"
  by (auto simp: declared_flags_def elim: checked_params dest: check_param_Ok)

definition option_group :: "'f operation \<Rightarrow> string list \<Rightarrow> bool" where
  \<comment> \<open>a declared flag, alone or with its value\<close>
  "option_group op args = (\<exists>f\<in>declared_flags op. args = [f] \<or> (\<exists>v. args = [f, v]))"

lemma param_arguments_Ok:
  assumes "param_arguments nt p v = Ok (Some shown, args)" and "p \<in> set (op_params op)"
  shows "if is_positional p then args = [shown] else args = [] \<or> option_group op args"
proof (cases "pm_kind p")
  case TypeFlagChoice
  then obtain c where "c \<in> set (pm_choices p)" "args = (case pc_flag c of None \<Rightarrow> [] | Some f \<Rightarrow> [f])"
    using assms(1) by (auto simp: param_arguments_def result_ops dest: find_SomeD)
  with assms(2) TypeFlagChoice show ?thesis
    by (auto simp: is_positional_def option_group_def declared_flags_def split: option.splits)
qed (use assms in \<open>auto simp: param_arguments_def result_ops is_positional_def option_group_def
       declared_flags_def Let_def split: option.splits if_splits\<close>)

definition arguments_safe :: "'f operation \<Rightarrow> string list \<Rightarrow> string list \<Rightarrow> bool" where
  "arguments_safe op options positional =
     ((\<exists>groups. options = concat groups \<and> list_all (option_group op) groups)
      \<and> list_all (\<lambda>a. \<not> starts_with ''-'' a) positional)"

lemma arguments_safe_option:
  "arguments_safe op options positional \<Longrightarrow> args = [] \<or> option_group op args
   \<Longrightarrow> arguments_safe op (options @ args) positional"
  unfolding arguments_safe_def
  by (auto intro: exI [of _ "_ @ [args]"])

lemma prepare_param_effect:
  assumes "prepare_param nt values p s = Ok t"
  obtains (same) "pg_options t = pg_options s" "pg_positional t = pg_positional s" "pg_summary t = pg_summary s"
    | (more) v shown args where "given values p = Some v" "param_arguments nt p v = Ok (Some shown, args)"
        "\<not> (is_positional p \<and> starts_with ''-'' shown)"
        "pg_options t = pg_options s @ (if is_positional p then [] else args)"
        "pg_positional t = pg_positional s @ (if is_positional p then args else [])"
        "pg_summary t = bt_insert (pm_id p) shown (pg_summary s)"
proof (cases "given values p")
  case (Some v)
  note v = this
  show ?thesis
  proof (cases "\<exists>shown args. param_arguments nt p v = Ok (Some shown, args)
      \<and> \<not> (is_positional p \<and> starts_with ''-'' shown)")
    case True
    then obtain shown args where w: "param_arguments nt p v = Ok (Some shown, args)"
        "\<not> (is_positional p \<and> starts_with ''-'' shown)" by blast
    show ?thesis
      by (rule that(2) [OF v w]) (use assms v w in \<open>auto simp: prepare_param_cases\<close>)
  next
    case False
    show ?thesis
      by (rule that(1)) (use assms v False in \<open>auto simp: prepare_param_cases split: sum.splits
        refusal.splits option.splits if_splits prod.splits\<close>)
  qed
qed (use assms in \<open>auto intro!: that(1) simp: prepare_param_cases split: if_splits\<close>)

lemma prepare_param_safe:
  assumes "prepare_param nt values p s = Ok t" and p: "p \<in> set (op_params op)"
    and "arguments_safe op (pg_options s) (pg_positional s)"
  shows "arguments_safe op (pg_options t) (pg_positional t)"
  using assms(1)
proof (cases rule: prepare_param_effect)
  case (more v shown args)
  with param_arguments_Ok [OF more(2) p] assms(3) show ?thesis
    by (cases "is_positional p") (simp_all add: arguments_safe_option, simp add: arguments_safe_def)
qed (use assms(3) in simp)

lemma prepare_Ok:
  assumes "prepare nt op values dry_run = Ok r"
  obtains t where "try_fold (prepare_param nt values) (op_params op)
      \<lparr> pg_errors = [], pg_options = [], pg_positional = [], pg_summary = bt_empty \<rparr> = Ok t"
    "pr_args r = pg_options t @ (if dry_run \<and> op_kind op = ScriptOperation then [DRY_RUN_FLAG] else [])
       @ pg_positional t"
    "pr_summary r = pg_summary t"
    "list_all2 (\<lambda>template lock. resolve_lock template (pg_summary t) = Some lock) (op_locks op) (pr_locks r)"
    "pr_dry_run r = dry_run" "dry_run \<longrightarrow> op_supports_dry_run op"
    "\<forall>p\<in>set (op_params op). param_accepts nt values p"
proof -
  let ?s = "\<lparr> pg_errors = unknown_parameters op values, pg_options = [], pg_positional = [],
              pg_summary = bt_empty \<rparr>"
  obtain t where t: "try_fold (prepare_param nt values) (op_params op) ?s = Ok t"
      "pg_errors t = [] \<longleftrightarrow> unknown_parameters op values = []
         \<and> (\<forall>p\<in>set (op_params op). param_accepts nt values p)"
    using prepare_params_errors [of nt "values" "op_params op" ?s] by auto
  have dry: "dry_run \<longrightarrow> op_supports_dry_run op"
    using assms by (cases "dry_run \<and> \<not> op_supports_dry_run op") (simp_all add: prepare_def Let_def)
  then have "pg_errors t = []"
    using assms t(1) by (cases dry_run) (simp_all add: prepare_def Let_def split: if_splits)
  moreover from this dry obtain locks
    where "those (map (\<lambda>u. resolve_lock u (pg_summary t)) (op_locks op)) = Some locks"
      "r = \<lparr> pr_args = pg_options t @ (if dry_run \<and> op_kind op = ScriptOperation then [DRY_RUN_FLAG] else [])
              @ pg_positional t, pr_summary = pg_summary t, pr_locks = locks, pr_dry_run = dry_run \<rparr>"
    using assms t(1) by (cases dry_run) (simp_all add: prepare_def Let_def split: option.splits)
  ultimately show ?thesis
    using t dry by (intro that [of t]) (simp_all add: those_map_list_all2)
qed

lemma arguments_safe_Nil: "arguments_safe op [] []"
  unfolding arguments_safe_def by (auto intro: exI [of _ "[]"])

text \<open>
  C29: the arguments of an accepted launch of a checked operation are its options, then
  \<^verbatim>\<open>--dry-run\<close> when a script is to make a dry run, then its positional values. Every option is
  a flag the operation declares, alone or with one value; no declared flag is
  \<^verbatim>\<open>--json\<close> or \<^verbatim>\<open>--dry-run\<close>; and no positional value starts with a dash, so the script
  can take none of them for an option.
\<close>

theorem prepare_arguments_safe:
  assumes "check_operation nt op = Ok ()" and "prepare nt op values dry_run = Ok r"
  shows "\<exists>groups positional.
      pr_args r = concat groups @ (if dry_run \<and> op_kind op = ScriptOperation then [DRY_RUN_FLAG] else [])
        @ positional
      \<and> list_all (option_group op) groups
      \<and> list_all (\<lambda>a. \<not> starts_with ''-'' a) positional
      \<and> declared_flags op \<inter> set RESERVED_FLAGS = {}
      \<and> (dry_run \<longrightarrow> op_supports_dry_run op)"
proof -
  obtain t where t: "try_fold (prepare_param nt values) (op_params op)
      \<lparr> pg_errors = [], pg_options = [], pg_positional = [], pg_summary = bt_empty \<rparr> = Ok t"
      "pr_args r = pg_options t @ (if dry_run \<and> op_kind op = ScriptOperation then [DRY_RUN_FLAG] else [])
       @ pg_positional t" "dry_run \<longrightarrow> op_supports_dry_run op"
    using prepare_Ok [OF assms(2)] by metis
  have "arguments_safe op (pg_options t) (pg_positional t)"
    by (rule try_fold_inv [OF t(1)]) (auto simp: arguments_safe_Nil intro: prepare_param_safe)
  then show ?thesis
    using t checked_flags [OF assms(1)] unfolding arguments_safe_def flag_ok_def by auto
qed

subsection \<open>Locks\<close>

definition lock_segment :: "string \<Rightarrow> bool" where
  "lock_segment s =
     (s \<noteq> [] \<and> list_all (\<lambda>b. is_ascii_lowercase b \<or> is_ascii_digit b \<or> b = CHR ''-'') s)"

lemma lock_segment_digits: "list_all is_ascii_digit s \<Longrightarrow> s \<noteq> [] \<Longrightarrow> lock_segment s"
  by (auto simp: lock_segment_def list_all_iff)

lemma lock_segment_append: "lock_segment s \<Longrightarrow> lock_segment t \<Longrightarrow> lock_segment (s @ t)"
  by (simp add: lock_segment_def)

lemma lock_segment_words: "lock_segment ''mox''" "lock_segment ''prod''" "lock_segment ''stage''"
  by code_simp+

lemma lock_segment_uint: "lock_segment (show_uint w)"
  by (simp add: show_uint_def lock_segment_digits)

lemmas lock_segments = lock_segment_append lock_segment_words lock_segment_uint

lemma lock_segment_guest: "lock_segment (guest_name_display g)"
  by (cases g) (simp_all only: guest_name_display.simps lock_segments)

lemma lock_segment_host: "lock_segment (host_slot_display h)"
  unfolding host_slot_display_def by (intro lock_segments)

lemma canonical_resource:
  "names_a_resource (pm_kind p) \<Longrightarrow> canonical_value p s = Ok v \<Longrightarrow> lock_segment v"
  by (cases "pm_kind p") (auto simp: canonical_value_def names_a_resource_def Let_def result_ops
      lock_segment_guest lock_segment_host split: sum.splits)

lemma param_arguments_resource:
  "names_a_resource (pm_kind p) \<Longrightarrow> param_arguments nt p v = Ok (Some shown, args) \<Longrightarrow> lock_segment shown"
  by (cases "pm_kind p") (auto simp: param_arguments_def names_a_resource_def result_ops
      intro: canonical_resource)

definition summary_ok :: "'f operation \<Rightarrow> (string, string) btree \<Rightarrow> bool" where
  "summary_ok op m =
     (\<forall>ident v. bt_get m ident = Some v \<longrightarrow>
        (\<exists>p\<in>set (op_params op). pm_id p = ident \<and> (names_a_resource (pm_kind p) \<longrightarrow> lock_segment v)))"

lemma summary_ok_empty: "summary_ok op bt_empty"
  by (simp add: summary_ok_def bt_get_empty)

lemma prepare_param_summary:
  assumes "prepare_param nt values p s = Ok t" and "p \<in> set (op_params op)" and "summary_ok op (pg_summary s)"
  shows "summary_ok op (pg_summary t)"
  using assms(1)
proof (cases rule: prepare_param_effect)
  case (more v shown args)
  with assms(2,3) param_arguments_resource [of p nt v] show ?thesis
    by (auto simp: summary_ok_def bt_get_insert)
qed (use assms(3) in simp)

lemma checked_ids_distinct:
  assumes "check_operation nt op = Ok ()"
  shows "distinct (map pm_id (op_params op))"
proof -
  obtain t where "try_fold (check_param nt (op_kind op = ScriptOperation)) (op_params op) ([], []) = Ok t"
    using assms by (auto simp: check_operation_def check_params_def result_ops)
  then show ?thesis
    using try_fold_distinct [where key = pm_id and seen = fst]
    by (fastforce simp: check_param_def Let_def and_then_Ok_iff split: prod.splits if_splits option.splits)
qed

lemma lock_part_literal: "lock_part_of part = Some (LockLiteral s) \<Longrightarrow> lock_segment s"
  by (auto simp: lock_part_of_def lock_segment_def Let_def split: option.splits if_splits prod.splits)

lemma lock_parts_literal: "lock_parts template = Some parts \<Longrightarrow> LockLiteral s \<in> set parts \<Longrightarrow> lock_segment s"
  unfolding lock_parts_def those_map_list_all2
  by (auto simp: list_all2_conv_all_nth in_set_conv_nth dest!: lock_part_literal)

fun lock_part_good :: "(string, string) btree \<Rightarrow> lock_part \<Rightarrow> bool" where
  "lock_part_good m (LockLiteral s) = lock_segment s"
| "lock_part_good m (LockParam ident _) = (\<forall>v. bt_get m ident = Some v \<longrightarrow> lock_segment v)"

lemma lock_name_segments:
  "\<forall>part\<in>set parts. lock_part_good m part \<Longrightarrow> list_all lock_segment (lock_name m parts)"
  by (induction m parts rule: lock_name.induct) (auto split: option.splits)

lemma split_join_segments:
  assumes "list_all lock_segment ws" and "ws \<noteq> []"
  shows "split_on (CHR '':'') (join_with '':'' ws) = ws"
proof -
  have "CHR '':'' \<notin> set w" if "lock_segment w" for w
    using that by (auto simp: lock_segment_def list_all_iff is_ascii_lowercase_def is_ascii_digit_def)
  then show ?thesis using assms by (intro split_on_join) (auto simp: list_all_iff)
qed

lemma checked_resource_value:
  assumes "check_operation nt op = Ok ()" and "check_lock_part op template (LockParam ident opt) = Ok ()"
    and "summary_ok op m" and "bt_get m ident = Some v"
  shows "lock_segment v"
proof -
  obtain q where q: "find_param op ident = Some q" "names_a_resource (pm_kind q)"
    using assms(2) by (auto simp: check_lock_part_def split: option.splits if_splits)
  obtain p where p: "p \<in> set (op_params op)" "pm_id p = ident"
      "names_a_resource (pm_kind p) \<longrightarrow> lock_segment v"
    using assms(3,4) unfolding summary_ok_def by blast
  have "q \<in> set (op_params op)" "pm_id q = ident" using q(1) by (auto simp: find_param_def dest: find_SomeD)
  then have "p = q" using p checked_ids_distinct [OF assms(1)] by (auto simp: distinct_map inj_on_def)
  then show ?thesis using p q by simp
qed

text \<open>
  C31: every lock of an accepted launch of a checked operation is a path of segments made of
  lower-case letters, digits and dashes, whose first segment is one of the lock classes; an
  operation that changes something holds at least one, and a read-only one none.
\<close>

theorem prepared_locks_rooted:
  assumes "check_operation nt op = Ok ()" and "prepare nt op values dry_run = Ok r"
  shows "(\<forall>lock\<in>set (pr_locks r). hd (split_on (CHR '':'') lock) \<in> set LOCK_CLASSES
        \<and> list_all lock_segment (split_on (CHR '':'') lock))
      \<and> (pr_locks r \<noteq> [] \<longleftrightarrow> op_mutating op)"
proof -
  obtain t where t: "try_fold (prepare_param nt values) (op_params op)
      \<lparr> pg_errors = [], pg_options = [], pg_positional = [], pg_summary = bt_empty \<rparr> = Ok t"
      "list_all2 (\<lambda>template lock. resolve_lock template (pg_summary t) = Some lock) (op_locks op) (pr_locks r)"
    using prepare_Ok [OF assms(2)] by metis
  have "summary_ok op (pg_summary t)"
    by (rule try_fold_inv [OF t(1)]) (auto simp: summary_ok_empty intro: prepare_param_summary)
  note summary = checked_resource_value [OF assms(1) _ this]
  have "hd (split_on (CHR '':'') lock) \<in> set LOCK_CLASSES \<and> list_all lock_segment (split_on (CHR '':'') lock)"
    if lock: "lock \<in> set (pr_locks r)" for lock
  proof -
    obtain template where template: "template \<in> set (op_locks op)"
        "resolve_lock template (pg_summary t) = Some lock"
      using list_all2_from [OF t(2) lock] by blast
    obtain cls parts where parts: "lock_parts template = Some (LockLiteral cls # parts)"
        "cls \<in> set LOCK_CLASSES" "\<forall>part\<in>set parts. check_lock_part op template part = Ok ()"
      by (rule checked_locks [OF assms(1) template(1)])
    have "list_all lock_segment (lock_name (pg_summary t) (LockLiteral cls # parts))"
    proof (intro lock_name_segments ballI)
      fix part assume "part \<in> set (LockLiteral cls # parts)"
      then show "lock_part_good (pg_summary t) part"
        using lock_parts_literal [OF parts(1)] parts(3) summary by (cases part rule: lock_part.exhaust) auto
    qed
    moreover have "lock = join_with '':'' (lock_name (pg_summary t) (LockLiteral cls # parts))"
      using template(2) parts(1) by (simp add: resolve_lock_def)
    ultimately show ?thesis using split_join_segments parts(2) by simp
  qed
  moreover have "op_locks op \<noteq> [] \<longleftrightarrow> op_mutating op"
    using assms(1) by (auto simp: check_operation_def check_flags_def result_ops Let_def split: if_splits)
  ultimately show ?thesis using t(2) by auto
qed

subsection \<open>An operation and a launch\<close>

definition example_resource :: "unit param" where
  "example_resource = \<lparr> pm_id = ''resource'', pm_label = ''Guest'', pm_kind = TypeProduction, pm_flag = None,
     pm_help = None, pm_required = True, pm_advanced = False, pm_default = None, pm_placeholder = None,
     pm_choices = [], pm_suggest = None \<rparr>"

definition example_force :: "unit param" where
  "example_force = \<lparr> pm_id = ''force'', pm_label = ''Force'', pm_kind = TypeFlag, pm_flag = Some ''--force'',
     pm_help = None, pm_required = False, pm_advanced = True, pm_default = Some (JBool False),
     pm_placeholder = None, pm_choices = [], pm_suggest = None \<rparr>"

definition example_operation :: "unit operation" where
  "example_operation = \<lparr> op_id = ''prod.remove'', op_title = ''Remove'', op_summary = ''s'',
     op_description = ''d'', op_category = CategoryProduction, op_kind = ScriptOperation,
     op_script = Some ''scripts/remove_prod_vm.sh'', op_min_role = Admin, op_mutating = True,
     op_destructive = True, op_supports_dry_run = True, op_params = [example_resource, example_force],
     op_locks = [''production:{resource}''], op_target = TargetOwner ''resource'', op_cancel = CancelScript,
     op_resume = ResumeNever, op_notes = None \<rparr>"

definition example_values :: "(string, unit json) btree" where
  "example_values = bt_collect [(''resource'', JString ''prod7''), (''force'', JBool True)]"

lemma example_texts:
  "trim ''Remove'' = ''Remove''" "trim ''s'' = ''s''" "trim ''d'' = ''d''" "trim ''Guest'' = ''Guest''"
  "trim ''Force'' = ''Force''" "trim ''prod7'' = ''prod7''"
  by (simp_all add: trim_graphic is_ascii_graphic_def)

lemma example_tests:
  "is_safe_relative_script ''scripts/remove_prod_vm.sh''"
  "is_identifier ''resource''" "is_identifier ''force''"
  "add_flag True (Some ''--force'') [] = Ok [''--force'']"
  "lock_parts ''production:{resource}'' = Some [LockLiteral ''production'', LockParam ''resource'' False]"
  "''production'' \<in> set LOCK_CLASSES"
  "bt_get example_values ''resource'' = Some (JString ''prod7'')"
  "bt_get example_values ''force'' = Some (JBool True)"
  "\<not> starts_with ''-'' ''prod7''"
  "bt_keys example_values = [''force'', ''resource'']"
  by code_simp+

lemma example_digit: "show_uint (7 :: u32) = ''7''"
proof -
  have "digit_char 7 = CHR ''7''" by code_simp
  then show ?thesis by (simp add: show_uint_def show_nat.simps)
qed

lemma example_guest: "guest_name_from_str ''prod7'' = Ok (Production 7)"
  by (simp add: guest_name_from_str_Ok_iff example_digit)

lemmas example_defs = example_operation_def example_resource_def example_force_def

lemma example_param_checks:
  "check_param nt True example_resource ([], []) = Ok ([''resource''], [])"
  "check_param nt True example_force ([''resource''], []) = Ok ([''force'', ''resource''], [''--force''])"
  by (simp_all add: check_param_def example_defs example_texts example_tests add_flag_def [of _ None]
      param_arguments_def Let_def)

lemma example_find: "find_param example_operation ''resource'' = Some example_resource"
  "find_param example_operation ''force'' = Some example_force"
  by (simp_all add: find_param_def example_defs)

lemma example_checked: "check_operation nt example_operation = Ok ()"
proof -
  have "check_texts example_operation = Ok ()" "check_script example_operation = Ok ()"
    "check_flags example_operation = Ok ()"
    by (simp_all add: check_texts_def check_script_def check_flags_def example_operation_def
        example_texts example_tests)
  moreover have "check_params nt example_operation True = Ok ()"
    using example_param_checks by (simp add: check_params_def example_operation_def)
  moreover have "check_lock example_operation ''production:{resource}'' [] = Ok [''production:{resource}'']"
    unfolding check_lock_Ok_iff by (simp add: example_tests check_lock_part_def example_find)
      (simp add: example_resource_def names_a_resource_def)
  then have "check_locks example_operation = Ok ()"
    by (simp add: check_locks_def example_operation_def)
  moreover have "check_target example_operation = Ok ()"
  proof -
    have "op_target example_operation = TargetOwner ''resource''" by (simp add: example_operation_def)
    then show ?thesis by (simp add: check_target_def example_find) (simp add: example_resource_def)
  qed
  ultimately show ?thesis by (simp add: check_operation_def example_operation_def)
qed

lemma example_param_steps:
  "prepare_param nt example_values example_resource s
   = Ok (s\<lparr>pg_positional := pg_positional s @ [''prod7''],
           pg_summary := bt_insert ''resource'' ''prod7'' (pg_summary s)\<rparr>)"
  "prepare_param nt example_values example_force s
   = Ok (s\<lparr>pg_options := pg_options s @ [''--force''],
           pg_summary := bt_insert ''force'' ''yes'' (pg_summary s)\<rparr>)"
  by (simp_all add: prepare_param_def example_defs example_texts example_tests is_positional_def
      param_arguments_def canonical_value_def example_guest example_digit)

lemma example_prepared_for:
  "prepare nt example_operation example_values dry_run
   = Ok \<lparr> pr_args = [''--force''] @ (if dry_run then [''--dry-run''] else []) @ [''prod7''],
          pr_summary = [(''force'', ''yes''), (''resource'', ''prod7'')],
          pr_locks = [''production:prod7''], pr_dry_run = dry_run \<rparr>"
proof -
  have "unknown_parameters example_operation example_values = []"
    by (simp add: unknown_parameters_Nil example_tests example_find)
  moreover have "bt_insert ''force'' ''yes'' (bt_insert ''resource'' ''prod7'' bt_empty)
      = [(''force'', ''yes''), (''resource'', ''prod7'')]" by code_simp
  moreover have "resolve_lock ''production:{resource}'' [(''force'', ''yes''), (''resource'', ''prod7'')]
      = Some ''production:prod7''"
    by (simp add: resolve_lock_def example_tests bt_get_def)
  ultimately show ?thesis
    by (simp add: prepare_def example_operation_def example_param_steps DRY_RUN_FLAG_def)
qed

lemma example_prepared:
  "prepare nt example_operation example_values True
   = Ok \<lparr> pr_args = [''--force'', ''--dry-run'', ''prod7''],
          pr_summary = [(''force'', ''yes''), (''resource'', ''prod7'')],
          pr_locks = [''production:prod7''], pr_dry_run = True \<rparr>"
  by (simp add: example_prepared_for)

theorem prepare_accepts_iff_witness:
  "is_ok (prepare (\<lambda>_. ''0'') example_operation example_values True)
   \<and> check_operation (\<lambda>_. ''0'') example_operation = Ok ()
   \<and> list_all (param_accepts (\<lambda>_. ''0'') example_values) (op_params example_operation)"
  using prepare_accepts_iff [OF example_checked, of "\<lambda>_. ''0''" example_values True]
  by (simp add: example_prepared example_checked list_all_iff)

theorem prepare_arguments_safe_witness:
  "\<exists>groups positional.
      [''--force'', ''--dry-run'', ''prod7''] = concat groups @ [DRY_RUN_FLAG] @ positional
      \<and> list_all (option_group example_operation) groups \<and> list_all (\<lambda>a. \<not> starts_with ''-'' a) positional"
  using prepare_arguments_safe [OF example_checked example_prepared]
  by (auto simp: example_operation_def)

theorem prepared_locks_rooted_witness:
  "hd (split_on (CHR '':'') ''production:prod7'') \<in> set LOCK_CLASSES
   \<and> list_all lock_segment (split_on (CHR '':'') ''production:prod7'')"
  using prepared_locks_rooted [OF example_checked example_prepared] by simp

text \<open>
  The description of \<^verbatim>\<open>Prepared::args\<close> says that it is empty for native operations. It is
  not: a native operation's parameters have no flags, so every value but those of flags and choices
  of flags is an argument.
\<close>

lemma native_no_flag: "check_param nt False p s = Ok t \<Longrightarrow> pm_flag p = None"
proof (rule ccontr)
  assume "check_param nt False p s = Ok t" and flag: "pm_flag p \<noteq> None"
  then obtain flags flags' where "add_flag False (pm_flag p) flags = Ok flags'"
    by (auto simp: check_param_def Let_def and_then_Ok_iff split: prod.splits if_splits)
  with flag show False by (auto dest: add_flag_Ok)
qed

lemma native_arguments:
  assumes "op_kind op = NativeOperation" and "check_operation nt op = Ok ()"
    and "op_params op = [p]" and "pm_kind p = TypeProduction"
    and "prepare nt op values dry_run = Ok r" and "given values p = Some v"
  shows "\<exists>guest. pr_args r = [guest]"
proof -
  have "p \<in> set (op_params op)" using assms(3) by simp
  then obtain s u where "check_param nt False p s = Ok u"
    using checked_params [OF assms(2)] assms(1) by (metis operation_kind.distinct(1))
  then have "pm_flag p = None" by (rule native_no_flag)
  then have "is_positional p" using assms(4) by (simp add: is_positional_def)
  obtain t where t: "prepare_param nt values p
      \<lparr> pg_errors = [], pg_options = [], pg_positional = [], pg_summary = bt_empty \<rparr> = Ok t"
      "pr_args r = pg_options t @ (if dry_run \<and> op_kind op = ScriptOperation then [DRY_RUN_FLAG] else [])
       @ pg_positional t" "\<forall>p\<in>set (op_params op). param_accepts nt values p"
    by (rule prepare_Ok [OF assms(5)]) (simp add: assms(3) and_then_Ok_iff)
  obtain shown args where "param_arguments nt p v = Ok (Some shown, args)"
    using t(3) assms(3,4,6)
    by (auto simp: param_accepts_def param_arguments_def and_then_def split: sum.splits)
  moreover from this have "args = [shown]"
    using param_arguments_Ok [of nt p v shown args op] assms(3) \<open>is_positional p\<close> by simp
  moreover have "\<not> starts_with ''-'' shown"
    using t(3) assms(3,6) \<open>is_positional p\<close> calculation by (simp add: param_accepts_def is_some_and_def)
  ultimately show ?thesis
    using t(1,2) assms(1,6) \<open>is_positional p\<close> by (auto simp: prepare_param_cases)
qed

end
