(* ===== verification/Jobs_Lifecycle.thy ===== *)
theory Jobs_Lifecycle
  imports Jobs_Records Jobs_Launch
begin

section \<open>The life of a job\<close>

text \<open>
  An abstract specification of the directory of job records and the proof that every operation of
  \<open>Jobs_Records\<close> implements it, whatever fails on the way. The directory changes by
  \<open>change\<close>: a new job is added whose locks overlap no unfinished job's and whose launch key no
  record has, or a record makes a move the life of a job allows; then finished records are removed
  by \<open>discard\<close>. The invariants are proved on these steps.
\<close>

subsection \<open>The specification\<close>

fun state_move :: "job_state \<Rightarrow> job_state \<Rightarrow> bool" where
  "state_move Admitted t = (t \<in> {Running, Cancelled, Failed})"
| "state_move Running t = (t \<in> {Running, Interrupted, Completed, Failed, Cancelled})"
| "state_move Interrupted t = (t \<in> {Admitted, Completed, Failed, Cancelled})"
| "state_move _ t = False"

definition same_launch :: "job_record \<Rightarrow> job_record \<Rightarrow> bool" where
  \<comment> \<open>what admission fixes for good\<close>
  "same_launch r q =
     (jr_id q = jr_id r \<and> jr_operation q = jr_operation r \<and> jr_title q = jr_title r
      \<and> jr_parameters q = jr_parameters r \<and> jr_args q = jr_args r \<and> jr_locks q = jr_locks r
      \<and> jr_dry_run q = jr_dry_run r \<and> jr_user q = jr_user r \<and> jr_role q = jr_role r
      \<and> jr_idempotency_key q = jr_idempotency_key r \<and> jr_admitted_by q = jr_admitted_by r
      \<and> jr_created_at_ms q = jr_created_at_ms r)"

definition moves :: "job_record \<Rightarrow> job_record \<Rightarrow> bool" where
  "moves r q =
     (same_launch r q \<and> jr_revision q = jr_revision r \<and> state_move (jr_state r) (jr_state q)
      \<and> (jr_state q = Running \<longrightarrow> jr_lease q \<noteq> None \<or> jr_state r = Running \<and> jr_lease q = jr_lease r)
      \<and> (is_terminal (jr_state q) \<longrightarrow> jr_finished_at_ms q \<noteq> None))"

definition overlap :: "job_record \<Rightarrow> job_record \<Rightarrow> bool" where
  "overlap r q = (\<exists>a\<in>set (jr_locks r). \<exists>b\<in>set (jr_locks q). locks_conflict a b)"

definition launch_key :: "job_record \<Rightarrow> string \<times> string" where
  "launch_key r = (jr_user r, jr_idempotency_key r)"

inductive change :: "job_store \<Rightarrow> job_store \<Rightarrow> bool" where
  added: "bt_get s (jr_id r) = None \<Longrightarrow> jr_state r = Admitted
    \<Longrightarrow> \<forall>k q. bt_get s k = Some q \<longrightarrow> holds_locks q \<longrightarrow> \<not> overlap r q
    \<Longrightarrow> \<forall>k q. bt_get s k = Some q \<longrightarrow> launch_key q \<noteq> launch_key r
    \<Longrightarrow> change s (bt_insert (jr_id r) r s)"
| moved: "bt_get s (jr_id r) = Some r \<Longrightarrow> moves r q
    \<Longrightarrow> change s (bt_insert (jr_id r) (q\<lparr>jr_revision := jr_revision r + 1\<rparr>) s)"

inductive discard :: "job_store \<Rightarrow> job_store \<Rightarrow> bool" where
  discarded: "bt_get s k = Some r \<Longrightarrow> is_terminal (jr_state r) \<Longrightarrow> discard s (bt_remove k s)"

definition reached :: "job_store \<Rightarrow> job_store \<Rightarrow> bool" where
  "reached s t = (\<exists>u. change\<^sup>*\<^sup>* s u \<and> discard\<^sup>*\<^sup>* u t)"

lemma reached_refl [simp]: "reached s s"
  unfolding reached_def by blast

lemma reached_changes: "change\<^sup>*\<^sup>* s t \<Longrightarrow> reached s t"
  unfolding reached_def by blast

subsection \<open>What is read under the lock\<close>

definition lk_ok :: "locked_records \<Rightarrow> bool" where
  "lk_ok l =
     (bt_ok (lk_store l) \<and> distinct (map jr_id (lk_records l))
      \<and> (\<forall>k r. bt_get (lk_store l) k = Some r \<longleftrightarrow> r \<in> set (lk_records l) \<and> jr_id r = k))"

lemma read_entry_Ok:
  "read_entry show_id cfg env e rs = Ok rs' \<Longrightarrow> rs' = rs @ [snd e] \<and> jr_id (snd e) = fst e"
  by (auto simp: read_entry_def read_one_def result_ops split: option.splits if_splits prod.splits)

lemma read_entries:
  "try_fold (read_entry show_id cfg env) es rs = Ok rs'
   \<Longrightarrow> rs' = rs @ map snd es \<and> (\<forall>e\<in>set es. jr_id (snd e) = fst e)"
proof (induction es arbitrary: rs)
  case (Cons e es)
  then have "jr_id (snd e) = fst e" "try_fold (read_entry show_id cfg env) es (rs @ [snd e]) = Ok rs'"
    by (auto simp: result_ops dest: read_entry_Ok)
  with Cons.IH [of "rs @ [snd e]"] show ?case by simp
qed simp

lemma read_all_ok:
  assumes "read_all show_id cfg env s = Ok rs" and "bt_ok s"
  shows "lk_ok \<lparr> lk_records = rs, lk_store = s \<rparr>"
proof -
  let ?es = "sort_key (\<lambda>e. je_order env (fst e)) s"
  have rs: "rs = map snd ?es" and ids: "\<forall>e\<in>set s. jr_id (snd e) = fst e"
    using assms(1) read_entries [of show_id cfg env ?es "[]" rs]
    by (auto simp: read_all_def split: option.splits)
  have "map jr_id rs = map fst ?es" unfolding rs using ids by simp
  moreover have "distinct (map fst ?es)"
    using bt_ok_distinct [OF assms(2)] by (simp add: distinct_map)
  moreover have "bt_get s k = Some r \<longleftrightarrow> r \<in> set rs \<and> jr_id r = k" for k r
    using btm.entries_get [OF assms(2), of k r] ids unfolding rs by force
  ultimately show ?thesis using assms(2) by (simp add: lk_ok_def)
qed

lemma set_replace_record:
  "distinct (map jr_id rs) \<Longrightarrow>
   set (replace_record r rs) = insert r {x \<in> set rs. jr_id x \<noteq> jr_id r}
   \<and> distinct (map jr_id (replace_record r rs))"
proof (induction rs)
  case (Cons x rs)
  have "jr_id ` set (replace_record r rs) \<subseteq> insert (jr_id r) (jr_id ` set rs)"
    by (induction rs) auto
  with Cons show ?case by (auto simp: image_iff)
qed simp

lemma lk_ok_save:
  assumes "lk_ok l"
  shows "lk_ok (l\<lparr>lk_records := replace_record r (lk_records l),
                  lk_store := bt_insert (jr_id r) r (lk_store l)\<rparr>)"
  using assms set_replace_record [of "lk_records l" r]
  by (auto simp: lk_ok_def bt_ok_insert bt_get_insert)

lemma lk_ok_remove:
  assumes "lk_ok l"
  shows "lk_ok (l\<lparr>lk_records := filter (\<lambda>r. jr_id r \<noteq> k) (lk_records l),
                  lk_store := bt_remove k (lk_store l)\<rparr>)"
  using assms by (auto simp: lk_ok_def bt_ok_remove bt_get_remove distinct_map inj_on_def)

lemma lk_ok_get: "lk_ok l \<Longrightarrow> bt_get (lk_store l) k = Some r \<longleftrightarrow> r \<in> set (lk_records l) \<and> jr_id r = k"
  by (simp add: lk_ok_def)

subsection \<open>What writing does\<close>

lemma locked_save_cases:
  assumes "locked_save show_id cfg env q l = (res, m)"
  obtains "m = l\<lparr>lk_store := lk_store l\<rparr>" "\<exists>e. res = Err e"
  | (stored) found where "found = (case bt_get (lk_store l) (jr_id q) of None \<Rightarrow> 0 | Some r \<Rightarrow> jr_revision r)"
      "jr_revision q = found" "bt_get (lk_store l) (jr_id q) \<noteq> None \<longrightarrow> 1 \<le> found"
      "lk_store m = bt_insert (jr_id q) (q\<lparr>jr_revision := found + 1\<rparr>) (lk_store l)"
      "(\<exists>e. res = Err e) \<or> (res = Ok (q\<lparr>jr_revision := found + 1\<rparr>)
         \<and> lk_records m = replace_record (q\<lparr>jr_revision := found + 1\<rparr>) (lk_records l))"
proof -
  have exp: "unwrap_or 0 (if 0 < jr_revision q then Some (jr_revision q) else None) = jr_revision q"
    by (auto simp: word_gt_0)
  show ?thesis
    using assms that unfolding locked_save_def write_record_def Let_def exp
    by (auto split: option.splits sum.splits if_splits write_outcome.splits prod.splits)
qed

definition saved_from :: "job_store \<Rightarrow> locked_records \<Rightarrow> bool" where
  "saved_from s0 l = (lk_ok l \<and> change\<^sup>*\<^sup>* s0 (lk_store l))"

abbreviation reaches_from :: "job_store \<Rightarrow> locked_records \<Rightarrow> bool" where
  "reaches_from s0 l \<equiv> reached s0 (lk_store l)"

lemma save_step:
  \<comment> \<open>saving a record that makes an allowed change\<close>
  assumes run: "locked_save show_id cfg env q l = (res, m)" and l: "saved_from s0 l"
    and allowed: "\<And>t found. lk_store m = bt_insert (jr_id q) (q\<lparr>jr_revision := found + 1\<rparr>) (lk_store l)
        \<Longrightarrow> found = (case bt_get (lk_store l) (jr_id q) of None \<Rightarrow> 0 | Some r \<Rightarrow> jr_revision r)
        \<Longrightarrow> jr_revision q = found \<Longrightarrow> bt_get (lk_store l) (jr_id q) \<noteq> None \<longrightarrow> 1 \<le> found
        \<Longrightarrow> change (lk_store l) (lk_store m)"
  shows "case res of
      Ok v \<Rightarrow> saved_from s0 m \<and> v = q\<lparr>jr_revision := jr_revision q + 1\<rparr>
        \<and> m = l\<lparr>lk_records := replace_record v (lk_records l), lk_store := bt_insert (jr_id q) v (lk_store l)\<rparr>
    | Err _ \<Rightarrow> reaches_from s0 m"
  using run
proof (cases rule: locked_save_cases)
  case 1
  then show ?thesis using l by (auto simp: saved_from_def reached_changes split: sum.splits)
next
  case (stored found)
  have "change (lk_store l) (lk_store m)" by (rule allowed [OF stored(4,1,2,3)])
  then have ch: "change\<^sup>*\<^sup>* s0 (lk_store m)" using l by (auto simp: saved_from_def intro: rtranclp.rtrancl_into_rtrancl)
  show ?thesis
  proof (cases res)
    case (Inl e)
    then show ?thesis using ch by (simp add: reached_changes)
  next
    case (Inr v)
    then have v: "v = q\<lparr>jr_revision := found + 1\<rparr>" "lk_records m = replace_record v (lk_records l)"
      using stored(5) by auto
    have m: "m = l\<lparr>lk_records := replace_record v (lk_records l), lk_store := bt_insert (jr_id v) v (lk_store l)\<rparr>"
      using v stored(4) by simp
    have "lk_ok m" unfolding m using l by (intro lk_ok_save) (simp add: saved_from_def)
    then show ?thesis using Inr v ch stored(2) m by (simp add: saved_from_def)
  qed
qed

lemma save_move:
  assumes "locked_save show_id cfg env q l = (res, m)" and "saved_from s0 l"
    and "bt_get (lk_store l) (jr_id r) = Some r" and "moves r q"
  shows "case res of
      Ok v \<Rightarrow> saved_from s0 m \<and> v = q\<lparr>jr_revision := jr_revision q + 1\<rparr>
        \<and> m = l\<lparr>lk_records := replace_record v (lk_records l), lk_store := bt_insert (jr_id q) v (lk_store l)\<rparr>
    | Err _ \<Rightarrow> reaches_from s0 m"
proof (rule save_step [OF assms(1,2)])
  fix found
  assume "lk_store m = bt_insert (jr_id q) (q\<lparr>jr_revision := found + 1\<rparr>) (lk_store l)"
    and "jr_revision q = found"
  then show "change (lk_store l) (lk_store m)"
    using change.moved [OF assms(3,4)] assms(4) by (simp add: moves_def same_launch_def)
qed

lemma remove_records_reached:
  assumes "remove_records env idents l = (res, m)" and "lk_ok l" and "distinct idents"
    and "\<forall>k\<in>set idents. \<exists>r. bt_get (lk_store l) k = Some r \<and> is_terminal (jr_state r)"
  shows "discard\<^sup>*\<^sup>* (lk_store l) (lk_store m)"
  using assms
proof (induction env idents l rule: remove_records.induct)
  case (2 env k ks l)
  show ?case
  proof (cases "je_remove env k")
    case None
    let ?l = "l\<lparr>lk_records := filter (\<lambda>r. jr_id r \<noteq> k) (lk_records l), lk_store := bt_remove k (lk_store l)\<rparr>"
    have "remove_records env ks ?l = (res, m)" using 2(2) None by simp
    moreover have "lk_ok ?l" using 2(3) by (rule lk_ok_remove)
    moreover have "distinct ks" "\<forall>j\<in>set ks. \<exists>r. bt_get (lk_store ?l) j = Some r \<and> is_terminal (jr_state r)"
      using 2(4,5) by (auto simp: bt_get_remove)
    ultimately have "discard\<^sup>*\<^sup>* (lk_store ?l) (lk_store m)" by (rule 2(1) [OF None])
    moreover have "discard (lk_store l) (lk_store ?l)"
      using 2(5) by (auto intro: discard.discarded)
    ultimately show ?thesis by (simp add: converse_rtranclp_into_rtranclp)
  qed (use 2(2) in simp)
qed simp

lemma distinct_map_take_sort: "distinct (map f xs) \<Longrightarrow> distinct (map f (take n (sort xs)))"
  unfolding take_map [symmetric] by (rule distinct_take) (simp add: distinct_map)

lemma excess_finished_sub:
  assumes "lk_ok l"
  shows "distinct (excess_finished cfg (lk_records l))
    \<and> (\<forall>k\<in>set (excess_finished cfg (lk_records l)).
         \<exists>r. bt_get (lk_store l) k = Some r \<and> is_terminal (jr_state r))"
proof -
  let ?fin = "map (\<lambda>r. (finished_at r, jr_id r)) (filter (\<lambda>r. is_terminal (jr_state r)) (lk_records l))"
  have "distinct (map snd ?fin)"
    using assms by (simp add: lk_ok_def comp_def distinct_map_filter)
  then have d: "distinct (map snd (take n (sort ?fin)))" for n by (rule distinct_map_take_sort)
  have sub: "set (map snd (take n (sort ?fin))) \<subseteq> snd ` set ?fin" for n
    unfolding set_map [of snd] using set_take_subset [of n "sort ?fin"] by (intro image_mono) simp
  have fin: "\<exists>r. bt_get (lk_store l) k = Some r \<and> is_terminal (jr_state r)" if "k \<in> snd ` set ?fin" for k
    using that assms by (auto simp: lk_ok_get)
  show ?thesis
  proof (cases "length ?fin \<le> jc_keep_finished cfg")
    case True
    then have "excess_finished cfg (lk_records l) = []" by (simp add: excess_finished_def)
    then show ?thesis by simp
  next
    case False
    then have "excess_finished cfg (lk_records l) = map snd (take (length ?fin - jc_keep_finished cfg) (sort ?fin))"
      by (simp add: excess_finished_def Let_def)
    with d sub fin show ?thesis by (simp only:) blast
  qed
qed

lemma prune_reached:
  assumes "locked_prune cfg env l = (res, m)" and "saved_from s0 l"
  shows "reaches_from s0 m"
proof -
  have "discard\<^sup>*\<^sup>* (lk_store l) (lk_store m)"
    using assms excess_finished_sub [of l cfg]
    by (intro remove_records_reached) (auto simp: locked_prune_def saved_from_def)
  with assms(2) show ?thesis by (auto simp: reached_def saved_from_def)
qed

subsection \<open>Operations keep to the specification\<close>

definition safe :: "job_store \<Rightarrow> 'a locked_effect \<Rightarrow> bool" where
  "safe s0 m = holds_after (\<lambda>l. lk_ok l \<and> lk_store l = s0) m (\<lambda>_. reaches_from s0) (reaches_from s0)"

lemma safeI:
  assumes "\<And>l res m. lk_ok l \<Longrightarrow> lk_store l = s0 \<Longrightarrow> f l = (res, m) \<Longrightarrow> reaches_from s0 m"
  shows "safe s0 f"
  unfolding safe_def by (rule holds_afterI) (auto split: sum.split dest: assms)

lemma safeD: "safe s0 f \<Longrightarrow> lk_ok l \<Longrightarrow> lk_store l = s0 \<Longrightarrow> f l = (res, m) \<Longrightarrow> reaches_from s0 m"
  unfolding safe_def by (drule (1) holds_afterD [rotated 2, where r = res and t = m]) (auto split: sum.splits)

named_theorems safe_rules \<open>how operations under the lock are put together\<close>

lemma safe_returns [safe_rules]: "safe s0 (returns r)"
  by (rule safeI) (auto simp: returns_def)

lemma safe_if [safe_rules]: "(c \<Longrightarrow> safe s0 f) \<Longrightarrow> (\<not> c \<Longrightarrow> safe s0 g) \<Longrightarrow> safe s0 (if c then f else g)"
  by simp

lemma safe_returns_next [safe_rules]:
  assumes "\<And>v. r = Ok v \<Longrightarrow> safe s0 (f v)"
  shows "safe s0 (and_next (returns r) f)"
proof (rule safeI)
  fix l res m assume "lk_ok l" "lk_store l = s0" "and_next (returns r) f l = (res, m)"
  then show "reaches_from s0 m"
    using assms by (cases r) (auto simp: and_next_def returns_def dest: safeD)
qed

lemma safe_find_next [safe_rules]:
  assumes "\<And>r. jr_id r = ident \<Longrightarrow> bt_get s0 (jr_id r) = Some r \<Longrightarrow> safe s0 (f r)"
  shows "safe s0 (and_next (locked_find show_id ident) f)"
proof (rule safeI)
  fix l res m assume l: "lk_ok l" "lk_store l = s0" and run: "and_next (locked_find show_id ident) f l = (res, m)"
  show "reaches_from s0 m"
  proof (cases "find (\<lambda>r. jr_id r = ident) (lk_records l)")
    case None
    then show ?thesis using run l by (auto simp: and_next_def locked_find_def)
  next
    case (Some r)
    then have "jr_id r = ident" "r \<in> set (lk_records l)" by (auto dest: find_SomeD)
    then have "safe s0 (f r)" using l by (intro assms) (auto simp: lk_ok_get)
    moreover have "f r l = (res, m)" using run Some by (simp add: and_next_def locked_find_def)
    ultimately show ?thesis using l by (auto dest: safeD)
  qed
qed

lemma safe_save_next:
  assumes "bt_get s0 (jr_id r) = Some r" and "moves r q"
    and "\<And>v l res m. saved_from s0 l \<Longrightarrow> f v l = (res, m) \<Longrightarrow> reaches_from s0 m"
  shows "safe s0 (and_next (locked_save show_id cfg env q) f)"
proof (rule safeI)
  fix l res m assume l: "lk_ok l" "lk_store l = s0" and run: "and_next (locked_save show_id cfg env q) f l = (res, m)"
  obtain w u where save: "locked_save show_id cfg env q l = (w, u)" by (cases "locked_save show_id cfg env q l")
  have "saved_from s0 l" using l by (simp add: saved_from_def)
  then have "case w of Ok v \<Rightarrow> saved_from s0 u | Err _ \<Rightarrow> reaches_from s0 u"
    using save_move [OF save, of s0 r] assms(1,2) l by (auto split: sum.splits)
  then show "reaches_from s0 m"
    using run save assms(3) by (auto simp: and_next_def split: sum.splits)
qed

lemma saved_reaches: "saved_from s0 l \<Longrightarrow> reaches_from s0 l"
  by (simp add: saved_from_def reached_changes)

lemma safe_save_returns [safe_rules]:
  "bt_get s0 (jr_id r) = Some r \<Longrightarrow> moves r q
   \<Longrightarrow> safe s0 (and_next (locked_save show_id cfg env q) (\<lambda>v. returns (g v)))"
  by (erule (1) safe_save_next) (auto simp: returns_def saved_reaches)

lemma and_next_returns_Ok: "and_next m (\<lambda>v. returns (Ok v)) = m"
  by (rule ext) (auto simp: and_next_def returns_def split: prod.split sum.split)

lemma safe_save [safe_rules]:
  "bt_get s0 (jr_id r) = Some r \<Longrightarrow> moves r q \<Longrightarrow> safe s0 (locked_save show_id cfg env q)"
  using safe_save_returns [of s0 r q show_id cfg env Ok] by (simp add: and_next_returns_Ok)

lemma prune_next_reached:
  "saved_from s0 l \<Longrightarrow> and_next (locked_prune cfg env) (\<lambda>_. returns x) l = (res, m) \<Longrightarrow> reaches_from s0 m"
  by (auto simp: and_next_def returns_def dest: prune_reached split: prod.splits sum.splits)

lemma safe_save_prune [safe_rules]:
  "bt_get s0 (jr_id r) = Some r \<Longrightarrow> moves r q
   \<Longrightarrow> safe s0 (and_next (locked_save show_id cfg env q) (\<lambda>v. and_next (locked_prune cfg env) (\<lambda>_. returns (g v))))"
  by (erule (1) safe_save_next) (rule prune_next_reached)

lemma safe_interrupted_next [safe_rules]:
  assumes "\<And>r. bt_get s0 (jr_id r) = Some r \<Longrightarrow> jr_state r = Interrupted \<Longrightarrow> safe s0 (f r)"
  shows "safe s0 (and_next (interrupted show_id reg caller ident) f)"
proof (rule safeI)
  fix l res m
  assume l: "lk_ok l" "lk_store l = s0" and run: "and_next (interrupted show_id reg caller ident) f l = (res, m)"
  obtain w u where w: "interrupted show_id reg caller ident l = (w, u)" by (cases "interrupted show_id reg caller ident l")
  then have "u = l" "\<forall>r. w = Ok r \<longrightarrow> r \<in> set (lk_records l) \<and> jr_state r = Interrupted"
    by (auto simp: interrupted_def and_next_def returns_def locked_find_def ok_or_def
        split: option.splits sum.splits if_splits dest: find_SomeD)
  with w run l show "reaches_from s0 m"
    using safeD [OF assms l] by (cases w) (auto simp: and_next_def lk_ok_get)
qed

lemma locked_reached:
  assumes "bt_ok s" and "safe s f"
  shows "reached s (snd (locked show_id cfg env f s))"
proof (cases "je_acquire env")
  case None
  show ?thesis
  proof (cases "read_all show_id cfg env s")
    case (Inr rs)
    obtain res m where f: "f \<lparr> lk_records = rs, lk_store = s \<rparr> = (res, m)" by fastforce
    have "reaches_from s m" using safeD [OF assms(2) read_all_ok [OF Inr assms(1)] _ f] by simp
    then show ?thesis using None Inr f by (simp add: locked_def Let_def)
  qed (use None in \<open>simp add: locked_def\<close>)
qed (simp add: locked_def)

lemmas moves_defs = moves_def same_launch_def is_terminal_def

lemma moves_claimed: "jr_state r = Admitted \<Longrightarrow> moves r (job_claimed cfg now nonce r)"
  by (simp add: moves_defs job_claimed_def)

lemma moves_renewed: "jr_state r = Running \<Longrightarrow> moves r (renewed cfg now p r)"
  by (cases "jr_lease r") (simp_all add: moves_defs renewed_def)

lemma moves_finish:
  assumes "jr_state r = Running \<or> jr_state r = Interrupted" and "is_terminal state"
  shows "moves r ((record_finish state message now r)\<lparr>jr_last_seq := n\<rparr>)"
    and "moves r (record_finish state message now r)"
  using assms by (cases state; auto simp: moves_defs record_finish_def)+

lemma moves_cancelled: "cancelled show_id now user force r = Ok q \<Longrightarrow> moves r q"
  by (cases "jr_state r") (auto simp: moves_defs cancelled_def record_finish_def split: if_splits)

lemma moves_resumed: "jr_state r = Interrupted \<Longrightarrow> moves r (resumed now message target r)"
  by (simp add: moves_defs resumed_def)

lemma moves_restarted: "own_running host r \<Longrightarrow> moves r (restarted host now r)"
  by (simp add: moves_defs own_running_def restarted_def)

lemma moves_swept: "is_stale cfg now r \<Longrightarrow> moves r (swept now' r)"
  by (cases "jr_state r") (auto simp: moves_defs is_stale_def swept_def record_finish_def)

lemma safe_claim: "bt_ok s \<Longrightarrow> reached s (snd (jobs_claim show_id cfg env ident s))"
proof (cases "je_nonce env")
  case (Some bytes)
  assume "bt_ok s"
  then show ?thesis
    unfolding jobs_claim_def Some option.case Let_def
    by (rule locked_reached) (intro safe_rules, auto intro: moves_claimed)
qed (simp add: jobs_claim_def returns_def)

lemma safe_renew: "bt_ok s \<Longrightarrow> reached s (snd (jobs_renew show_id cfg env ident nonce p s))"
  unfolding jobs_renew_def by (rule locked_reached) (assumption, intro safe_rules, auto intro: moves_renewed)

lemma safe_finish: "bt_ok s \<Longrightarrow> reached s (snd (jobs_finish show_id cfg env ident nonce state message n s))"
proof (cases "is_terminal state")
  case True
  assume "bt_ok s"
  then show ?thesis
    unfolding jobs_finish_def using True
    by (simp only: not_True_eq_False if_False)
      (rule locked_reached, assumption, intro safe_rules, auto intro!: moves_finish)
qed (simp add: jobs_finish_def returns_def)

lemma safe_cancel: "bt_ok s \<Longrightarrow> reached s (snd (jobs_cancel show_id cfg reg env caller ident force s))"
  unfolding jobs_cancel_def
  by (rule locked_reached, assumption, intro safe_rules) (auto intro: moves_cancelled)

lemma safe_resume: "bt_ok s \<Longrightarrow> reached s (snd (jobs_resume show_id cfg reg env caller ident s))"
  unfolding jobs_resume_def
  by (rule locked_reached, assumption, intro safe_rules) (auto intro: moves_resumed)

lemma safe_resume_after_restart:
  "bt_ok s \<Longrightarrow> reached s (snd (resume_after_restart show_id cfg reg env ident s))"
  unfolding resume_after_restart_def Let_def
  by (rule locked_reached, assumption, intro safe_rules) (auto intro: moves_resumed)

lemma safe_reconcile: "bt_ok s \<Longrightarrow> reached s (snd (reconcile show_id cfg reg env caller ident s))"
  unfolding reconcile_def
  by (rule locked_reached, assumption, intro safe_rules) (auto intro: moves_finish simp: is_terminal_def)

lemma save_each_saved:
  assumes "save_each show_id cfg env f rs l = (res, m)" and "saved_from s0 l"
    and "distinct (map jr_id rs)"
    and "\<forall>r\<in>set rs. bt_get (lk_store l) (jr_id r) = Some r \<and> moves r (f r)"
  shows "case res of Ok _ \<Rightarrow> saved_from s0 m | Err _ \<Rightarrow> reaches_from s0 m"
  using assms
proof (induction rs arbitrary: l res m)
  case (Cons r rs)
  obtain w u where save: "locked_save show_id cfg env (f r) l = (w, u)"
    by (cases "locked_save show_id cfg env (f r) l")
  have id: "jr_id (f r) = jr_id r" using Cons.prems(4) by (simp add: moves_def same_launch_def)
  have step: "case w of
      Ok v \<Rightarrow> saved_from s0 u \<and> v = (f r)\<lparr>jr_revision := jr_revision (f r) + 1\<rparr>
        \<and> u = l\<lparr>lk_records := replace_record v (lk_records l), lk_store := bt_insert (jr_id (f r)) v (lk_store l)\<rparr>
    | Err _ \<Rightarrow> reaches_from s0 u"
    using save_move [OF save Cons.prems(2), of r] Cons.prems(4) by simp
  show ?case
  proof (cases w)
    case (Inl e)
    then show ?thesis using Cons.prems(1) save step by (auto simp: and_next_def)
  next
    case (Inr v)
    then have u: "saved_from s0 u" "lk_store u = bt_insert (jr_id r) v (lk_store l)" using step id by auto
    obtain w' u' where rest: "save_each show_id cfg env f rs u = (w', u')"
      by (cases "save_each show_id cfg env f rs u")
    have "jr_id r \<notin> jr_id ` set rs" using Cons.prems(3) by simp
    then have "\<forall>x\<in>set rs. jr_id x \<noteq> jr_id r" by (metis image_eqI)
    then have "\<forall>x\<in>set rs. bt_get (lk_store u) (jr_id x) = Some x \<and> moves x (f x)"
      using Cons.prems(4) unfolding u(2) bt_get_insert by simp
    then have "case w' of Ok _ \<Rightarrow> saved_from s0 u' | Err _ \<Rightarrow> reaches_from s0 u'"
      using Cons.IH [OF rest u(1)] Cons.prems(3) by simp
    then show ?thesis
      using Cons.prems(1) save Inr rest by (auto simp: and_next_def returns_def split: sum.splits)
  qed
qed (auto simp: returns_def)

lemma safe_save_filter:
  assumes "\<And>r. p r \<Longrightarrow> moves r (f r)"
    and "\<And>v l res m. saved_from s0 l \<Longrightarrow> g v l = (res, m) \<Longrightarrow> reaches_from s0 m"
  shows "safe s0 (\<lambda>l. and_next (save_each show_id cfg env f (filter p (lk_records l))) g l)"
proof (rule safeI)
  fix l :: locked_records and res m
  let ?rs = "filter p (lk_records l)"
  assume l: "lk_ok l" "lk_store l = s0" and run: "and_next (save_each show_id cfg env f ?rs) g l = (res, m)"
  obtain w u where each: "save_each show_id cfg env f ?rs l = (w, u)" by (cases "save_each show_id cfg env f ?rs l")
  have "saved_from s0 l" using l by (simp add: saved_from_def)
  moreover have "distinct (map jr_id ?rs)" using l(1) by (simp add: lk_ok_def distinct_map_filter)
  moreover have "\<forall>r\<in>set ?rs. bt_get (lk_store l) (jr_id r) = Some r \<and> moves r (f r)"
    using l(1) assms(1) by (simp add: lk_ok_get)
  ultimately have "case w of Ok _ \<Rightarrow> saved_from s0 u | Err _ \<Rightarrow> reaches_from s0 u"
    by (rule save_each_saved [OF each])
  then show "reaches_from s0 m" using run each assms(2) by (auto simp: and_next_def split: sum.splits)
qed

lemma safe_interrupt_own: "bt_ok s \<Longrightarrow> reached s (snd (interrupt_own show_id cfg env before s))"
proof (cases "read_all show_id cfg env before")
  case (Inr rs)
  assume ok: "bt_ok s"
  let ?f = "\<lambda>l. save_each show_id cfg env (restarted (jc_host cfg) (je_now env))
      (filter (own_running (jc_host cfg)) (lk_records l)) l"
  have "safe s (\<lambda>l. and_next (save_each show_id cfg env (restarted (jc_host cfg) (je_now env))
      (filter (own_running (jc_host cfg)) (lk_records l))) (\<lambda>v. returns (Ok v)) l)"
    by (rule safe_save_filter) (auto simp: returns_def saved_reaches moves_restarted)
  then have "safe s ?f" by (simp only: and_next_returns_Ok)
  from locked_reached [OF ok this, of show_id cfg env] Inr show ?thesis by (simp add: interrupt_own_def Let_def)
qed (simp add: interrupt_own_def)

lemma safe_sweep: "bt_ok s \<Longrightarrow> reached s (snd (sweep show_id cfg env before s))"
proof (cases "read_all show_id cfg env before")
  case (Inr rs)
  assume ok: "bt_ok s"
  let ?stale = "is_stale cfg (je_now_before env)"
  have "safe s (\<lambda>l. and_next (save_each show_id cfg env (swept (je_now env)) (filter ?stale (lk_records l)))
      (\<lambda>v. and_next (locked_prune cfg env) (\<lambda>_. returns (Ok v))) l)"
    by (rule safe_save_filter) (auto intro: moves_swept prune_next_reached)
  from locked_reached [OF ok this, of show_id cfg env] Inr show ?thesis by (simp add: sweep_def Let_def)
qed (simp add: sweep_def)

lemma filter_map_Nil_iff: "filter_map f xs = [] \<longleftrightarrow> (\<forall>x\<in>set xs. f x = None)"
  by (induction xs) (auto split: option.splits)

lemma conflict_of_None_iff:
  "conflict_of rs wanted = None
   \<longleftrightarrow> (\<forall>r\<in>set rs. holds_locks r \<longrightarrow> (\<forall>a\<in>set wanted. \<forall>b\<in>set (jr_locks r). \<not> locks_conflict a b))"
proof (induction rs wanted rule: conflict_of.induct)
  case (2 r rs wanted)
  let ?hits = "filter_map (\<lambda>held. find (\<lambda>w. locks_conflict w held) wanted) (jr_locks r)"
  have "?hits = [] \<longleftrightarrow> (\<forall>a\<in>set wanted. \<forall>b\<in>set (jr_locks r). \<not> locks_conflict a b)"
    by (auto simp: filter_map_Nil_iff find_None_iff)
  with 2 show ?case by (cases ?hits) auto
qed simp

lemma check_conflicts_Ok_iff:
  "check_conflicts show_id rs wanted = Ok ()
   \<longleftrightarrow> (\<forall>r\<in>set rs. holds_locks r \<longrightarrow> (\<forall>a\<in>set wanted. \<forall>b\<in>set (jr_locks r). \<not> locks_conflict a b))"
  unfolding conflict_of_None_iff [symmetric] check_conflicts_def
  by (auto simp: Let_def split: option.splits prod.splits)

lemma safe_admit_locked: "safe s0 (admit_locked show_id cfg env caller launch op p)"
proof (rule safeI)
  fix l res m
  assume l: "lk_ok l" "lk_store l = s0" and run: "admit_locked show_id cfg env caller launch op p l = (res, m)"
  let ?key = "\<lambda>r. jr_user r = ca_user caller \<and> jr_idempotency_key r = lj_idempotency_key launch"
  let ?target = "and_then (quorate env) (resolve_target cfg env op (pr_summary p))"
  show "reaches_from s0 m"
  proof (cases "find ?key (lk_records l) = None \<and> is_ok ?target
      \<and> check_conflicts show_id (lk_records l) (pr_locks p) = Ok ()")
    case False
    then have "m = l"
      using run by (auto simp: admit_locked_def and_next_def returns_def is_ok_def
          split: option.splits if_splits sum.splits prod.splits)
    then show ?thesis using l by simp
  next
    case True
    then obtain target where target: "?target = Ok target" by (auto simp: is_ok_iff)
    let ?r = "new_record cfg env caller launch op p target"
    obtain w u where save: "locked_save show_id cfg env ?r l = (w, u)" by (cases "locked_save show_id cfg env ?r l")
    have "saved_from s0 l" using l by (simp add: saved_from_def)
    then have step: "case w of Ok v \<Rightarrow> saved_from s0 u
          \<and> v = ?r\<lparr>jr_revision := jr_revision ?r + 1\<rparr>
          \<and> u = l\<lparr>lk_records := replace_record v (lk_records l), lk_store := bt_insert (jr_id ?r) v (lk_store l)\<rparr>
        | Err _ \<Rightarrow> reaches_from s0 u"
    proof (rule save_step [OF save])
      fix found
      assume store: "lk_store u = bt_insert (jr_id ?r) (?r\<lparr>jr_revision := found + 1\<rparr>) (lk_store l)"
        and found: "jr_revision ?r = found" "bt_get (lk_store l) (jr_id ?r) \<noteq> None \<longrightarrow> 1 \<le> found"
      have "found = 0" using found(1) by (simp add: new_record_def)
      then have "bt_get (lk_store l) (jr_id ?r) = None" using found(2) by auto
      moreover have "\<forall>k q. bt_get (lk_store l) k = Some q \<longrightarrow> holds_locks q \<longrightarrow> \<not> overlap ?r q"
        using True l(1) by (auto simp: check_conflicts_Ok_iff overlap_def lk_ok_get new_record_def)
      moreover have "\<forall>k q. bt_get (lk_store l) k = Some q \<longrightarrow> launch_key q \<noteq> launch_key ?r"
        using True l(1) by (auto simp: find_None_iff launch_key_def lk_ok_get new_record_def)
      ultimately show "change (lk_store l) (lk_store u)"
        using change.added [of "lk_store l" "?r\<lparr>jr_revision := found + 1\<rparr>"] store
        by (simp add: overlap_def launch_key_def new_record_def)
    qed
    show ?thesis
      using run True target save step
      by (auto simp: admit_locked_def and_next_def [of "locked_save _ _ _ _"] split: sum.splits
          intro: prune_next_reached)
  qed
qed

lemma safe_admit:
  assumes "bt_ok s"
  shows "reached s (snd (jobs_admit show_id nt cfg reg env caller launch s))"
proof (cases "operation_of reg (lj_operation launch)")
  case (Inr op)
  show ?thesis
  proof (cases "prepare nt op (lj_parameters launch) (lj_dry_run launch)")
    case (Inr p)
    with \<open>operation_of reg _ = Ok op\<close> show ?thesis
      by (auto simp: jobs_admit_def intro: locked_reached [OF assms safe_admit_locked])
  qed (use Inr in \<open>simp add: jobs_admit_def\<close>)
qed (simp add: jobs_admit_def)

subsection \<open>Every host's operations\<close>

inductive job_step :: "(uuid \<Rightarrow> string) \<Rightarrow> ('f number \<Rightarrow> string) \<Rightarrow> 'ip itself \<Rightarrow> job_store \<Rightarrow> job_store \<Rightarrow> bool"
  for show_id nt ip where
  "job_step show_id nt ip s (snd (jobs_admit show_id nt cfg reg (env :: 'ip env) caller launch s))"
| "job_step show_id nt ip s (snd (jobs_claim show_id cfg (env :: 'ip env) ident s))"
| "job_step show_id nt ip s (snd (jobs_renew show_id cfg (env :: 'ip env) ident nonce p s))"
| "job_step show_id nt ip s (snd (jobs_finish show_id cfg (env :: 'ip env) ident nonce state message n s))"
| "job_step show_id nt ip s (snd (jobs_cancel show_id cfg (reg :: 'f registry) (env :: 'ip env) caller ident force s))"
| "job_step show_id nt ip s (snd (jobs_resume show_id cfg (reg :: 'f registry) (env :: 'ip env) caller ident s))"
| "job_step show_id nt ip s (snd (interrupt_own show_id cfg (env :: 'ip env) before s))"
| "job_step show_id nt ip s (snd (resume_after_restart show_id cfg (reg :: 'f registry) (env :: 'ip env) ident s))"
| "job_step show_id nt ip s (snd (reconcile show_id cfg (reg :: 'f registry) (env :: 'ip env) caller ident s))"
| "job_step show_id nt ip s (snd (sweep show_id cfg (env :: 'ip env) before s))"

lemma job_step_reached: "bt_ok s \<Longrightarrow> job_step show_id nt ip s t \<Longrightarrow> reached s t"
  by (erule job_step.cases) (auto intro: safe_admit safe_claim safe_renew safe_finish safe_cancel
      safe_resume safe_interrupt_own safe_resume_after_restart safe_reconcile safe_sweep)

end
