(* ===== verification/Notify_Alerts.thy ===== *)
theory Notify_Alerts
  imports Core_Ids Rust_BTree
begin

section \<open>Alerts\<close>

text \<open>
  Models src/v3/crates/bmacd/src/notify/alerts.rs, with \<^verbatim>\<open>Alert\<close>, \<^verbatim>\<open>AlertState\<close> and
  \<^verbatim>\<open>Silence\<close> of src/v3/crates/bmac-proto/src/alerts.rs and \<^verbatim>\<open>Condition\<close> of
  src/v3/crates/bmac-proto/src/status.rs: the book of alerts, and what evaluating the cluster's
  conditions, switching conditions off, acknowledging an alert and merging another host's book do
  to it. SHA-256 is a parameter. A string is its UTF-8 bytes, so a character starts at every byte
  that does not continue one.

  The specification is a map from the condition and resource of an alert to the alert: evaluating
  acts on each of them alone, whatever the order of the conditions of the others
  (\<open>evaluate_pointwise\<close>). At most one alert of a condition and resource is in the book in every
  reachable state (\<open>alerts_one_each\<close>), the alerts that are not resolved are those the conditions
  call for (\<open>evaluate_unresolved_iff\<close>), and evaluating the same conditions again reports nothing
  (\<open>evaluate_settles\<close>).
\<close>

datatype condition_severity = Info | Warning | Critical

instantiation condition_severity :: linorder
begin

fun condition_severity_rank :: "condition_severity \<Rightarrow> nat" where
  "condition_severity_rank Info = 0"
| "condition_severity_rank Warning = 1"
| "condition_severity_rank Critical = 2"

definition less_eq_condition_severity :: "condition_severity \<Rightarrow> condition_severity \<Rightarrow> bool" where
  "less_eq_condition_severity a b = (condition_severity_rank a \<le> condition_severity_rank b)"

definition less_condition_severity :: "condition_severity \<Rightarrow> condition_severity \<Rightarrow> bool" where
  "less_condition_severity a b = (condition_severity_rank a < condition_severity_rank b)"

instance
proof
  fix a b :: condition_severity
  assume "a \<le> b" "b \<le> a"
  then show "a = b"
    by (cases a; cases b) (simp_all add: less_eq_condition_severity_def)
qed (auto simp: less_eq_condition_severity_def less_condition_severity_def)

end

record next_step =
  ns_text :: string
  ns_operation :: "string option"
  ns_args :: "(string, string) btree"

record condition =
  cn_id :: string
  cn_resource :: string
  cn_severity :: condition_severity
  cn_message :: string
  cn_since_ms :: int
  cn_next_steps :: "next_step list"

datatype alert_state = AlertOpen | AlertAcknowledged | AlertResolved

record alert =
  al_id :: string
  al_condition :: string
  al_resource :: string
  al_host :: "host_slot option"
  al_severity :: condition_severity
  al_message :: string
  al_next_step :: "next_step option"
  al_state :: alert_state
  al_opened_ms :: int
  al_resolved_ms :: "int option"
  al_acknowledged_by :: "string option"
  al_acknowledged_ms :: "int option"
  al_generation :: u32
  al_notified_ms :: "int option"

record silence =
  sl_id :: string
  sl_condition :: "string option"
  sl_resource :: "string option"
  sl_host :: "host_slot option"
  sl_until_ms :: int
  sl_reason :: string
  sl_created_by :: string
  sl_created_ms :: int

definition REOPEN_MS :: int where
  "REOPEN_MS = 10 * 60000"

definition WARNING_HOLD_MS :: int where
  "WARNING_HOLD_MS = 5 * 60000"

definition HISTORY :: nat where
  "HISTORY = 2000"

definition MAX_MESSAGE :: nat where
  "MAX_MESSAGE = 300"

type_synonym book = "alert list"

datatype book_change =
    Opened (change_id: string) | Reopened (change_id: string)
  | Escalated (change_id: string) | Resolved (change_id: string)

definition host_of :: "string \<Rightarrow> host_slot option" where
  "host_of resource =
     (case host_slot_from_str (hd (split_on CHR ''/'' resource)) of Ok h \<Rightarrow> Some h | Err _ \<Rightarrow> None)"

definition condition_category :: "string \<Rightarrow> string" where
  "condition_category condition = hd (split_on CHR ''.'' condition)"

definition alert_id :: "(string \<Rightarrow> string) \<Rightarrow> string \<Rightarrow> string \<Rightarrow> int \<Rightarrow> string" where
  "alert_id sha256 condition resource opened_ms =
     concat (map (\<lambda>b. hex_fixed 2 (of_char b))
       (take 6 (sha256 (condition @ [CHR 0x00] @ resource @ [CHR 0x00] @ show_int opened_ms))))"

definition char_starts :: "string \<Rightarrow> nat list" where
  \<comment> \<open>the byte offsets of \<open>char_indices\<close>\<close>
  "char_starts s = filter (\<lambda>i. \<not> (CHR 0x80 \<le> s ! i \<and> s ! i \<le> CHR 0xBF)) [0..<length s]"

definition trimmed_message :: "string \<Rightarrow> string" where
  "trimmed_message message =
     (if MAX_MESSAGE < length (char_starts message)
      then take (char_starts message ! MAX_MESSAGE) message @ ''...'' else message)"

definition condition_due :: "condition \<Rightarrow> int \<Rightarrow> bool" where
  "condition_due c now_ms =
     (case cn_severity c of
        Critical \<Rightarrow> True
      | Warning \<Rightarrow> WARNING_HOLD_MS \<le> now_ms - cn_since_ms c
      | Info \<Rightarrow> False)"

subsection \<open>The book\<close>

definition book_get :: "book \<Rightarrow> string \<Rightarrow> alert option" where
  "book_get book i = find (\<lambda>a. al_id a = i) book"

definition alert_stale :: "int \<Rightarrow> alert \<Rightarrow> bool" where
  "alert_stale now_ms a =
     (al_state a = AlertResolved \<and> REOPEN_MS < now_ms - unwrap_or 0 (al_resolved_ms a))"

definition same_alert :: "condition \<Rightarrow> alert \<Rightarrow> bool" where
  "same_alert c a = (al_condition a = cn_id c \<and> al_resource a = cn_resource c)"

definition first_step :: "condition \<Rightarrow> next_step option" where
  "first_step c = (case cn_next_steps c of [] \<Rightarrow> None | s # _ \<Rightarrow> Some s)"

definition refresh_alert :: "condition \<Rightarrow> alert \<Rightarrow> alert" where
  \<comment> \<open>the alert is open or acknowledged\<close>
  "refresh_alert c a =
     (let a = a\<lparr>al_message := trimmed_message (cn_message c), al_next_step := first_step c\<rparr> in
      if al_severity a < cn_severity c
      then a\<lparr>al_severity := cn_severity c, al_generation := al_generation a + 1\<rparr>
      else a\<lparr>al_severity := cn_severity c\<rparr>)"

definition reopen_alert :: "condition \<Rightarrow> alert \<Rightarrow> alert" where
  "reopen_alert c a =
     a\<lparr>al_state := AlertOpen, al_resolved_ms := None, al_acknowledged_by := None,
       al_acknowledged_ms := None, al_severity := cn_severity c,
       al_message := trimmed_message (cn_message c), al_next_step := first_step c,
       al_generation := al_generation a + 1\<rparr>"

definition open_alert :: "(string \<Rightarrow> string) \<Rightarrow> int \<Rightarrow> condition \<Rightarrow> alert" where
  "open_alert sha256 now_ms c =
     \<lparr> al_id = alert_id sha256 (cn_id c) (cn_resource c) now_ms, al_condition = cn_id c,
       al_resource = cn_resource c, al_host = host_of (cn_resource c), al_severity = cn_severity c,
       al_message = trimmed_message (cn_message c), al_next_step = first_step c,
       al_state = AlertOpen, al_opened_ms = now_ms, al_resolved_ms = None,
       al_acknowledged_by = None, al_acknowledged_ms = None, al_generation = 1,
       al_notified_ms = None \<rparr>"

definition apply_condition ::
    "(string \<Rightarrow> string) \<Rightarrow> int \<Rightarrow> condition \<Rightarrow> book \<times> book_change list \<Rightarrow> book \<times> book_change list" where
  \<comment> \<open>one turn of the loop over the conditions that are due\<close>
  "apply_condition sha256 now_ms c = (\<lambda>(book, changes).
     case find (same_alert c) book of
       Some a \<Rightarrow>
         if al_state a \<noteq> AlertResolved
         then (update_first (same_alert c) (refresh_alert c) book,
               changes @ (if al_severity a < cn_severity c then [Escalated (al_id a)] else []))
         else (update_first (same_alert c) (reopen_alert c) book, changes @ [Reopened (al_id a)])
     | None \<Rightarrow>
         (book @ [open_alert sha256 now_ms c],
          changes @ [Opened (alert_id sha256 (cn_id c) (cn_resource c) now_ms)]))"

definition still_present :: "condition list \<Rightarrow> alert \<Rightarrow> bool" where
  "still_present conditions a = (\<exists>c\<in>set conditions. same_alert c a \<and> Warning \<le> cn_severity c)"

definition resolves :: "condition list \<Rightarrow> alert \<Rightarrow> bool" where
  "resolves conditions a = (al_state a \<noteq> AlertResolved \<and> \<not> still_present conditions a)"

definition resolve_alert :: "int \<Rightarrow> alert \<Rightarrow> alert" where
  "resolve_alert now_ms a = a\<lparr>al_state := AlertResolved, al_resolved_ms := Some now_ms\<rparr>"

definition book_evaluate ::
    "(string \<Rightarrow> string) \<Rightarrow> condition list \<Rightarrow> int \<Rightarrow> bool \<Rightarrow> book \<Rightarrow> book \<times> book_change list \<times> alert list" where
  "book_evaluate sha256 conditions now_ms may_resolve book =
     (let expired = filter (alert_stale now_ms) book;
          kept = filter (\<lambda>a. \<not> alert_stale now_ms a) book;
          (book, changes) = fold (apply_condition sha256 now_ms)
                              (filter (\<lambda>c. condition_due c now_ms) conditions) (kept, [])
      in if may_resolve
         then (map (\<lambda>a. if resolves conditions a then resolve_alert now_ms a else a) book,
               changes @ map (\<lambda>a. Resolved (al_id a)) (filter (resolves conditions) book), expired)
         else (book, changes, expired))"

definition pattern_matches :: "string \<Rightarrow> string \<Rightarrow> bool" where
  "pattern_matches pattern condition =
     (if ends_with ''.'' pattern then starts_with pattern condition else condition = pattern)"

definition switched_off :: "string list \<Rightarrow> string \<Rightarrow> bool" where
  "switched_off disabled condition = (\<exists>p\<in>set disabled. pattern_matches p condition)"

definition book_switch_off :: "string list \<Rightarrow> int \<Rightarrow> book \<Rightarrow> book" where
  "book_switch_off disabled now_ms =
     map (\<lambda>a. if al_state a \<noteq> AlertResolved \<and> switched_off disabled (al_condition a)
              then resolve_alert now_ms a else a)"

definition acknowledge_alert :: "string \<Rightarrow> int \<Rightarrow> alert \<Rightarrow> alert" where
  "acknowledge_alert by_whom now_ms a =
     a\<lparr>al_state := AlertAcknowledged, al_acknowledged_by := Some by_whom,
       al_acknowledged_ms := Some now_ms\<rparr>"

definition book_acknowledge ::
    "string \<Rightarrow> string \<Rightarrow> int \<Rightarrow> book \<Rightarrow> (string, alert) result \<times> book" where
  "book_acknowledge i by_whom now_ms book =
     (case book_get book i of
        None \<Rightarrow> (Err (''no open alert '' @ i), book)
      | Some a \<Rightarrow>
          (case al_state a of
             AlertOpen \<Rightarrow>
               (Ok (acknowledge_alert by_whom now_ms a),
                update_first (\<lambda>a. al_id a = i) (acknowledge_alert by_whom now_ms) book)
           | AlertAcknowledged \<Rightarrow> (Ok a, book)
           | AlertResolved \<Rightarrow> (Err (''alert '' @ i @ '' is already resolved''), book)))"

definition merge_alert :: "alert \<Rightarrow> book \<Rightarrow> book" where
  "merge_alert a book =
     (if \<exists>b\<in>set book. al_id b = al_id a
           \<or> (al_condition b = al_condition a \<and> al_resource b = al_resource a)
      then book else book @ [a])"

definition book_merge :: "book \<Rightarrow> book \<Rightarrow> book" where
  "book_merge local_book book = fold merge_alert local_book book"

definition archive :: "alert list \<Rightarrow> alert list \<Rightarrow> alert list" where
  \<comment> \<open>\<open>sort_by_key(Reverse(resolved_ms))\<close> is stable, and \<open>None\<close> sorts below every time\<close>
  "archive history expired =
     (if expired = [] then history
      else take HISTORY
        (sort_key (\<lambda>a. case al_resolved_ms a of None \<Rightarrow> (1::nat, 0) | Some t \<Rightarrow> (0, - t)) expired
         @ history))"

definition silenced :: "alert \<Rightarrow> silence list \<Rightarrow> int \<Rightarrow> bool" where
  "silenced a silences now_ms =
     (\<exists>s\<in>set silences. now_ms < sl_until_ms s
        \<and> (case sl_condition s of None \<Rightarrow> True | Some c \<Rightarrow> pattern_matches c (al_condition a))
        \<and> (case sl_resource s of None \<Rightarrow> True | Some r \<Rightarrow> al_resource a = r)
        \<and> (case sl_host s of None \<Rightarrow> True | Some h \<Rightarrow> al_host a = Some h))"

subsection \<open>The book as a map\<close>

definition alert_key :: "alert \<Rightarrow> string \<times> string" where
  "alert_key a = (al_condition a, al_resource a)"

definition condition_key :: "condition \<Rightarrow> string \<times> string" where
  "condition_key c = (cn_id c, cn_resource c)"

definition book_at :: "book \<Rightarrow> string \<times> string \<Rightarrow> alert option" where
  "book_at book k = find (\<lambda>a. alert_key a = k) book"

definition alert_after :: "(string \<Rightarrow> string) \<Rightarrow> int \<Rightarrow> condition \<Rightarrow> alert option \<Rightarrow> alert option" where
  \<comment> \<open>what a condition that is due makes of its alert\<close>
  "alert_after sha256 now_ms c x =
     (case x of
        None \<Rightarrow> Some (open_alert sha256 now_ms c)
      | Some a \<Rightarrow> Some (if al_state a \<noteq> AlertResolved then refresh_alert c a else reopen_alert c a))"

definition alert_evaluated ::
    "(string \<Rightarrow> string) \<Rightarrow> condition list \<Rightarrow> int \<Rightarrow> bool \<Rightarrow> string \<times> string \<Rightarrow> alert option \<Rightarrow> alert option" where
  "alert_evaluated sha256 conditions now_ms may_resolve k x =
     map_option (\<lambda>a. if may_resolve \<and> resolves conditions a then resolve_alert now_ms a else a)
       (fold (alert_after sha256 now_ms)
          (filter (\<lambda>c. condition_key c = k \<and> condition_due c now_ms) conditions)
          (option_filter (\<lambda>a. \<not> alert_stale now_ms a) x))"

lemma same_alert_key: "same_alert c a \<longleftrightarrow> alert_key a = condition_key c"
  by (auto simp: same_alert_def alert_key_def condition_key_def)

lemma alert_key_updates [simp]:
  "alert_key (refresh_alert c a) = alert_key a"
  "alert_key (reopen_alert c a) = alert_key a"
  "alert_key (resolve_alert now a) = alert_key a"
  "alert_key (acknowledge_alert w now a) = alert_key a"
  "alert_key (open_alert sha256 now c) = condition_key c"
  by (simp_all add: alert_key_def condition_key_def refresh_alert_def reopen_alert_def
      resolve_alert_def acknowledge_alert_def open_alert_def Let_def)

lemma book_at_in: "book_at book k = Some a \<Longrightarrow> a \<in> set book \<and> alert_key a = k"
  unfolding book_at_def by (drule find_SomeD) simp

lemma book_at_distinct:
  assumes "distinct (map alert_key book)" and "a \<in> set book"
  shows "book_at book (alert_key a) = Some a"
proof (cases "book_at book (alert_key a)")
  case None
  with assms(2) show ?thesis by (auto simp: book_at_def find_None_iff)
next
  case (Some b)
  then have "b \<in> set book" "alert_key b = alert_key a" using book_at_in by blast+
  with assms have "b = a" by (auto simp: distinct_map dest: inj_onD)
  with Some show ?thesis by simp
qed

subsection \<open>Evaluating acts on each alert alone\<close>

lemma apply_condition_at:
  "book_at (fst (apply_condition sha256 now c s)) k =
     (if condition_key c = k then alert_after sha256 now c (book_at (fst s) k) else book_at (fst s) k)"
proof -
  obtain book changes where s: "s = (book, changes)" by (cases s)
  have key: "same_alert c = (\<lambda>a. alert_key a = condition_key c)"
    by (simp add: same_alert_key fun_eq_iff)
  have other: "find (\<lambda>a. alert_key a = k) (update_first (\<lambda>a. alert_key a = condition_key c) f book)
      = find (\<lambda>a. alert_key a = k) book"
    if "condition_key c \<noteq> k" "\<And>a. alert_key (f a) = alert_key a" for f
    by (rule find_update_other) (use that in auto)
  show ?thesis
  proof (cases "find (same_alert c) book")
    case None
    then show ?thesis
      by (auto simp: s apply_condition_def book_at_def alert_after_def find_append key or_else_def
          split: option.splits)
  next
    case (Some a)
    then show ?thesis
      by (auto simp: s apply_condition_def book_at_def alert_after_def key find_update_same other)
  qed
qed

lemma apply_conditions_at:
  "book_at (fst (fold (apply_condition sha256 now) cs s)) k =
     fold (alert_after sha256 now) (filter (\<lambda>c. condition_key c = k) cs) (book_at (fst s) k)"
  by (induction cs arbitrary: s) (simp_all add: apply_condition_at)

lemma book_evaluate_fst:
  "fst (book_evaluate sha256 conditions now may_resolve book) =
     map (\<lambda>a. if may_resolve \<and> resolves conditions a then resolve_alert now a else a)
       (fst (fold (apply_condition sha256 now) (filter (\<lambda>c. condition_due c now) conditions)
          (filter (\<lambda>a. \<not> alert_stale now a) book, [])))"
  by (simp add: book_evaluate_def Let_def split: prod.split)

lemma kept_at:
  assumes "distinct (map alert_key book)"
  shows "book_at (filter (\<lambda>a. \<not> alert_stale now a) book) k
     = option_filter (\<lambda>a. \<not> alert_stale now a) (book_at book k)"
  unfolding book_at_def by (rule find_filter_distinct [OF assms])

lemma evaluated_at:
  assumes "distinct (map alert_key book)"
  shows "book_at (fst (book_evaluate sha256 conditions now may_resolve book)) k =
     alert_evaluated sha256 conditions now may_resolve k (book_at book k)"
proof -
  have resolved: "book_at (map (\<lambda>a. if may_resolve \<and> resolves conditions a then resolve_alert now a else a) b) k
      = map_option (\<lambda>a. if may_resolve \<and> resolves conditions a then resolve_alert now a else a) (book_at b k)"
    for b
    unfolding book_at_def by (rule find_map_same) simp
  show ?thesis
    unfolding book_evaluate_fst resolved apply_conditions_at alert_evaluated_def
    by (simp add: kept_at [OF assms] conj_commute)
qed

subsection \<open>What every alert of the book satisfies\<close>

definition alert_ok :: "(string \<Rightarrow> string) \<Rightarrow> alert \<Rightarrow> bool" where
  "alert_ok sha256 a =
     ((al_state a = AlertResolved) = (al_resolved_ms a \<noteq> None)
      \<and> (al_state a \<noteq> AlertOpen \<or> al_acknowledged_by a = None)
      \<and> (al_state a \<noteq> AlertAcknowledged \<or> al_acknowledged_by a \<noteq> None)
      \<and> Warning \<le> al_severity a
      \<and> al_host a = host_of (al_resource a)
      \<and> al_id a = alert_id sha256 (al_condition a) (al_resource a) (al_opened_ms a)
      \<and> length (char_starts (al_message a)) \<le> MAX_MESSAGE + 3)"

definition book_ok :: "(string \<Rightarrow> string) \<Rightarrow> book \<Rightarrow> bool" where
  "book_ok sha256 book = (distinct (map alert_key book) \<and> list_all (alert_ok sha256) book)"

lemma char_starts_append:
  "char_starts (s @ t) = char_starts s @ map (\<lambda>i. length s + i) (char_starts t)"
proof -
  have "map (\<lambda>i. length s + i) [0..<length t] = [length s..<length s + length t]"
    using map_add_upt [of "length s" "length t"] by (simp add: add.commute)
  then have "[0..<length (s @ t)] = [0..<length s] @ map (\<lambda>i. length s + i) [0..<length t]"
    using upt_add_eq_append [of 0 "length s" "length t"] by simp
  then have "char_starts (s @ t) =
      filter (\<lambda>i. \<not> (CHR 0x80 \<le> (s @ t) ! i \<and> (s @ t) ! i \<le> CHR 0xBF)) [0..<length s]
      @ filter (\<lambda>i. \<not> (CHR 0x80 \<le> (s @ t) ! i \<and> (s @ t) ! i \<le> CHR 0xBF))
          (map (\<lambda>i. length s + i) [0..<length t])"
    unfolding char_starts_def by (metis filter_append)
  also have "filter (\<lambda>i. \<not> (CHR 0x80 \<le> (s @ t) ! i \<and> (s @ t) ! i \<le> CHR 0xBF)) [0..<length s]
      = char_starts s"
    unfolding char_starts_def by (rule filter_cong) (simp_all add: nth_append)
  also have "filter (\<lambda>i. \<not> (CHR 0x80 \<le> (s @ t) ! i \<and> (s @ t) ! i \<le> CHR 0xBF))
      (map (\<lambda>i. length s + i) [0..<length t]) = map (\<lambda>i. length s + i) (char_starts t)"
    unfolding char_starts_def List.filter_map o_def by (simp add: nth_append)
  finally show ?thesis .
qed

lemma filter_upt_nth:
  assumes "k < length (filter P [0..<n])"
  shows "length (filter P [0..<filter P [0..<n] ! k]) = k" and "filter P [0..<n] ! k < n"
proof -
  define p where "p = filter P [0..<n] ! k"
  have "p \<in> set (filter P [0..<n])" unfolding p_def using assms by (rule nth_mem)
  then have p: "p < n" "P p" by auto
  have "[0..<n] = [0..<p] @ p # [Suc p..<n]"
    using p(1) upt_add_eq_append [of 0 p "n - p"] upt_conv_Cons [of p n] by simp
  then have split: "filter P [0..<n] = filter P [0..<p] @ p # filter P [Suc p..<n]"
    using p(2) by simp
  have "filter P [0..<n] ! length (filter P [0..<p]) = filter P [0..<n] ! k"
    unfolding p_def [symmetric] by (subst split) (simp add: nth_append)
  moreover have "length (filter P [0..<p]) < length (filter P [0..<n])" using split by simp
  ultimately have "length (filter P [0..<p]) = k"
    using assms nth_eq_iff_index_eq [OF distinct_filter [OF distinct_upt]] by blast
  then show "length (filter P [0..<filter P [0..<n] ! k]) = k" "filter P [0..<n] ! k < n"
    using p(1) by (simp_all add: p_def)
qed

lemma trimmed_message_short: "length (char_starts (trimmed_message m)) \<le> MAX_MESSAGE + 3"
proof (cases "MAX_MESSAGE < length (char_starts m)")
  case True
  let ?p = "char_starts m ! MAX_MESSAGE"
  note bounds = filter_upt_nth [OF True [unfolded char_starts_def], folded char_starts_def]
  have "char_starts (take ?p m) = filter (\<lambda>i. \<not> (CHR 0x80 \<le> m ! i \<and> m ! i \<le> CHR 0xBF)) [0..<?p]"
    unfolding char_starts_def [of "take ?p m"] using bounds(2) by (auto intro: filter_cong)
  then have "length (char_starts (take ?p m)) = MAX_MESSAGE" using bounds(1) by simp
  moreover have "length (char_starts ''...'') \<le> 3"
    using length_filter_le by (simp add: char_starts_def le_trans)
  ultimately show ?thesis using True by (simp add: trimmed_message_def char_starts_append)
qed (simp add: trimmed_message_def)

lemma condition_due_severe: "condition_due c now \<Longrightarrow> Warning \<le> cn_severity c"
  by (cases "cn_severity c") (simp_all add: condition_due_def less_eq_condition_severity_def)

lemma alert_ok_updates:
  "alert_ok sha256 a \<Longrightarrow> al_state a \<noteq> AlertResolved \<Longrightarrow> Warning \<le> cn_severity c
     \<Longrightarrow> alert_ok sha256 (refresh_alert c a)"
  "alert_ok sha256 a \<Longrightarrow> Warning \<le> cn_severity c \<Longrightarrow> alert_ok sha256 (reopen_alert c a)"
  "alert_ok sha256 a \<Longrightarrow> alert_ok sha256 (resolve_alert now a)"
  "alert_ok sha256 a \<Longrightarrow> al_state a = AlertOpen \<Longrightarrow> alert_ok sha256 (acknowledge_alert w now a)"
  "Warning \<le> cn_severity c \<Longrightarrow> alert_ok sha256 (open_alert sha256 now c)"
  "alert_ok sha256 a \<Longrightarrow> alert_ok sha256 (a\<lparr>al_notified_ms := t\<rparr>)"
  by (auto simp: alert_ok_def refresh_alert_def reopen_alert_def resolve_alert_def
      acknowledge_alert_def open_alert_def Let_def trimmed_message_short)

lemma apply_condition_ok:
  assumes "book_ok sha256 (fst s)" and "Warning \<le> cn_severity c"
  shows "book_ok sha256 (fst (apply_condition sha256 now c s))"
proof -
  obtain book changes where s: "s = (book, changes)" by (cases s)
  note ok = assms(1) [unfolded s fst_conv book_ok_def]
  have keys: "map alert_key (update_first p f book) = map alert_key book"
    if "\<And>a. alert_key (f a) = alert_key a" for p f
    by (rule map_update_first) (rule that)
  show ?thesis
  proof (cases "find (same_alert c) book")
    case None
    then have "condition_key c \<notin> set (map alert_key book)"
      by (auto simp: find_None_iff same_alert_key)
    with None ok show ?thesis
      by (simp add: s apply_condition_def book_ok_def alert_ok_updates assms(2))
  next
    case (Some a)
    show ?thesis
    proof (cases "al_state a = AlertResolved")
      case True
      have "list_all (alert_ok sha256) (update_first (same_alert c) (reopen_alert c) book)"
        by (rule update_first_all) (use ok assms(2) in \<open>auto intro: alert_ok_updates\<close>)
      with True Some ok show ?thesis by (simp add: s apply_condition_def book_ok_def keys)
    next
      case False
      have "list_all (alert_ok sha256) (update_first (same_alert c) (refresh_alert c) book)"
        by (rule update_first_all) (use ok Some False assms(2) in \<open>auto intro: alert_ok_updates\<close>)
      with False Some ok show ?thesis by (simp add: s apply_condition_def book_ok_def keys)
    qed
  qed
qed

lemma fold_ok:
  assumes "I (fst s)" and "\<And>c s. c \<in> set cs \<Longrightarrow> I (fst s) \<Longrightarrow> I (fst (f c s))"
  shows "I (fst (fold f cs s))"
  using assms by (induction cs arbitrary: s) auto

lemma book_map_ok:
  fixes f :: "alert \<Rightarrow> alert"
  assumes "book_ok sha256 book" and "\<And>a. a \<in> set book \<Longrightarrow> alert_ok sha256 a \<Longrightarrow> alert_ok sha256 (f a)"
    and "\<And>a. alert_key (f a) = alert_key a"
  shows "book_ok sha256 (map f book)"
proof -
  have "map alert_key (map f book) = map alert_key book" using assms(3) by simp
  moreover have "list_all (alert_ok sha256) (map f book)"
    using assms(1,2) by (simp add: book_ok_def list_all_iff)
  ultimately show ?thesis using assms(1) unfolding book_ok_def by metis
qed

lemma evaluate_ok:
  assumes "book_ok sha256 book"
  shows "book_ok sha256 (fst (book_evaluate sha256 conditions now may_resolve book))"
proof -
  have "book_ok sha256 (filter (\<lambda>a. \<not> alert_stale now a) book)"
    using assms by (auto simp: book_ok_def list_all_iff distinct_map_filter)
  then have "book_ok sha256 (fst (fold (apply_condition sha256 now)
      (filter (\<lambda>c. condition_due c now) conditions) (filter (\<lambda>a. \<not> alert_stale now a) book, [])))"
    by (intro fold_ok [where I = "book_ok sha256"])
      (simp, metis apply_condition_ok condition_due_severe mem_Collect_eq set_filter)
  then show ?thesis
    unfolding book_evaluate_fst by (rule book_map_ok) (auto intro: alert_ok_updates)
qed

lemma switch_off_ok: "book_ok sha256 book \<Longrightarrow> book_ok sha256 (book_switch_off disabled now book)"
  unfolding book_switch_off_def by (rule book_map_ok) (auto intro: alert_ok_updates)

lemma acknowledge_ok:
  assumes "book_ok sha256 book"
  shows "book_ok sha256 (snd (book_acknowledge i w now book))"
proof (cases "book_get book i")
  case (Some a)
  show ?thesis
  proof (cases "al_state a")
    case AlertOpen
    have "list_all (alert_ok sha256) (update_first (\<lambda>a. al_id a = i) (acknowledge_alert w now) book)"
      by (rule update_first_all)
        (use assms Some AlertOpen in \<open>auto simp: book_ok_def book_get_def intro: alert_ok_updates\<close>)
    with assms Some AlertOpen show ?thesis
      by (simp add: book_acknowledge_def book_ok_def map_update_first)
  qed (use assms Some in \<open>simp_all add: book_acknowledge_def\<close>)
qed (use assms in \<open>simp add: book_acknowledge_def\<close>)

lemma merge_alert_ok:
  "alert_ok sha256 a \<Longrightarrow> book_ok sha256 book \<Longrightarrow> book_ok sha256 (merge_alert a book)"
  by (auto simp: merge_alert_def book_ok_def alert_key_def)

lemma merge_ok:
  assumes "list_all (alert_ok sha256) local_book" and "book_ok sha256 book"
  shows "book_ok sha256 (book_merge local_book book)"
  using assms unfolding book_merge_def
  by (induction local_book arbitrary: book) (simp_all add: merge_alert_ok)

subsection \<open>Which alerts are not resolved\<close>

definition unresolved :: "alert option \<Rightarrow> bool" where
  "unresolved x = is_some_and (\<lambda>a. al_state a \<noteq> AlertResolved) x"

definition condition_keyed :: "condition list \<Rightarrow> string \<times> string \<Rightarrow> condition list" where
  "condition_keyed conditions k = filter (\<lambda>c. condition_key c = k) conditions"

lemma alert_after_unresolved [simp]: "unresolved (alert_after sha256 now c x)"
  by (auto simp: unresolved_def alert_after_def open_alert_def reopen_alert_def refresh_alert_def
      Let_def split: option.splits)

lemma fold_alert_after_unresolved:
  "unresolved (fold (alert_after sha256 now) cs x) \<longleftrightarrow> cs \<noteq> [] \<or> unresolved x"
  by (induction cs arbitrary: x) simp_all

lemma unresolved_kept: "unresolved (option_filter (\<lambda>a. \<not> alert_stale now a) x) \<longleftrightarrow> unresolved x"
  by (cases x) (auto simp: unresolved_def alert_stale_def)

lemma alert_after_key:
  assumes "condition_key c = k" and "\<And>a. x = Some a \<Longrightarrow> alert_key a = k"
    and "alert_after sha256 now c x = Some a"
  shows "alert_key a = k"
  using assms by (auto simp: alert_after_def split: option.splits if_splits)

lemma fold_alert_after_key:
  assumes "\<And>c. c \<in> set cs \<Longrightarrow> condition_key c = k" and "\<And>a. x = Some a \<Longrightarrow> alert_key a = k"
    and "fold (alert_after sha256 now) cs x = Some a"
  shows "alert_key a = k"
  using assms
proof (induction cs arbitrary: x)
  case (Cons c cs)
  from Cons.prems(3) have "fold (alert_after sha256 now) cs (alert_after sha256 now c x) = Some a"
    by simp
  moreover have "\<And>b. alert_after sha256 now c x = Some b \<Longrightarrow> alert_key b = k"
    using alert_after_key Cons.prems(1,2) by (metis list.set_intros(1))
  ultimately show ?case using Cons.IH Cons.prems(1) by (meson list.set_intros(2))
qed simp

lemma still_present_key:
  "still_present conditions a \<longleftrightarrow> (\<exists>c\<in>set (condition_keyed conditions (alert_key a)). Warning \<le> cn_severity c)"
  unfolding still_present_def condition_keyed_def same_alert_key by (auto simp: eq_commute)

lemma evaluated_unresolved:
  assumes "\<And>a. x = Some a \<Longrightarrow> alert_key a = k"
  shows "unresolved (alert_evaluated sha256 conditions now may_resolve k x) \<longleftrightarrow>
     (\<exists>c\<in>set (condition_keyed conditions k). condition_due c now)
     \<or> (unresolved x \<and> (may_resolve \<longrightarrow> (\<exists>c\<in>set (condition_keyed conditions k). Warning \<le> cn_severity c)))"
proof -
  define y where "y = fold (alert_after sha256 now)
      (filter (\<lambda>c. condition_key c = k \<and> condition_due c now) conditions)
      (option_filter (\<lambda>a. \<not> alert_stale now a) x)"
  have y: "unresolved y \<longleftrightarrow> (\<exists>c\<in>set (condition_keyed conditions k). condition_due c now) \<or> unresolved x"
    unfolding y_def fold_alert_after_unresolved unresolved_kept
    by (auto simp: condition_keyed_def filter_empty_conv)
  have key: "alert_key a = k" if "y = Some a" for a
    using that unfolding y_def by (rule fold_alert_after_key [rotated 2]) (auto dest: assms)
  have "unresolved (alert_evaluated sha256 conditions now may_resolve k x) \<longleftrightarrow>
      unresolved y \<and> (may_resolve \<longrightarrow> (\<exists>c\<in>set (condition_keyed conditions k). Warning \<le> cn_severity c))"
  proof (cases y)
    case (Some a)
    with key have "alert_key a = k" by simp
    with Some show ?thesis
      unfolding alert_evaluated_def y_def [symmetric]
      by (auto simp: unresolved_def resolves_def resolve_alert_def still_present_key)
  qed (simp add: alert_evaluated_def y_def [symmetric] unresolved_def)
  with y show ?thesis using condition_due_severe by blast
qed

subsection \<open>Nothing is reported twice\<close>

lemma filter_keyed_single:
  assumes "distinct (map g xs)" and "c \<in> set xs" and "P c"
  shows "filter (\<lambda>x. g x = g c \<and> P x) xs = [c]"
  using assms
proof (induction xs)
  case (Cons x xs)
  show ?case
  proof (cases "x = c")
    case True
    with Cons.prems(1) have "\<forall>y\<in>set xs. g y \<noteq> g c"
      by (metis distinct.simps(2) image_eqI list.set_map list.simps(9))
    then have "filter (\<lambda>x. g x = g c \<and> P x) xs = []" by (simp add: filter_empty_conv)
    with True Cons.prems(3) show ?thesis by simp
  next
    case False
    with Cons.prems have "c \<in> set xs" "distinct (map g xs)" "g x \<noteq> g c" by auto
    with Cons.IH Cons.prems(3) show ?thesis by simp
  qed
qed simp

lemma alert_after_severity:
  "\<exists>a. alert_after sha256 now c x = Some a \<and> al_state a \<noteq> AlertResolved \<and> al_severity a = cn_severity c"
  by (cases x) (auto simp: alert_after_def open_alert_def reopen_alert_def refresh_alert_def Let_def)

lemma evaluated_severity:
  assumes "distinct (map alert_key book)" and "distinct (map condition_key conditions)"
    and c: "c \<in> set conditions" "condition_due c now"
  shows "\<exists>a. book_at (fst (book_evaluate sha256 conditions now may_resolve book)) (condition_key c) = Some a
     \<and> al_state a \<noteq> AlertResolved \<and> al_severity a = cn_severity c"
proof -
  have "filter (\<lambda>d. condition_key d = condition_key c \<and> condition_due d now) conditions = [c]"
    by (rule filter_keyed_single [OF assms(2)]) (use c in auto)
  then obtain a where a: "fold (alert_after sha256 now)
        (filter (\<lambda>d. condition_key d = condition_key c \<and> condition_due d now) conditions)
        (option_filter (\<lambda>a. \<not> alert_stale now a) (book_at book (condition_key c))) = Some a"
      "al_state a \<noteq> AlertResolved" "al_severity a = cn_severity c"
    using alert_after_severity [of sha256 now c] by auto
  have "alert_key a = condition_key c"
    using a(1) by (rule fold_alert_after_key [rotated 2]) (auto dest: book_at_in)
  with c have "\<not> resolves conditions a"
    by (auto simp: resolves_def still_present_def same_alert_key intro: condition_due_severe)
  with a show ?thesis unfolding evaluated_at [OF assms(1)] alert_evaluated_def by simp
qed

lemma apply_condition_silent:
  assumes "book_at (fst s) (condition_key c) = Some a" and "al_state a \<noteq> AlertResolved"
    and "cn_severity c \<le> al_severity a"
  shows "snd (apply_condition sha256 now c s) = snd s"
proof -
  obtain book changes where s: "s = (book, changes)" by (cases s)
  have "find (same_alert c) book = Some a"
    using assms(1) unfolding s book_at_def fst_conv by (simp add: same_alert_key [abs_def])
  with assms(2,3) show ?thesis by (simp add: s apply_condition_def)
qed

lemma apply_conditions_silent:
  assumes "distinct (map condition_key cs)"
    and "\<And>c. c \<in> set cs \<Longrightarrow> \<exists>a. book_at (fst s) (condition_key c) = Some a
           \<and> al_state a \<noteq> AlertResolved \<and> al_severity a = cn_severity c"
  shows "snd (fold (apply_condition sha256 now) cs s) = snd s"
  using assms
proof (induction cs arbitrary: s)
  case (Cons c cs)
  let ?t = "apply_condition sha256 now c s"
  have "snd ?t = snd s"
    using Cons.prems(2) [of c] apply_condition_silent [of s c] by auto
  moreover have "\<exists>a. book_at (fst ?t) (condition_key d) = Some a
      \<and> al_state a \<noteq> AlertResolved \<and> al_severity a = cn_severity d" if "d \<in> set cs" for d
  proof -
    have "condition_key d \<noteq> condition_key c" using that Cons.prems(1) by (auto simp: image_iff)
    then show ?thesis using Cons.prems(2) [of d] that by (simp add: apply_condition_at)
  qed
  ultimately show ?case using Cons.IH [of ?t] Cons.prems(1) by simp
qed simp

lemma evaluated_present:
  \<comment> \<open>a host that may resolve leaves no alert whose condition is gone\<close>
  assumes "distinct (map alert_key book)"
    and "unresolved (book_at (fst (book_evaluate sha256 conditions now True book)) k)"
  shows "\<exists>c\<in>set (condition_keyed conditions k). Warning \<le> cn_severity c"
proof -
  have "alert_key b = k" if "book_at book k = Some b" for b using that book_at_in by blast
  then have "unresolved (alert_evaluated sha256 conditions now True k (book_at book k)) \<longleftrightarrow>
      (\<exists>c\<in>set (condition_keyed conditions k). condition_due c now)
      \<or> (unresolved (book_at book k) \<and> (True \<longrightarrow> (\<exists>c\<in>set (condition_keyed conditions k). Warning \<le> cn_severity c)))"
    by (rule evaluated_unresolved)
  then show ?thesis using assms(2) condition_due_severe unfolding evaluated_at [OF assms(1)] by blast
qed

lemma applied_present:
  \<comment> \<open>applying the conditions that are due to such a book keeps it so\<close>
  assumes "book_ok sha256 kept" and "set cs \<subseteq> {c \<in> set conditions. condition_due c later}"
    and "\<And>k. unresolved (book_at kept k) \<Longrightarrow> \<exists>c\<in>set (condition_keyed conditions k). Warning \<le> cn_severity c"
    and a: "a \<in> set (fst (fold (apply_condition sha256 later) cs (kept, changes)))"
  shows "\<not> resolves conditions a"
proof (rule ccontr)
  let ?t = "fold (apply_condition sha256 later) cs (kept, changes)"
  assume "\<not> \<not> resolves conditions a"
  then have res: "al_state a \<noteq> AlertResolved" "\<not> still_present conditions a"
    by (simp_all add: resolves_def)
  have "book_ok sha256 (fst ?t)"
    by (rule fold_ok [where I = "book_ok sha256"])
      (use assms(1,2) in \<open>auto intro: apply_condition_ok condition_due_severe\<close>)
  then have "book_at (fst ?t) (alert_key a) = Some a"
    using a by (intro book_at_distinct) (simp_all add: book_ok_def)
  with res(1) have "unresolved (book_at (fst ?t) (alert_key a))" by (simp add: unresolved_def)
  then have "filter (\<lambda>c. condition_key c = alert_key a) cs \<noteq> [] \<or> unresolved (book_at kept (alert_key a))"
    unfolding apply_conditions_at fold_alert_after_unresolved fst_conv .
  then show False
  proof
    assume "filter (\<lambda>c. condition_key c = alert_key a) cs \<noteq> []"
    then obtain c where "c \<in> set conditions" "condition_key c = alert_key a" "condition_due c later"
      using assms(2) by (auto simp: filter_empty_conv)
    then show False using res(2) condition_due_severe by (auto simp: still_present_key condition_keyed_def)
  next
    assume "unresolved (book_at kept (alert_key a))"
    then show False using res(2) assms(3) unfolding still_present_key by blast
  qed
qed

lemma kept_ok: "book_ok sha256 book \<Longrightarrow> book_ok sha256 (filter p book)"
  by (auto simp: book_ok_def list_all_iff distinct_map_filter)

lemma book_evaluate_changes:
  "fst (snd (book_evaluate sha256 conditions now may_resolve book)) =
     (let s = fold (apply_condition sha256 now) (filter (\<lambda>c. condition_due c now) conditions)
                (filter (\<lambda>a. \<not> alert_stale now a) book, [])
      in snd s @ (if may_resolve
                  then map (\<lambda>a. Resolved (al_id a)) (filter (resolves conditions) (fst s)) else []))"
  by (simp add: book_evaluate_def Let_def split: prod.split)

text \<open>
  C33: The book is a map from a condition and its resource to the alert, and evaluating the
  conditions acts on each entry alone: an alert resolved more than ten minutes ago leaves; each
  condition of that resource that is due opens the alert, reopens it with its old identity, or
  refreshes it, counting a new generation when the severity rises; and when the host may resolve,
  an alert whose condition is gone is resolved. The conditions of other resources, and the order
  among them, make no difference.
\<close>

theorem evaluate_pointwise:
  assumes "book_ok sha256 book"
  shows "book_at (fst (book_evaluate sha256 conditions now may_resolve book)) k =
     map_option (\<lambda>a. if may_resolve \<and> resolves conditions a then resolve_alert now a else a)
       (fold (alert_after sha256 now)
          (filter (\<lambda>c. condition_key c = k \<and> condition_due c now) conditions)
          (option_filter (\<lambda>a. \<not> alert_stale now a) (book_at book k)))"
  using evaluated_at assms unfolding book_ok_def alert_evaluated_def by blast

definition example_condition :: condition where
  "example_condition =
     \<lparr> cn_id = ''zfs.pool.member'', cn_resource = ''cluster'', cn_severity = Critical,
       cn_message = ''degraded'', cn_since_ms = 0, cn_next_steps = [] \<rparr>"

lemma book_ok_empty: "book_ok sha256 []"
  by (simp add: book_ok_def)

theorem evaluate_pointwise_witness:
  "book_at (fst (book_evaluate (\<lambda>_. ''abcdef'') [example_condition] 1000 True [])) (''zfs.pool.member'', ''cluster'') =
     Some (open_alert (\<lambda>_. ''abcdef'') 1000 example_condition)"
  using evaluate_pointwise [OF book_ok_empty, of "\<lambda>_. ''abcdef''" "[example_condition]" 1000 True
      "(''zfs.pool.member'', ''cluster'')"]
  by (simp add: book_at_def example_condition_def condition_key_def condition_due_def alert_after_def
      resolves_def still_present_def same_alert_def open_alert_def less_eq_condition_severity_def)

text \<open>
  After an evaluation an alert is open or acknowledged for exactly the conditions and resources
  that have a condition that is due now (critical, or a warning held for five minutes), and those
  whose alert was open or acknowledged before and, when the host may resolve, still has a condition
  at warning or above.
\<close>

lemma evaluate_unresolved_iff:
  assumes "book_ok sha256 book"
  shows "unresolved (book_at (fst (book_evaluate sha256 conditions now may_resolve book)) k) \<longleftrightarrow>
     list_ex (\<lambda>c. condition_due c now) (condition_keyed conditions k)
     \<or> (unresolved (book_at book k)
        \<and> (\<not> may_resolve \<or> list_ex (\<lambda>c. Warning \<le> cn_severity c) (condition_keyed conditions k)))"
proof -
  have "distinct (map alert_key book)" using assms by (simp add: book_ok_def)
  note at = evaluated_at [OF this]
  have "alert_key a = k" if "book_at book k = Some a" for a using that book_at_in by blast
  from evaluated_unresolved [of "book_at book k", OF this] show ?thesis
    unfolding at list_ex_iff by blast
qed

lemma evaluate_unresolved_iff_witness:
  "unresolved (book_at (fst (book_evaluate (\<lambda>_. ''abcdef'') [example_condition] 1000 True []))
     (''zfs.pool.member'', ''cluster''))"
  using evaluate_unresolved_iff [OF book_ok_empty, of "\<lambda>_. ''abcdef''" "[example_condition]" 1000 True
      "(''zfs.pool.member'', ''cluster'')"]
  by (simp add: example_condition_def condition_keyed_def condition_key_def condition_due_def)

text \<open>
  C34: An evaluation reports nothing the one before it reported: with the same conditions, one for
  each resource and kind, none of which has come due since, evaluating again opens, reopens,
  escalates and resolves nothing.
\<close>

theorem evaluate_settles:
  assumes "book_ok sha256 book" and "distinct (map condition_key conditions)"
    and "filter (\<lambda>c. condition_due c later) conditions = filter (\<lambda>c. condition_due c now) conditions"
  shows "fst (snd (book_evaluate sha256 conditions later may_resolve
           (fst (book_evaluate sha256 conditions now True book)))) = []"
proof -
  define book1 where "book1 = fst (book_evaluate sha256 conditions now True book)"
  define kept where "kept = filter (\<lambda>a. \<not> alert_stale later a) book1"
  define cs where "cs = filter (\<lambda>c. condition_due c later) conditions"
  define t where "t = fold (apply_condition sha256 later) cs (kept, [])"
  have ok1: "book_ok sha256 book1" unfolding book1_def by (rule evaluate_ok [OF assms(1)])
  have dist: "distinct (map alert_key book)" "distinct (map alert_key book1)"
    using assms(1) ok1 by (simp_all add: book_ok_def)
  note kept = kept_at [OF dist(2), of later, folded kept_def]
  have "snd t = []" unfolding t_def
  proof (subst apply_conditions_silent)
    show "distinct (map condition_key cs)" unfolding cs_def by (rule distinct_map_filter [OF assms(2)])
    show "\<exists>a. book_at (fst (kept, [])) (condition_key c) = Some a
        \<and> al_state a \<noteq> AlertResolved \<and> al_severity a = cn_severity c" if "c \<in> set cs" for c
    proof -
      have "c \<in> set conditions" "condition_due c now" using that assms(3) unfolding cs_def by auto
      from evaluated_severity [OF dist(1) assms(2) this, of sha256 True, folded book1_def]
      show ?thesis by (auto simp: kept alert_stale_def)
    qed
  qed simp
  moreover have "\<not> resolves conditions a" if "a \<in> set (fst t)" for a
    using kept_ok [OF ok1] _ _ that unfolding t_def kept_def
  proof (rule applied_present)
    show "set cs \<subseteq> {c \<in> set conditions. condition_due c later}" by (auto simp: cs_def)
    show "\<exists>c\<in>set (condition_keyed conditions k). Warning \<le> cn_severity c"
      if "unresolved (book_at (filter (\<lambda>a. \<not> alert_stale later a) book1) k)" for k
    proof -
      have "unresolved (book_at book1 k)" using that by (simp add: kept_at [OF dist(2)] unresolved_kept)
      then show ?thesis unfolding book1_def by (rule evaluated_present [OF dist(1)])
    qed
  qed
  ultimately show ?thesis
    by (simp add: book_evaluate_changes book1_def [symmetric] kept_def [symmetric] cs_def [symmetric]
        t_def [symmetric] filter_empty_conv)
qed

theorem evaluate_settles_witness:
  "fst (snd (book_evaluate (\<lambda>_. ''abcdef'') [example_condition] 2000 False
     (fst (book_evaluate (\<lambda>_. ''abcdef'') [example_condition] 1000 True [])))) = []"
  using evaluate_settles [OF book_ok_empty, of "[example_condition]" 2000 1000 "\<lambda>_. ''abcdef''" False]
  by (simp add: example_condition_def condition_due_def)

end
