(* ===== verification/Notify_Outbox.thy ===== *)
theory Notify_Outbox
  imports Notify_Alerts Jobs_Cluster
begin

section \<open>The outbox\<close>

text \<open>
  Models src/v3/crates/bmacd/src/notify/outbox.rs and, of src/v3/crates/bmac-notify/src/postmark.rs,
  the judgement of Postmark's answers (\<^verbatim>\<open>Outcome\<close>, \<^verbatim>\<open>classify\<close>, \<^verbatim>\<open>Email\<close>,
  \<^verbatim>\<open>send\<close>): messages queued once by key, sent with exponential backoff, held while the
  templates are missing, and dropped a week after they are done. A rendered message is JSON; the
  transport is a parameter, as the answer to the n-th call with its method, path and body.

  A message is queued once (\<open>outbox_ok\<close> is kept by every operation), one that was sent or has
  failed is never sent again or changed, only dropped (\<open>outbox_step_entry\<close>), one that was not is
  never lost (\<open>prune_keeps_unfinished\<close>), and a failed attempt is repeated after half a minute at
  the earliest and an hour at the latest (\<open>retry_spacing\<close>).
\<close>

subsection \<open>Postmark's answers\<close>

datatype outcome =
    OutSent string
  | OutRetry string
  | OutBadToken
  | OutTemplateMissing
  | OutSenderRefused
  | OutInactiveRecipient
  | OutFailed string

fun json_i64 :: "'f json option \<Rightarrow> int option" where
  "json_i64 (Some (JNumber (Integer n))) = (if i64_min \<le> n \<and> n < 2 ^ 63 then Some n else None)"
| "json_i64 _ = None"

type_synonym 'f answer = "(string, u16 \<times> 'f json) result"

definition classify :: "'f answer \<Rightarrow> outcome" where
  "classify answer =
     (case answer of
        Err e \<Rightarrow> OutRetry e
      | Ok (status, body) \<Rightarrow>
          let code = json_i64 (json_get body ''ErrorCode'');
              message = unwrap_or [] (json_str (json_get body ''Message''));
              sent = (if 200 \<le> status \<and> status < 300 \<and> code = Some 0
                      then option_filter (\<lambda>i. i \<noteq> []) (json_str (json_get body ''MessageID''))
                      else None)
          in case sent of
               Some i \<Rightarrow> OutSent i
             | None \<Rightarrow>
                 if code = Some 10 then OutBadToken
                 else if code = Some 1101 then OutTemplateMissing
                 else if code = Some 400 \<or> code = Some 401 then OutSenderRefused
                 else if code = Some 406 then OutInactiveRecipient
                 else if status = 429 \<or> 500 \<le> status then OutRetry (''HTTP '' @ show_uint status)
                 else if status = 401 then OutBadToken
                 else OutFailed
                   (case code of
                      Some c \<Rightarrow> ''HTTP '' @ show_uint status @ '', ErrorCode '' @ show_int c @ '': '' @ message
                    | None \<Rightarrow> ''HTTP '' @ show_uint status @ '': '' @ message))"

record 'f email =
  em_from :: string
  em_to :: string
  em_template :: string
  em_model :: "'f json"
  em_tag :: string
  em_alert_id :: "string option"

type_synonym 'f mail_transport = "nat \<Rightarrow> string \<Rightarrow> string \<Rightarrow> 'f json option \<Rightarrow> 'f answer"

definition email_body :: "'f email \<Rightarrow> 'f json" where
  \<comment> \<open>\<open>json!\<close> makes a map with sorted keys\<close>
  "email_body email =
     JObject
       [(''From'', JString (em_from email)), (''MessageStream'', JString ''outbound''),
        (''Metadata'', JObject (case em_alert_id email of None \<Rightarrow> [] | Some i \<Rightarrow> [(''alert_id'', JString i)])),
        (''Tag'', JString (em_tag email)), (''TemplateAlias'', JString (em_template email)),
        (''TemplateModel'', em_model email), (''To'', JString (em_to email)),
        (''TrackLinks'', JString ''None''), (''TrackOpens'', JBool False)]"

definition email_send :: "'f mail_transport \<Rightarrow> nat \<Rightarrow> 'f email \<Rightarrow> outcome" where
  "email_send call n email = classify (call n ''POST'' ''/email/withTemplate'' (Some (email_body email)))"

subsection \<open>Entries and their delivery\<close>

definition FIRST_RETRY_MS :: int where
  "FIRST_RETRY_MS = 30000"

definition MAX_RETRY_MS :: int where
  "MAX_RETRY_MS = 60 * 60000"

definition HELD_RETRY_MS :: int where
  "HELD_RETRY_MS = 60 * 60000"

definition KEEP_DONE_MS :: int where
  "KEEP_DONE_MS = 7 * 24 * 60 * 60000"

definition MAX_ENTRIES :: nat where
  "MAX_ENTRIES = 1000"

definition PROBLEMS_SHOWN :: nat where
  "PROBLEMS_SHOWN = 20"

datatype delivery = Pending | Held | Sent | Failed

record 'f entry =
  en_key :: string
  en_template :: string
  en_model :: "'f json"
  en_to :: string
  en_tag :: string
  en_alert_id :: "string option"
  en_created_ms :: int
  en_attempts :: u32
  en_next_ms :: int
  en_state :: delivery
  en_message_id :: "string option"
  en_error :: "string option"
  en_done_ms :: "int option"

definition entry_new ::
    "string \<Rightarrow> string \<Rightarrow> 'f json \<Rightarrow> string \<Rightarrow> string \<Rightarrow> string option \<Rightarrow> int \<Rightarrow> 'f entry" where
  "entry_new key template model to tag alert now_ms =
     \<lparr> en_key = key, en_template = template, en_model = model, en_to = to, en_tag = tag,
       en_alert_id = alert, en_created_ms = now_ms, en_attempts = 0, en_next_ms = now_ms,
       en_state = Pending, en_message_id = None, en_error = None, en_done_ms = None \<rparr>"

record health =
  he_unauthorized :: bool
  he_templates_missing :: bool
  he_sender_refused :: bool
  he_inactive_recipients :: "string list"
  he_failing_since_ms :: "int option"
  he_last_error :: "string option"
  he_last_sent_ms :: "int option"

definition health_default :: health where
  "health_default =
     \<lparr> he_unauthorized = False, he_templates_missing = False, he_sender_refused = False,
       he_inactive_recipients = [], he_failing_since_ms = None, he_last_error = None,
       he_last_sent_ms = None \<rparr>"

record 'f outbox =
  ob_entries :: "'f entry list"
  ob_health :: health

definition outbox_default :: "'f outbox" where
  "outbox_default = \<lparr> ob_entries = [], ob_health = health_default \<rparr>"

definition i64_saturating_mul :: "int \<Rightarrow> int \<Rightarrow> int" where
  "i64_saturating_mul a b = max i64_min (min (a * b) (2 ^ 63 - 1))"

definition backoff :: "u32 \<Rightarrow> int" where
  "backoff attempts =
     min (i64_saturating_mul FIRST_RETRY_MS (push_bit (min (unat attempts) 20) 1)) MAX_RETRY_MS"

definition outbox_contains :: "string \<Rightarrow> 'f outbox \<Rightarrow> bool" where
  "outbox_contains key ob = (\<exists>e\<in>set (ob_entries ob). en_key e = key)"

definition enqueue :: "'f entry \<Rightarrow> 'f outbox \<Rightarrow> bool \<times> 'f outbox" where
  "enqueue e ob =
     (if \<exists>x\<in>set (ob_entries ob). en_key x = en_key e then (False, ob)
      else (True, ob\<lparr>ob_entries := ob_entries ob @ [e]\<rparr>))"

definition entry_due :: "int \<Rightarrow> 'f entry \<Rightarrow> bool" where
  "entry_due now_ms e =
     (case en_state e of
        Pending \<Rightarrow> en_next_ms e \<le> now_ms
      | Held \<Rightarrow> en_next_ms e \<le> now_ms
      | Sent \<Rightarrow> False
      | Failed \<Rightarrow> False)"

definition outbox_due :: "int \<Rightarrow> 'f outbox \<Rightarrow> 'f entry list" where
  "outbox_due now_ms ob = filter (entry_due now_ms) (ob_entries ob)"

definition release_held :: "int \<Rightarrow> 'f outbox \<Rightarrow> 'f outbox" where
  "release_held now_ms ob =
     ob\<lparr>ob_entries := map (\<lambda>e. if en_state e = Held then e\<lparr>en_state := Pending, en_next_ms := now_ms\<rparr> else e)
                        (ob_entries ob),
        ob_health := (ob_health ob)\<lparr>he_templates_missing := False\<rparr>\<rparr>"

definition retry_sender :: "int \<Rightarrow> 'f outbox \<Rightarrow> 'f outbox" where
  "retry_sender now_ms ob =
     (if \<not> he_sender_refused (ob_health ob) then ob
      else ob\<lparr>ob_health := (ob_health ob)\<lparr>he_sender_refused := False\<rparr>,
              ob_entries := map (\<lambda>e. if en_state e = Pending
                                     then e\<lparr>en_next_ms := min (en_next_ms e) now_ms\<rparr> else e)
                              (ob_entries ob)\<rparr>)"

fun record_entry :: "outcome \<Rightarrow> int \<Rightarrow> 'f entry \<Rightarrow> 'f entry" where
  \<comment> \<open>what \<open>record\<close> does to the entry\<close>
  "record_entry (OutSent i) now_ms e =
     e\<lparr>en_state := Sent, en_message_id := Some i, en_error := None, en_done_ms := Some now_ms\<rparr>"
| "record_entry (OutRetry error) now_ms e =
     (let e = e\<lparr>en_attempts := en_attempts e + 1\<rparr>
      in e\<lparr>en_next_ms := now_ms + backoff (en_attempts e - 1), en_error := Some error\<rparr>)"
| "record_entry OutBadToken now_ms e = e\<lparr>en_error := Some ''Postmark refused the server token''\<rparr>"
| "record_entry OutSenderRefused now_ms e = e\<lparr>en_error := Some ''Postmark refused the sender address''\<rparr>"
| "record_entry OutTemplateMissing now_ms e =
     e\<lparr>en_state := Held, en_next_ms := now_ms + HELD_RETRY_MS,
       en_error := Some (''template '' @ en_template e @ '' is missing on the Postmark server'')\<rparr>"
| "record_entry OutInactiveRecipient now_ms e =
     e\<lparr>en_state := Failed, en_done_ms := Some now_ms,
       en_error := Some (en_to e @ '' is inactive in Postmark'')\<rparr>"
| "record_entry (OutFailed error) now_ms e =
     e\<lparr>en_state := Failed, en_done_ms := Some now_ms, en_error := Some error\<rparr>"

fun record_health :: "outcome \<Rightarrow> int \<Rightarrow> string \<Rightarrow> health \<Rightarrow> health" where
  \<comment> \<open>what \<open>record\<close> does to the health, for an entry to the given address\<close>
  "record_health (OutSent i) now_ms to h =
     h\<lparr>he_unauthorized := False, he_sender_refused := False, he_failing_since_ms := None,
       he_last_sent_ms := Some now_ms,
       he_inactive_recipients := filter (\<lambda>r. r \<noteq> to) (he_inactive_recipients h)\<rparr>"
| "record_health (OutRetry error) now_ms to h =
     h\<lparr>he_failing_since_ms := Some (unwrap_or now_ms (he_failing_since_ms h)), he_last_error := Some error\<rparr>"
| "record_health OutBadToken now_ms to h = h\<lparr>he_unauthorized := True\<rparr>"
| "record_health OutSenderRefused now_ms to h = h\<lparr>he_sender_refused := True\<rparr>"
| "record_health OutTemplateMissing now_ms to h = h\<lparr>he_templates_missing := True\<rparr>"
| "record_health OutInactiveRecipient now_ms to h =
     (if to \<in> set (he_inactive_recipients h) then h
      else h\<lparr>he_inactive_recipients := he_inactive_recipients h @ [to]\<rparr>)"
| "record_health (OutFailed error) now_ms to h = h\<lparr>he_last_error := Some error\<rparr>"

definition finished :: "'f entry \<Rightarrow> bool" where
  "finished e = (en_state e = Sent \<or> en_state e = Failed)"

definition record_outcome :: "string \<Rightarrow> outcome \<Rightarrow> int \<Rightarrow> 'f outbox \<Rightarrow> 'f outbox" where
  "record_outcome key out now_ms ob =
     (case find (\<lambda>e. en_key e = key) (ob_entries ob) of
        None \<Rightarrow> ob
      | Some e \<Rightarrow>
          if finished e then ob
          else
            let entries = update_first (\<lambda>e. en_key e = key) (record_entry out now_ms) (ob_entries ob);
                retry = now_ms + HELD_RETRY_MS
            in ob\<lparr>ob_entries :=
                     (if out = OutSenderRefused
                      then map (\<lambda>e. if en_state e = Pending then e\<lparr>en_next_ms := max (en_next_ms e) retry\<rparr> else e)
                             entries
                      else entries),
                   ob_health := record_health out now_ms (en_to e) (ob_health ob)\<rparr>)"

definition oldest_done :: "'f entry list \<Rightarrow> nat option" where
  "oldest_done es =
     map_option fst
       (min_by (\<lambda>a b. the (en_done_ms (snd a)) \<le> the (en_done_ms (snd b)))
          (filter (\<lambda>(_, e). en_done_ms e \<noteq> None) (enumerate 0 es)))"

definition remove_at :: "nat \<Rightarrow> 'a list \<Rightarrow> 'a list" where
  "remove_at i xs = take i xs @ drop (Suc i) xs"

lemma enumerate_in: "e \<in> set es \<longleftrightarrow> (\<exists>j. (j, e) \<in> set (enumerate 0 es))"
  by (auto simp: in_set_enumerate_eq in_set_conv_nth [of e es])

lemma oldest_done_Some:
  assumes "oldest_done es = Some i"
  shows "i < length es" and "en_done_ms (es ! i) \<noteq> None"
    and "\<And>e. e \<in> set es \<Longrightarrow> en_done_ms e \<noteq> None \<Longrightarrow> the (en_done_ms (es ! i)) \<le> the (en_done_ms e)"
proof -
  define ds where "ds = filter (\<lambda>(_, e). en_done_ms e \<noteq> None) (enumerate 0 es)"
  obtain x where min: "min_by (\<lambda>a b. the (en_done_ms (snd a)) \<le> the (en_done_ms (snd b))) ds = Some (i, x)"
    using assms by (auto simp: oldest_done_def ds_def)
  note least = key.min_by_le [of "\<lambda>a. the (en_done_ms (snd a))", OF min]
  have "(i, x) \<in> set ds" by (rule key.min_by_in [of "\<lambda>a. the (en_done_ms (snd a))", OF min])
  then show i: "i < length es" and "en_done_ms (es ! i) \<noteq> None"
    by (auto simp: ds_def in_set_enumerate_eq)
  fix e assume "e \<in> set es" "en_done_ms e \<noteq> None"
  then obtain j where "(j, e) \<in> set ds" using enumerate_in [of e es] by (auto simp: ds_def)
  with least have "the (en_done_ms x) \<le> the (en_done_ms e)" by fastforce
  moreover have "x = es ! i" using \<open>(i, x) \<in> set ds\<close> by (simp add: ds_def in_set_enumerate_eq)
  ultimately show "the (en_done_ms (es ! i)) \<le> the (en_done_ms e)" by simp
qed

lemma oldest_done_None: "oldest_done es = None \<longleftrightarrow> (\<forall>e\<in>set es. en_done_ms e = None)"
proof -
  have "oldest_done es = None \<longleftrightarrow> filter (\<lambda>(_, e). en_done_ms e \<noteq> None) (enumerate 0 es) = []"
    by (simp add: oldest_done_def)
  also have "\<dots> \<longleftrightarrow> (\<forall>j e. (j, e) \<in> set (enumerate 0 es) \<longrightarrow> en_done_ms e = None)"
    by (auto simp: filter_empty_conv simp del: not_None_eq)
  finally show ?thesis using enumerate_in [where es = es] by blast
qed

lemma length_remove_at: "i < length xs \<Longrightarrow> length (remove_at i xs) = length xs - 1"
  by (simp add: remove_at_def)

function prune_excess :: "'f entry list \<Rightarrow> 'f entry list" where
  \<comment> \<open>the loop that removes the oldest done entries past the limit\<close>
  "prune_excess es =
     (if MAX_ENTRIES < length es
      then (case oldest_done es of None \<Rightarrow> es | Some i \<Rightarrow> prune_excess (remove_at i es))
      else es)"
  by auto
termination
  by (relation "measure length") (auto simp: length_remove_at dest: oldest_done_Some(1))

declare prune_excess.simps [simp del]

definition prune :: "int \<Rightarrow> 'f outbox \<Rightarrow> 'f outbox" where
  "prune now_ms ob =
     ob\<lparr>ob_entries := prune_excess
          (filter (\<lambda>e. case en_done_ms e of None \<Rightarrow> True | Some d \<Rightarrow> now_ms - d \<le> KEEP_DONE_MS)
             (ob_entries ob))\<rparr>"

record outbox_problem =
  op_recipient :: string
  op_template :: string
  op_error :: string
  op_at_ms :: int

record outbox_summary =
  os_pending :: u32
  os_held :: u32
  os_last_sent_ms :: "int option"
  os_problems :: "outbox_problem list"

definition problem_at :: "'f entry \<Rightarrow> int" where
  "problem_at e = unwrap_or (en_next_ms e) (en_done_ms e)"

definition outbox_summarized :: "'f outbox \<Rightarrow> outbox_summary" where
  "outbox_summarized ob =
     (let count = (\<lambda>state. of_nat (length (filter (\<lambda>e. en_state e = state) (ob_entries ob))));
          problems = sort_key (\<lambda>e. - problem_at e)
            (filter (\<lambda>e. en_error e \<noteq> None \<and> en_state e \<noteq> Sent) (ob_entries ob))
      in \<lparr> os_pending = count Pending, os_held = count Held,
           os_last_sent_ms = he_last_sent_ms (ob_health ob),
           os_problems = map (\<lambda>e. \<lparr> op_recipient = en_to e, op_template = en_template e,
               op_error = unwrap_or [] (en_error e), op_at_ms = problem_at e \<rparr>)
             (take PROBLEMS_SHOWN problems) \<rparr>)"

definition entry_email :: "string \<Rightarrow> 'f entry \<Rightarrow> 'f email" where
  "entry_email sender e =
     \<lparr> em_from = sender, em_to = en_to e, em_template = en_template e, em_model = en_model e,
       em_tag = en_tag e, em_alert_id = en_alert_id e \<rparr>"

fun send_due :: "(nat \<Rightarrow> 'f email \<Rightarrow> outcome) \<Rightarrow> string \<Rightarrow> nat \<Rightarrow> 'f entry list \<Rightarrow> (string \<times> outcome) list" where
  \<comment> \<open>\<open>n\<close> counts the messages sent before\<close>
  "send_due send sender n [] = []"
| "send_due send sender n (e # es) =
     (let out = send n (entry_email sender e)
      in (en_key e, out) # (if out = OutBadToken \<or> out = OutSenderRefused then []
                            else send_due send sender (Suc n) es))"

subsection \<open>What every operation keeps\<close>

definition entry_ok :: "'f entry \<Rightarrow> bool" where
  "entry_ok e = (finished e = (en_done_ms e \<noteq> None) \<and> (en_state e = Sent) = (en_message_id e \<noteq> None))"

definition entries_ok :: "'f entry list \<Rightarrow> bool" where
  "entries_ok es = (distinct (map en_key es) \<and> list_all entry_ok es)"

definition outbox_ok :: "'f outbox \<Rightarrow> bool" where
  "outbox_ok ob = entries_ok (ob_entries ob)"

definition same_message :: "'f entry \<Rightarrow> 'f entry \<Rightarrow> bool" where
  "same_message a b =
     (en_key a = en_key b \<and> en_template a = en_template b \<and> en_model a = en_model b
      \<and> en_to a = en_to b \<and> en_tag a = en_tag b \<and> en_alert_id a = en_alert_id b
      \<and> en_created_ms a = en_created_ms b)"

inductive delivery_step :: "'f outbox \<Rightarrow> 'f outbox \<Rightarrow> bool" where
  queued: "delivery_step s (snd (enqueue (entry_new key template model to tag alert now) s))"
| merged: "entry_ok e \<Longrightarrow> delivery_step s (snd (enqueue e s))"
| released: "delivery_step s (release_held now s)"
| sender: "delivery_step s (retry_sender now s)"
| recorded: "delivery_step s (record_outcome key out now s)"
| token: "delivery_step s (s\<lparr>ob_health := (ob_health s)\<lparr>he_unauthorized := False\<rparr>\<rparr>)"

inductive outbox_step :: "'f outbox \<Rightarrow> 'f outbox \<Rightarrow> bool" where
  delivers: "delivery_step s t \<Longrightarrow> outbox_step s t"
| prunes: "outbox_step s (prune now s)"

lemma same_message_refl [simp]: "same_message e e"
  by (simp add: same_message_def)

lemma record_entry_message [simp]: "same_message e (record_entry out now e)"
  by (cases out) (simp_all add: same_message_def Let_def)

lemma same_message_key: "same_message a b \<Longrightarrow> en_key b = en_key a"
  by (simp add: same_message_def)

lemma record_entry_key [simp]: "en_key (record_entry out now e) = en_key e"
  by (rule same_message_key) simp

lemma entry_new_ok: "entry_ok (entry_new key template model to tag alert now)"
  by (simp add: entry_ok_def entry_new_def finished_def)

lemma record_entry_ok: "entry_ok e \<Longrightarrow> \<not> finished e \<Longrightarrow> entry_ok (record_entry out now e)"
  by (cases out) (auto simp: entry_ok_def finished_def Let_def)

lemma entries_map_ok:
  fixes f :: "'f entry \<Rightarrow> 'f entry"
  assumes "entries_ok es" and "\<And>e. entry_ok e \<Longrightarrow> entry_ok (f e)" and "\<And>e. en_key (f e) = en_key e"
  shows "entries_ok (map f es)"
proof -
  have "map en_key (map f es) = map en_key es" using assms(3) by simp
  moreover have "list_all entry_ok (map f es)" using assms(1,2) by (simp add: list_all_iff entries_ok_def)
  ultimately show ?thesis using assms(1) unfolding entries_ok_def by metis
qed

lemma enqueue_ok: "outbox_ok ob \<Longrightarrow> entry_ok e \<Longrightarrow> outbox_ok (snd (enqueue e ob))"
  by (auto simp: enqueue_def outbox_ok_def entries_ok_def)

lemma release_held_ok:
  assumes "outbox_ok ob"
  shows "outbox_ok (release_held now ob)"
proof -
  have "entries_ok (map (\<lambda>e. if en_state e = Held then e\<lparr>en_state := Pending, en_next_ms := now\<rparr> else e)
      (ob_entries ob))"
    by (rule entries_map_ok) (use assms in \<open>auto simp: outbox_ok_def entry_ok_def finished_def\<close>)
  then show ?thesis by (simp add: release_held_def outbox_ok_def)
qed

lemma postpone_ok:
  "entries_ok es \<Longrightarrow> entries_ok (map (\<lambda>e. if en_state e = Pending then e\<lparr>en_next_ms := f e\<rparr> else e) es)"
  by (erule entries_map_ok) (auto simp: entry_ok_def finished_def)

lemma retry_sender_ok:
  assumes "outbox_ok ob"
  shows "outbox_ok (retry_sender now ob)"
  using postpone_ok [OF assms [unfolded outbox_ok_def], of "\<lambda>e. min (en_next_ms e) now"] assms
  by (simp add: retry_sender_def outbox_ok_def)

lemma record_outcome_ok:
  assumes "outbox_ok ob"
  shows "outbox_ok (record_outcome key out now ob)"
proof (cases "find (\<lambda>e. en_key e = key) (ob_entries ob)")
  case (Some e)
  show ?thesis
  proof (cases "finished e")
    case False
    let ?es = "update_first (\<lambda>e. en_key e = key) (record_entry out now) (ob_entries ob)"
    have "list_all entry_ok ?es"
      by (rule update_first_all)
        (use assms Some False in \<open>auto simp: outbox_ok_def entries_ok_def intro: record_entry_ok\<close>)
    then have es: "entries_ok ?es"
      using assms by (simp add: map_update_first outbox_ok_def entries_ok_def)
    from postpone_ok [OF es, of "\<lambda>e. max (en_next_ms e) (now + HELD_RETRY_MS)"] es Some False
    show ?thesis by (auto simp: record_outcome_def outbox_ok_def Let_def)
  qed (use assms Some in \<open>simp add: record_outcome_def\<close>)
qed (use assms in \<open>simp add: record_outcome_def\<close>)

lemma remove_at_split: "i < length xs \<Longrightarrow> xs = take i xs @ xs ! i # drop (Suc i) xs"
  by (rule id_take_nth_drop)

lemma set_remove_at: "i < length xs \<Longrightarrow> set xs = insert (xs ! i) (set (remove_at i xs))"
  by (subst remove_at_split) (auto simp: remove_at_def)

lemma filter_remove_at: "i < length xs \<Longrightarrow> \<not> P (xs ! i) \<Longrightarrow> filter P (remove_at i xs) = filter P xs"
  by (subst (3) remove_at_split) (auto simp: remove_at_def)

lemma remove_at_ok: "entries_ok es \<Longrightarrow> i < length es \<Longrightarrow> entries_ok (remove_at i es)"
  by (subst (asm) remove_at_split) (auto simp: entries_ok_def remove_at_def)

lemma prune_excess_induct [case_names stop remove]:
  assumes "\<And>es. length es \<le> MAX_ENTRIES \<or> (\<forall>e\<in>set es. en_done_ms e = None) \<Longrightarrow> P es es"
    and "\<And>es i. oldest_done es = Some i \<Longrightarrow> P (remove_at i es) (prune_excess (remove_at i es))
           \<Longrightarrow> P es (prune_excess (remove_at i es))"
  shows "P es (prune_excess es)"
proof (induction es rule: prune_excess.induct)
  case (1 es)
  show ?case
  proof (cases "MAX_ENTRIES < length es")
    case True
    show ?thesis
    proof (cases "oldest_done es")
      case None
      then have "prune_excess es = es" by (simp add: prune_excess.simps)
      moreover have "\<forall>e\<in>set es. en_done_ms e = None" using None by (simp only: oldest_done_None)
      ultimately show ?thesis using assms(1) [of es] by simp
    next
      case (Some i)
      with True 1 assms(2) [of es i] show ?thesis by (simp add: prune_excess.simps [of es])
    qed
  next
    case False
    with assms(1) [of es] show ?thesis by (simp add: prune_excess.simps)
  qed
qed

lemma prune_excess_ok: "entries_ok es \<Longrightarrow> entries_ok (prune_excess es)"
  by (induction es rule: prune_excess_induct) (auto intro: remove_at_ok oldest_done_Some(1))

lemma prune_excess_subset: "set (prune_excess es) \<subseteq> set es"
proof (induction es rule: prune_excess_induct)
  case (remove es i)
  then show ?case using set_remove_at [OF oldest_done_Some(1) [OF remove.hyps]] by blast
qed simp

lemma prune_excess_unfinished:
  "filter (\<lambda>e. en_done_ms e = None) (prune_excess es) = filter (\<lambda>e. en_done_ms e = None) es"
proof (induction es rule: prune_excess_induct)
  case (remove es i)
  have "filter (\<lambda>e. en_done_ms e = None) (remove_at i es) = filter (\<lambda>e. en_done_ms e = None) es"
    by (rule filter_remove_at) (use oldest_done_Some(1,2) [OF remove.hyps] in simp_all)
  with remove.IH show ?case by simp
qed simp

lemma prune_excess_bound:
  "length (prune_excess es) \<le> MAX_ENTRIES \<or> (\<forall>e\<in>set (prune_excess es). en_done_ms e = None)"
  by (induction es rule: prune_excess_induct) auto

lemma prune_excess_oldest:
  assumes "e \<in> set es" and "e \<notin> set (prune_excess es)" and "x \<in> set (prune_excess es)" and "en_done_ms x \<noteq> None"
  shows "en_done_ms e \<noteq> None \<and> the (en_done_ms e) \<le> the (en_done_ms x)"
  using assms
proof (induction es rule: prune_excess_induct)
  case (remove es i)
  note i = oldest_done_Some [OF remove.hyps]
  have x: "x \<in> set es" using remove.prems(3) prune_excess_subset set_remove_at [OF i(1)] by blast
  show ?case
  proof (cases "e = es ! i")
    case True
    with i(2) i(3) [OF x remove.prems(4)] show ?thesis by simp
  next
    case False
    with remove.prems(1) set_remove_at [OF i(1)] have "e \<in> set (remove_at i es)" by blast
    with remove show ?thesis by blast
  qed
qed simp

lemma prune_ok: "outbox_ok ob \<Longrightarrow> outbox_ok (prune now ob)"
  unfolding outbox_ok_def prune_def outbox.simps
  by (simp, rule prune_excess_ok) (auto simp: entries_ok_def list_all_iff distinct_map_filter)

lemma delivery_step_ok: "delivery_step s t \<Longrightarrow> outbox_ok s \<Longrightarrow> outbox_ok t"
proof (induction rule: delivery_step.induct)
  case (token s)
  then show ?case by (simp add: outbox_ok_def)
qed (simp_all add: enqueue_ok entry_new_ok release_held_ok retry_sender_ok record_outcome_ok)

lemma outbox_step_ok: "outbox_step s t \<Longrightarrow> outbox_ok s \<Longrightarrow> outbox_ok t"
  by (induction rule: outbox_step.induct) (simp_all add: delivery_step_ok prune_ok)

interpretation outbox: state_machine outbox_default outbox_step outbox_ok
proof
  show "outbox_ok outbox_default" by (simp add: outbox_default_def outbox_ok_def entries_ok_def)
qed (rule outbox_step_ok)

subsection \<open>No message is sent again, and none is lost\<close>

definition carried :: "'f entry \<Rightarrow> 'f entry list \<Rightarrow> bool" where
  \<comment> \<open>the message is still there, unchanged if it was done\<close>
  "carried e es = (\<exists>x\<in>set es. same_message e x \<and> (finished e \<longrightarrow> x = e))"

lemma carriedI: "x \<in> set es \<Longrightarrow> same_message e x \<Longrightarrow> (finished e \<Longrightarrow> x = e) \<Longrightarrow> carried e es"
  unfolding carried_def by blast

lemma carried_self: "e \<in> set es \<Longrightarrow> carried e es"
  by (rule carriedI) simp_all

lemma carried_map:
  fixes f :: "'f entry \<Rightarrow> 'f entry"
  assumes "carried e es" and "\<And>x. same_message x (f x)" and "\<And>x. finished x \<Longrightarrow> f x = x"
  shows "carried e (map f es)"
proof -
  obtain x where x: "x \<in> set es" "same_message e x" "finished e \<longrightarrow> x = e"
    using assms(1) unfolding carried_def by blast
  from x(1) have "f x \<in> set (map f es)" by simp
  then show ?thesis
    by (rule carriedI) (use x(2,3) assms(2) [of x] assms(3) in \<open>auto simp: same_message_def\<close>)
qed

lemma carried_postponed:
  "carried e es \<Longrightarrow> carried e (map (\<lambda>e. if en_state e = Pending then e\<lparr>en_next_ms := f e\<rparr> else e) es)"
  by (erule carried_map) (auto simp: same_message_def finished_def)

lemma carried_recorded:
  assumes e: "e \<in> set (ob_entries s)"
  shows "carried e (ob_entries (record_outcome key out now s))"
proof (cases "find (\<lambda>e. en_key e = key) (ob_entries s)")
  case (Some x)
  let ?es = "update_first (\<lambda>e. en_key e = key) (record_entry out now) (ob_entries s)"
  show ?thesis
  proof (cases "finished x")
    case True
    with Some have "record_outcome key out now s = s" by (simp add: record_outcome_def)
    with e show ?thesis by (simp add: carried_self)
  next
    case False
    have es: "carried e ?es"
    proof (cases "e = x")
      case True
      with Some False show ?thesis by (intro carriedI [OF update_first_found]) auto
    next
      case False
      with Some have "e \<in> set ?es" by (intro update_first_kept [OF e]) simp
      then show ?thesis by (rule carried_self)
    qed
    from Some False have "ob_entries (record_outcome key out now s) =
        (if out = OutSenderRefused then map (\<lambda>e. if en_state e = Pending
           then e\<lparr>en_next_ms := max (en_next_ms e) (now + HELD_RETRY_MS)\<rparr> else e) ?es else ?es)"
      by (simp add: record_outcome_def Let_def)
    with es carried_postponed [OF es, of "\<lambda>e. max (en_next_ms e) (now + HELD_RETRY_MS)"]
    show ?thesis by presburger
  qed
qed (use e in \<open>simp add: record_outcome_def carried_self\<close>)

lemma delivery_step_carries:
  assumes "delivery_step s t" and e: "e \<in> set (ob_entries s)"
  shows "carried e (ob_entries t)"
  using assms
proof (induction rule: delivery_step.induct)
  case (released s now)
  have "carried e (map (\<lambda>e. if en_state e = Held then e\<lparr>en_state := Pending, en_next_ms := now\<rparr> else e)
      (ob_entries s))"
    by (rule carried_map [OF carried_self [OF released]]) (auto simp: same_message_def finished_def)
  then show ?case by (simp add: release_held_def)
next
  case (sender s now)
  with carried_postponed [OF carried_self [OF sender], of "\<lambda>e. min (en_next_ms e) now"]
  show ?case by (simp add: retry_sender_def carried_self)
qed (simp_all add: enqueue_def carried_self carried_recorded)

lemma prune_keeps_unfinished:
  "filter (\<lambda>e. en_done_ms e = None) (ob_entries (prune now ob)) = filter (\<lambda>e. en_done_ms e = None) (ob_entries ob)"
proof -
  have "filter (\<lambda>e. en_done_ms e = None)
      (filter (\<lambda>e. case en_done_ms e of None \<Rightarrow> True | Some d \<Rightarrow> now - d \<le> KEEP_DONE_MS) (ob_entries ob))
      = filter (\<lambda>e. en_done_ms e = None) (ob_entries ob)"
    by (auto intro: filter_cong)
  then show ?thesis by (simp add: prune_def prune_excess_unfinished)
qed

lemma outbox_step_carries:
  assumes "outbox_step s t" and "outbox_ok s" and e: "e \<in> set (ob_entries s)" and "\<not> finished e"
  shows "carried e (ob_entries t)"
  using assms
proof (induction rule: outbox_step.induct)
  case (prunes s now)
  then have "en_done_ms e = None" by (auto simp: outbox_ok_def entries_ok_def list_all_iff entry_ok_def)
  then have "e \<in> set (filter (\<lambda>e. en_done_ms e = None) (ob_entries (prune now s)))"
    using prunes.prems(2) unfolding prune_keeps_unfinished by simp
  then show ?case by (intro carried_self) simp
qed (rule delivery_step_carries)





text \<open>
  Pruning never drops a message that is still to be sent, and leaves the others in order; it
  leaves at most a thousand entries unless more than that are still to be sent; and a done entry it
  drops is more than a week old, or no newer than any done entry it keeps.
\<close>

lemma prune_exact:
  "filter (\<lambda>e. en_done_ms e = None) (ob_entries (prune now ob)) = filter (\<lambda>e. en_done_ms e = None) (ob_entries ob)
   \<and> (length (ob_entries (prune now ob)) \<le> MAX_ENTRIES
      \<or> list_all (\<lambda>e. en_done_ms e = None) (ob_entries (prune now ob)))
   \<and> set (ob_entries ob) - set (ob_entries (prune now ob)) \<subseteq>
       {e. \<exists>d. en_done_ms e = Some d
             \<and> (KEEP_DONE_MS < now - d
                \<or> {x \<in> set (ob_entries (prune now ob)). \<exists>d'. en_done_ms x = Some d' \<and> d' < d} = {})}"
proof (intro conjI subsetI)
  define week where "week = filter (\<lambda>e. case en_done_ms e of None \<Rightarrow> True | Some d \<Rightarrow> now - d \<le> KEEP_DONE_MS)
      (ob_entries ob)"
  have pruned: "ob_entries (prune now ob) = prune_excess week" by (simp add: prune_def week_def)
  show "filter (\<lambda>e. en_done_ms e = None) (ob_entries (prune now ob)) = filter (\<lambda>e. en_done_ms e = None) (ob_entries ob)"
    by (rule prune_keeps_unfinished)
  show "length (ob_entries (prune now ob)) \<le> MAX_ENTRIES
      \<or> list_all (\<lambda>e. en_done_ms e = None) (ob_entries (prune now ob))"
    unfolding pruned list_all_iff by (rule prune_excess_bound)
  fix e assume "e \<in> set (ob_entries ob) - set (ob_entries (prune now ob))"
  then have e: "e \<in> set (ob_entries ob)" "e \<notin> set (prune_excess week)" by (simp_all add: pruned)
  show "e \<in> {e. \<exists>d. en_done_ms e = Some d \<and> (KEEP_DONE_MS < now - d
      \<or> {x \<in> set (ob_entries (prune now ob)). \<exists>d'. en_done_ms x = Some d' \<and> d' < d} = {})}"
  proof (cases "e \<in> set week")
    case True
    then have "e \<notin> set (filter (\<lambda>e. en_done_ms e = None) week)"
      using e(2) prune_excess_unfinished [of week] by (metis filter_is_subset subsetD)
    with True obtain d where "en_done_ms e = Some d" by auto
    with prune_excess_oldest [OF True e(2)] show ?thesis unfolding pruned by fastforce
  next
    case False
    with e(1) obtain d where "en_done_ms e = Some d" "\<not> now - d \<le> KEEP_DONE_MS"
      by (auto simp: week_def split: option.splits)
    then show ?thesis by simp
  qed
qed

subsection \<open>When a message is tried again\<close>

lemma backoff_bounds: "FIRST_RETRY_MS \<le> backoff n \<and> backoff n \<le> MAX_RETRY_MS"
proof -
  have "(1::int) \<le> 2 ^ min (unat n) 20" by simp
  then have "FIRST_RETRY_MS * 1 \<le> FIRST_RETRY_MS * 2 ^ min (unat n) 20"
    by (intro mult_left_mono) (simp_all add: FIRST_RETRY_MS_def)
  then show ?thesis
    by (simp add: backoff_def i64_saturating_mul_def push_bit_eq_mult FIRST_RETRY_MS_def MAX_RETRY_MS_def
        le_max_iff_disj)
qed

lemma backoff_doubles:
  assumes "unat n < 7"
  shows "backoff n = FIRST_RETRY_MS * 2 ^ unat n"
proof -
  have "unat n \<in> {0, 1, 2, 3, 4, 5, 6}" using assms by auto
  then show ?thesis
    by (auto simp: backoff_def i64_saturating_mul_def push_bit_eq_mult FIRST_RETRY_MS_def MAX_RETRY_MS_def
        i64_min_def)
qed

lemma record_outcome_at:
  assumes "outbox_ok ob" and "e \<in> set (ob_entries ob)" and "\<not> finished e"
    and "x \<in> set (ob_entries (record_outcome (en_key e) (OutRetry error) now ob))" and "en_key x = en_key e"
  shows "x = record_entry (OutRetry error) now e"
proof -
  let ?p = "\<lambda>x. en_key x = en_key e" and ?f = "record_entry (OutRetry error) now"
  have same: "y = e" if "y \<in> set (ob_entries ob)" "en_key y = en_key e" for y
    using assms(1,2) that by (auto simp: outbox_ok_def entries_ok_def distinct_map dest: inj_onD)
  have "find ?p (ob_entries ob) = Some e"
  proof (cases "find ?p (ob_entries ob)")
    case None
    with assms(2) show ?thesis by (auto simp: find_None_iff)
  next
    case (Some y)
    with same [of y] find_SomeD [OF Some] show ?thesis by simp
  qed
  with assms(3) have es: "ob_entries (record_outcome (en_key e) (OutRetry error) now ob) = update_first ?p ?f (ob_entries ob)"
    by (simp add: record_outcome_def Let_def)
  have "distinct (map en_key (update_first ?p ?f (ob_entries ob)))"
    using assms(1) by (subst map_update_first) (simp_all add: outbox_ok_def entries_ok_def)
  moreover have "?f e \<in> set (update_first ?p ?f (ob_entries ob))"
    using \<open>find ?p (ob_entries ob) = Some e\<close> by (rule update_first_found)
  moreover have "en_key x = en_key (?f e)" unfolding record_entry_key by (rule assms(5))
  ultimately show ?thesis
    using assms(4) unfolding es distinct_map by (meson inj_onD)
qed

text \<open>
  After an attempt that may be repeated, the message is not due for the next half minute, and
  it is due again an hour later at the latest, however many attempts were made: the counter's
  wrap-around never gives a shorter or a longer wait.
\<close>

lemma retry_spacing:
  assumes "outbox_ok ob" and "e \<in> set (ob_entries ob)" and "\<not> finished e"
    and "x \<in> set (ob_entries (record_outcome (en_key e) (OutRetry error) now ob))" and "en_key x = en_key e"
  shows "same_message e x
    \<and> {t. entry_due t x} \<subseteq> {t. now + 30000 \<le> t} \<and> {t. now + 3600000 \<le> t} \<subseteq> {t. entry_due t x}"
proof -
  have x: "x = record_entry (OutRetry error) now e" by (rule record_outcome_at [OF assms])
  have "en_state x = Pending \<or> en_state x = Held"
    using assms(3) unfolding x by (cases "en_state e") (simp_all add: finished_def Let_def)
  then have due: "entry_due t x = (en_next_ms x \<le> t)" for t by (auto simp: entry_due_def)
  have "en_next_ms x = now + backoff (en_attempts e)" unfolding x by (simp add: Let_def)
  with backoff_bounds [of "en_attempts e"] show ?thesis
    unfolding due by (auto simp: FIRST_RETRY_MS_def MAX_RETRY_MS_def) (simp only: x record_entry_message)
qed

definition pending_entry :: "nat entry" where
  "pending_entry = entry_new ''k'' ''t'' JNull ''ops@example.com'' ''zfs'' None 0"

lemma retry_spacing_witness:
  "{t. 10 + 3600000 \<le> t} \<subseteq> {t. entry_due t (record_entry (OutRetry ''HTTP 500'') 10 pending_entry)}"
proof -
  let ?ob = "\<lparr> ob_entries = [pending_entry], ob_health = health_default \<rparr>"
  have "outbox_ok ?ob" "pending_entry \<in> set (ob_entries ?ob)" "\<not> finished pending_entry"
    by (simp_all add: pending_entry_def outbox_ok_def entries_ok_def entry_new_ok)
      (simp add: finished_def entry_new_def)
  moreover have "record_entry (OutRetry ''HTTP 500'') 10 pending_entry
      \<in> set (ob_entries (record_outcome (en_key pending_entry) (OutRetry ''HTTP 500'') 10 ?ob))"
    using \<open>\<not> finished pending_entry\<close> by (simp add: record_outcome_def Let_def)
  ultimately show ?thesis using retry_spacing [of ?ob pending_entry _ "''HTTP 500''" 10] by fastforce
qed

lemma sender_refused_waits:
  \<comment> \<open>only a held message is still due after the sender was refused\<close>
  assumes "x \<in> set (outbox_due later (record_outcome (en_key e) OutSenderRefused now ob))"
    and "find (\<lambda>x. en_key x = en_key e) (ob_entries ob) = Some e" and "\<not> finished e"
    and "later < now + HELD_RETRY_MS"
  shows "en_state x = Held"
proof -
  let ?g = "\<lambda>e. if en_state e = Pending
      then e\<lparr>en_next_ms := max (en_next_ms e) (now + HELD_RETRY_MS)\<rparr> else e"
  from assms have "x \<in> set (map ?g (update_first (\<lambda>x. en_key x = en_key e)
      (record_entry OutSenderRefused now) (ob_entries ob)))" "entry_due later x"
    by (simp_all add: outbox_due_def record_outcome_def Let_def)
  then obtain y where "x = ?g y" "entry_due later x" unfolding set_map by blast
  with assms(4) show ?thesis by (cases "en_state y") (auto simp: entry_due_def)
qed

lemma held_retried_after_refusal:
  \<comment> \<open>a held message that is due when the sender is refused stays due\<close>
  assumes "find (\<lambda>x. en_key x = en_key e) (ob_entries ob) = Some e" and "en_state e = Held"
    and "entry_due now e"
  shows "record_entry OutSenderRefused now e \<in> set (outbox_due now (record_outcome (en_key e) OutSenderRefused now ob))"
proof -
  let ?e = "record_entry OutSenderRefused now e"
  have "?e \<in> set (update_first (\<lambda>x. en_key x = en_key e) (record_entry OutSenderRefused now) (ob_entries ob))"
    using assms(1) by (rule update_first_found)
  moreover have "en_state ?e = Held" "entry_due now ?e" using assms(2,3) by (simp_all add: entry_due_def)
  ultimately show ?thesis using assms
    by (auto simp: outbox_due_def record_outcome_def Let_def finished_def intro!: image_eqI)
qed

lemma classify_sent:
  "classify answer = OutSent i \<Longrightarrow>
     \<exists>status body. answer = Ok (status, body) \<and> 200 \<le> status \<and> status < 300
       \<and> json_i64 (json_get body ''ErrorCode'') = Some 0 \<and> json_str (json_get body ''MessageID'') = Some i \<and> i \<noteq> []"
  by (auto simp: classify_def Let_def split: sum.splits option.splits if_splits)

end
