(* ===== verification/Notify_Duty.thy ===== *)
theory Notify_Duty
  imports Notify_Outbox Api_Errors
begin

section \<open>Notifications\<close>

text \<open>
  Models src/v3/crates/bmacd/src/notify/mod.rs and store.rs, \<^verbatim>\<open>NotifySettings\<close>,
  \<^verbatim>\<open>Route\<close> and the requests of src/v3/crates/bmac-proto/src/alerts.rs, and the models and
  \<^verbatim>\<open>render\<close> of src/v3/crates/bmac-notify/src/templates.rs: who is told about an alert, which
  messages the changes of an evaluation call for, and the evaluation of the duty host, or of a host
  without quorum, on its store.

  Parameters stand for the time zone library (how a time is written, and the hour and date of the
  digest), for the debug text of a string, and for what each access to a store comes to. The records
  of a store are written one after the other, so that a failed write leaves the earlier ones; a
  record is then read back as it was written.
\<close>

subsection \<open>Settings and who is told\<close>

record route =
  ro_categories :: "string list"
  ro_min_severity :: condition_severity
  ro_recipients :: "string list"
  ro_recovery :: bool

record notify_settings =
  nf_sender :: "string option"
  nf_recipients :: "string list"
  nf_routes :: "route list"
  nf_throttle_minutes :: u32
  nf_digest_hour :: "u8 option"
  nf_dashboard_url :: "string option"
  nf_disabled_conditions :: "string list"

definition notify_settings_default :: notify_settings where
  "notify_settings_default =
     \<lparr> nf_sender = None, nf_recipients = [], nf_routes = [], nf_throttle_minutes = 60,
       nf_digest_hour = None, nf_dashboard_url = None, nf_disabled_conditions = [] \<rparr>"

definition MAX_SILENCE_MS :: int where
  "MAX_SILENCE_MS = 90 * 24 * 60 * 60000"

definition STARTUP_GRACE_MS :: int where
  "STARTUP_GRACE_MS = 5 * 60000"

definition MAX_RECIPIENTS :: nat where
  "MAX_RECIPIENTS = 20"

definition HISTORY_SHOWN :: nat where
  "HISTORY_SHOWN = 200"

fun severity_name :: "condition_severity \<Rightarrow> string" where
  "severity_name Info = ''Info''"
| "severity_name Warning = ''Warning''"
| "severity_name Critical = ''Critical''"

definition address_byte :: "char \<Rightarrow> bool" where
  "address_byte b = (is_ascii_graphic b \<and> b \<notin> set ''<>,;'' \<and> b \<noteq> CHR 0x22 \<and> b \<noteq> CHR 0x27)"

definition is_address :: "string \<Rightarrow> bool" where
  "is_address text =
     (case split_once CHR ''@'' text of
        None \<Rightarrow> False
      | Some (user, domain) \<Rightarrow>
          user \<noteq> [] \<and> CHR ''.'' \<in> set domain \<and> \<not> starts_with ''.'' domain \<and> \<not> ends_with ''.'' domain
          \<and> length text \<le> 254 \<and> list_all address_byte text)"

definition effective_routes :: "notify_settings \<Rightarrow> route list" where
  "effective_routes settings =
     (if nf_routes settings = []
      then [\<lparr> ro_categories = [], ro_min_severity = Warning, ro_recipients = [], ro_recovery = True \<rparr>]
      else nf_routes settings)"

definition route_matches :: "alert \<Rightarrow> bool \<Rightarrow> route \<Rightarrow> bool" where
  "route_matches a recovery route =
     ((ro_categories route = [] \<or> condition_category (al_condition a) \<in> set (ro_categories route))
      \<and> ro_min_severity route \<le> al_severity a \<and> (\<not> recovery \<or> ro_recovery route))"

definition recipients :: "alert \<Rightarrow> notify_settings \<Rightarrow> bool \<Rightarrow> string list" where
  \<comment> \<open>a set in the order of its elements\<close>
  "recipients a settings recovery =
     bt_keys (fold (\<lambda>route out.
         if route_matches a recovery route
         then fold (\<lambda>to. bt_insert to ())
                (if ro_recipients route = [] then nf_recipients settings else ro_recipients route) out
         else out)
       (effective_routes settings) bt_empty)"

definition strip_dot :: "string \<Rightarrow> string" where
  "strip_dot text = (if ends_with ''.'' text then butlast text else text)"

definition pattern_part :: "string \<Rightarrow> bool" where
  "pattern_part part =
     (case part of
        [] \<Rightarrow> False
      | c # _ \<Rightarrow> is_ascii_lowercase c
          \<and> list_all (\<lambda>c. is_ascii_lowercase c \<or> is_ascii_digit c \<or> c = CHR ''_'') part)"

definition is_condition_pattern :: "string \<Rightarrow> bool" where
  "is_condition_pattern text =
     (let body = strip_dot text
      in length text \<le> 64 \<and> body \<noteq> [] \<and> list_all pattern_part (split_on CHR ''.'' body))"

definition dashboard_url_ok :: "string \<Rightarrow> bool" where
  "dashboard_url_ok url =
     (starts_with ''https://'' url \<and> length url \<le> 200
      \<and> \<not> (\<exists>w\<in>set white_space. contains_str w url))"

definition invalid :: "string \<Rightarrow> (api_error, 'a) result" where
  "invalid message = Err (error_new Invalid message)"

definition require :: "bool \<Rightarrow> string \<Rightarrow> (api_error, unit) result" where
  \<comment> \<open>an early return with an \<open>Invalid\<close> error\<close>
  "require ok message = (if ok then Ok () else invalid message)"

definition validate_settings :: "(string \<Rightarrow> string) \<Rightarrow> notify_settings \<Rightarrow> (api_error, unit) result" where
  "validate_settings debug settings =
     and_then (case nf_sender settings of
                 None \<Rightarrow> Ok ()
               | Some sender \<Rightarrow> require (is_address sender) (debug sender @ '' is not an email address'')) (\<lambda>_.
     and_then (try_for_each (\<lambda>address. require (is_address address) (debug address @ '' is not an email address''))
                 (nf_recipients settings @ concat (map ro_recipients (nf_routes settings)))) (\<lambda>_.
     and_then (require (length (nf_recipients settings) \<le> MAX_RECIPIENTS
                        \<and> list_all (\<lambda>r. length (ro_recipients r) \<le> MAX_RECIPIENTS) (nf_routes settings))
                 (''at most '' @ show_nat MAX_RECIPIENTS @ '' recipients'')) (\<lambda>_.
     and_then (require (length (nf_routes settings) \<le> 20) ''at most 20 routes'') (\<lambda>_.
     and_then (require (1 \<le> nf_throttle_minutes settings \<and> nf_throttle_minutes settings \<le> 24 * 60)
                 ''the throttle is 1 to 1440 minutes'') (\<lambda>_.
     and_then (require (\<not> is_some_and (\<lambda>h. 23 < h) (nf_digest_hour settings)) ''the digest hour is 0 to 23'') (\<lambda>_.
     and_then (require (case nf_dashboard_url settings of None \<Rightarrow> True | Some url \<Rightarrow> dashboard_url_ok url)
                 ''the Dashboard address is an https:// URL'') (\<lambda>_.
     and_then (require (length (nf_disabled_conditions settings) \<le> 100)
                 ''at most 100 switched-off conditions'') (\<lambda>_.
       case find (\<lambda>c. \<not> is_condition_pattern c) (nf_disabled_conditions settings) of
         Some bad \<Rightarrow> invalid (debug bad @ '' is not a condition (like backup.skipped) or a category (like zfs.)'')
       | None \<Rightarrow> Ok ()))))))))"

subsection \<open>Messages\<close>

record texts =
  \<comment> \<open>the time zone library: a time in UTC, in the cluster's zone, and its hour and date there\<close>
  tx_utc :: "int \<Rightarrow> string"
  tx_local :: "int \<Rightarrow> string"
  tx_day :: "int \<Rightarrow> (int \<times> string) option"

record notify_context =
  cx_cluster_name :: string
  cx_dashboard_url :: string
  cx_texts :: texts
  cx_now_ms :: int

definition PRODUCT_NAME :: string where
  "PRODUCT_NAME = ''BMAC''"

definition layout_fields :: "notify_context \<Rightarrow> (string \<times> 'f json) list" where
  "layout_fields cx =
     [(''product_name'', JString PRODUCT_NAME), (''cluster_name'', JString (cx_cluster_name cx)),
      (''dashboard_url'', JString (cx_dashboard_url cx)),
      (''sent_at'', JString (tx_utc (cx_texts cx) (cx_now_ms cx)))]"

definition render :: "notify_context \<Rightarrow> (string \<times> 'f json) list \<Rightarrow> 'f json" where
  "render cx own = JObject (bt_collect (layout_fields cx @ own))"

definition page :: "notify_context \<Rightarrow> string \<Rightarrow> string" where
  "page cx name =
     (if cx_dashboard_url cx = [] then []
      else rev (dropWhile (\<lambda>c. c = CHR ''/'') (rev (cx_dashboard_url cx))) @ ''/'' @ name)"

definition context_entry ::
    "notify_context \<Rightarrow> string \<Rightarrow> string \<Rightarrow> (string \<times> 'f json) list \<Rightarrow> string \<Rightarrow> string \<Rightarrow> string option \<Rightarrow> 'f entry" where
  "context_entry cx key template own to tag alert =
     entry_new key template (render cx own) to tag alert (cx_now_ms cx)"

definition host_text :: "alert \<Rightarrow> string" where
  "host_text a = (case al_host a of None \<Rightarrow> ''cluster'' | Some h \<Rightarrow> host_slot_display h)"

definition alert_fields :: "notify_context \<Rightarrow> alert \<Rightarrow> (string \<times> 'f json) list" where
  \<comment> \<open>what an opening and a recovery say alike\<close>
  "alert_fields cx a =
     [(''alert_id'', JString (al_id a)), (''severity'', JString (severity_name (al_severity a))),
      (''summary'', JString (al_message a)), (''host'', JString (host_text a)),
      (''resource'', JString (al_resource a)), (''condition'', JString (al_condition a)),
      (''opened_at'', JString (tx_utc (cx_texts cx) (al_opened_ms a))),
      (''alert_url'', JString (page cx ''alerts''))]"

definition opened_fields :: "notify_context \<Rightarrow> alert \<Rightarrow> (string \<times> 'f json) list" where
  "opened_fields cx a =
     alert_fields cx a
     @ [(''opened_at_local'', JString (tx_local (cx_texts cx) (al_opened_ms a))),
        (''next_step'', JString (case al_next_step a of None \<Rightarrow> ''Open the alert in the Dashboard.''
                                 | Some s \<Rightarrow> ns_text s))]"

definition resolved_fields :: "notify_context \<Rightarrow> alert \<Rightarrow> (string \<times> 'f json) list" where
  "resolved_fields cx a =
     (let resolved = unwrap_or (cx_now_ms cx) (al_resolved_ms a)
      in alert_fields cx a
         @ [(''resolved_at'', JString (tx_utc (cx_texts cx) resolved)),
            (''resolved_at_local'', JString (tx_local (cx_texts cx) resolved))])"

definition opened_key :: "alert \<Rightarrow> string \<Rightarrow> string" where
  "opened_key a to = al_id a @ '':opened:'' @ show_uint (al_generation a) @ '':'' @ to"

definition resolved_key :: "alert \<Rightarrow> string \<Rightarrow> string" where
  "resolved_key a to = al_id a @ '':resolved:'' @ show_uint (al_generation a) @ '':'' @ to"

definition opened_entries :: "notify_settings \<Rightarrow> notify_context \<Rightarrow> alert \<Rightarrow> 'f entry list" where
  "opened_entries settings cx a =
     map (\<lambda>to. context_entry cx (opened_key a to) ''bmac-alert-opened-v1'' (opened_fields cx a) to
                 (condition_category (al_condition a)) (Some (al_id a)))
       (recipients a settings False)"

definition resolved_entries :: "notify_settings \<Rightarrow> notify_context \<Rightarrow> alert \<Rightarrow> 'f entry list" where
  "resolved_entries settings cx a =
     map (\<lambda>to. context_entry cx (resolved_key a to) ''bmac-alert-resolved-v1'' (resolved_fields cx a) to
                 (condition_category (al_condition a)) (Some (al_id a)))
       (recipients a settings True)"

definition throttle_ms :: "notify_settings \<Rightarrow> int" where
  "throttle_ms settings = int (unat (nf_throttle_minutes settings)) * 60000"

definition opening_wanted :: "notify_settings \<Rightarrow> int \<Rightarrow> bool \<Rightarrow> alert \<Rightarrow> bool" where
  \<comment> \<open>the three early \<open>continue\<close>s of an opening message\<close>
  "opening_wanted settings now_ms escalated a =
     (\<not> (escalated \<and> al_state a = AlertAcknowledged)
      \<and> \<not> (\<not> escalated \<and> is_some_and (\<lambda>t. now_ms - t < throttle_ms settings) (al_notified_ms a))
      \<and> recipients a settings False \<noteq> [])"

definition is_escalated :: "book_change \<Rightarrow> bool" where
  "is_escalated ch = (case ch of Escalated _ \<Rightarrow> True | _ \<Rightarrow> False)"

definition is_resolved :: "book_change \<Rightarrow> bool" where
  "is_resolved ch = (case ch of Resolved _ \<Rightarrow> True | _ \<Rightarrow> False)"

definition plan_change ::
    "notify_settings \<Rightarrow> silence list \<Rightarrow> notify_context \<Rightarrow> book_change \<Rightarrow> book \<times> 'f entry list \<Rightarrow> book \<times> 'f entry list" where
  \<comment> \<open>one turn of the loop over the changes\<close>
  "plan_change settings silences cx ch = (\<lambda>(book, out).
     case book_get book (change_id ch) of
       None \<Rightarrow> (book, out)
     | Some a \<Rightarrow>
         if condition_category (al_condition a) = ''notify'' \<or> silenced a silences (cx_now_ms cx) then (book, out)
         else if is_resolved ch
         then (if al_notified_ms a = None then (book, out) else (book, out @ resolved_entries settings cx a))
         else if \<not> opening_wanted settings (cx_now_ms cx) (is_escalated ch) a then (book, out)
         else (update_first (\<lambda>a. al_id a = change_id ch) (\<lambda>a. a\<lparr>al_notified_ms := Some (cx_now_ms cx)\<rparr>) book,
               out @ opened_entries settings cx a))"

definition notify_plan ::
    "book \<Rightarrow> book_change list \<Rightarrow> notify_settings \<Rightarrow> silence list \<Rightarrow> notify_context \<Rightarrow> book \<times> 'f entry list" where
  "notify_plan book changes settings silences cx = fold (plan_change settings silences cx) changes (book, [])"

subsection \<open>The stores\<close>

record 'f notify_state =
  st_book :: book
  st_history :: "alert list"
  st_silences :: "silence list"
  st_settings :: notify_settings
  st_settings_revision :: "u64 option"
  st_outbox :: "'f outbox"

definition notify_state_default :: "'f notify_state" where
  "notify_state_default =
     \<lparr> st_book = [], st_history = [], st_silences = [], st_settings = notify_settings_default,
       st_settings_revision = None, st_outbox = outbox_default \<rparr>"

definition state_is_empty :: "'f notify_state \<Rightarrow> bool" where
  "state_is_empty s = (st_book s = [] \<and> ob_entries (st_outbox s) = [])"

record store_io =
  \<comment> \<open>how one \<open>update\<close> goes: the lock and the reads, each write that is made, and the release;
    a write that fails may have replaced the record before\<close>
  io_begin :: "string option"
  io_write :: "nat \<Rightarrow> (bool \<times> string) option"
  io_release :: "string option"

definition digest :: "'f notify_state \<Rightarrow> notify_context \<Rightarrow> 'f entry list" where
  "digest s cx =
     (case nf_digest_hour (st_settings s) of
        None \<Rightarrow> []
      | Some hour \<Rightarrow>
          (case tx_day (cx_texts cx) (cx_now_ms cx) of
             None \<Rightarrow> []
           | Some (h, date) \<Rightarrow>
               if h \<noteq> sint hour then []
               else
                 let open_alerts = filter (\<lambda>a. al_state a \<noteq> AlertResolved) (st_book s);
                     own = [(''open_count'', JNumber (Integer (int (length open_alerts)))),
                            (''alerts'', JArray (map (\<lambda>a. JObject
                                [(''host'', JString (host_text a)),
                                 (''opened_at'', JString (tx_utc (cx_texts cx) (al_opened_ms a))),
                                 (''severity'', JString (severity_name (al_severity a))),
                                 (''summary'', JString (al_message a))]) open_alerts)),
                            (''backup_summary'', JString ''Backups are not set up yet.''),
                            (''alerts_url'', JString (page cx ''alerts''))]
                 in filter_map (\<lambda>to. let key = ''digest:'' @ date @ '':'' @ to in
                        if outbox_contains key (st_outbox s) then None
                        else Some (context_entry cx key ''bmac-digest-v1'' own to ''digest'' None))
                      (nf_recipients (st_settings s))))"

definition settings_written :: "u64 option \<Rightarrow> u64 option" where
  \<comment> \<open>the revision \<open>write_record\<close> gives a record read at the old one\<close>
  "settings_written revision = Some (unwrap_or 0 revision + 1)"

definition write_steps :: "'f notify_state \<Rightarrow> 'f notify_state \<Rightarrow> (nat \<times> bool \<times> ('f notify_state \<Rightarrow> 'f notify_state)) list" where
  \<comment> \<open>each record of the store, whether it changed, and what writing it does\<close>
  "write_steps before after =
     [(0, st_book after \<noteq> st_book before, \<lambda>s. s\<lparr>st_book := st_book after\<rparr>),
      (1, st_history after \<noteq> st_history before, \<lambda>s. s\<lparr>st_history := st_history after\<rparr>),
      (2, st_silences after \<noteq> st_silences before, \<lambda>s. s\<lparr>st_silences := st_silences after\<rparr>),
      (3, st_settings after \<noteq> st_settings before,
       \<lambda>s. s\<lparr>st_settings := st_settings after,
             st_settings_revision := settings_written (st_settings_revision before)\<rparr>),
      (4, st_outbox after \<noteq> st_outbox before, \<lambda>s. s\<lparr>st_outbox := st_outbox after\<rparr>)]"

fun write_back ::
    "store_io \<Rightarrow> (nat \<times> bool \<times> ('s \<Rightarrow> 's)) list \<Rightarrow> 's \<Rightarrow> (string, unit) result \<times> 's" where
  "write_back io [] s = (Ok (), s)"
| "write_back io ((i, changed, f) # steps) s =
     (if \<not> changed then write_back io steps s
      else case io_write io i of
            Some (replaced, e) \<Rightarrow> (Err e, if replaced then f s else s)
          | None \<Rightarrow> write_back io steps (f s))"

definition store_update ::
    "store_io \<Rightarrow> ('f notify_state \<Rightarrow> (string, 'a \<times> 'f notify_state) result) \<Rightarrow> ('f notify_state, string, 'a) effect" where
  "store_update io f = (\<lambda>s.
     case io_begin io of
       Some e \<Rightarrow> (Err e, s)
     | None \<Rightarrow>
         let (result, t) =
               (case f s of
                  Err e \<Rightarrow> (Err e, s)
                | Ok (v, after) \<Rightarrow>
                    (case write_back io (write_steps s after) s of
                       (Err e, t) \<Rightarrow> (Err e, t) | (Ok _, t) \<Rightarrow> (Ok v, t)))
         in (case result of
               Err e \<Rightarrow> Err e
             | Ok v \<Rightarrow> (case io_release io of Some e \<Rightarrow> Err e | None \<Rightarrow> Ok v), t))"

record 'f notifier =
  no_store :: "'f notify_state"
  no_local :: "'f notify_state"
  no_token :: "string option"

definition with_store :: "bool \<Rightarrow> ('f notify_state, 'e, 'a) effect \<Rightarrow> ('f notifier, 'e, 'a) effect" where
  \<comment> \<open>an operation on the cluster's store, or on this host's own\<close>
  "with_store is_local m = (\<lambda>n.
     if is_local then (case m (no_local n) of (r, t) \<Rightarrow> (r, n\<lparr>no_local := t\<rparr>))
     else (case m (no_store n) of (r, t) \<Rightarrow> (r, n\<lparr>no_store := t\<rparr>)))"

definition enqueue_all :: "'f entry list \<Rightarrow> 'f outbox \<Rightarrow> 'f outbox" where
  "enqueue_all es ob = fold (\<lambda>e ob. snd (enqueue e ob)) es ob"

definition merge_state :: "'f notify_state \<Rightarrow> 'f notify_state \<Rightarrow> 'f notify_state" where
  "merge_state local_state s =
     s\<lparr>st_book := book_merge (st_book local_state) (st_book s),
       st_outbox := enqueue_all (ob_entries (st_outbox local_state)) (st_outbox s)\<rparr>"

definition store_clear :: "string option \<Rightarrow> string option \<Rightarrow> ('f notify_state, string, unit) effect" where
  \<comment> \<open>removing the records of the book and of the outbox, with the error of each\<close>
  "store_clear book_error outbox_error = (\<lambda>s.
     case book_error of
       Some e \<Rightarrow> (Err e, s)
     | None \<Rightarrow>
         let s = s\<lparr>st_book := []\<rparr> in
         case outbox_error of
           Some e \<Rightarrow> (Err e, s)
         | None \<Rightarrow> (Ok (), s\<lparr>st_outbox := outbox_default\<rparr>))"

record duty_io =
  di_read_local :: "string option"
  di_merge :: store_io
  di_clear_book :: "string option"
  di_clear_outbox :: "string option"
  di_read_shared :: "string option"
  di_update :: store_io

definition merge_local :: "duty_io \<Rightarrow> ('f notifier, string, unit) effect" where
  "merge_local io = (\<lambda>n.
     case di_read_local io of
       Some e \<Rightarrow> (Err e, n)
     | None \<Rightarrow>
         let local_state = no_local n in
         if state_is_empty local_state then (Ok (), n)
         else
           and_next (with_store False (store_update (di_merge io) (\<lambda>s. Ok ((), merge_state local_state s))))
             (\<lambda>_. with_store True (store_clear (di_clear_book io) (di_clear_outbox io))) n)"

definition evaluate_state ::
    "(string \<Rightarrow> string) \<Rightarrow> texts \<Rightarrow> string option \<Rightarrow> condition list \<Rightarrow> int \<Rightarrow> bool
     \<Rightarrow> 'f notify_state option \<Rightarrow> 'f notify_state \<Rightarrow> 'f notify_state" where
  \<comment> \<open>the closure \<open>evaluate\<close> passes to \<open>update\<close>\<close>
  "evaluate_state sha256 tx cluster_name conditions now may_resolve shared s =
     (let s = (case shared of
                 None \<Rightarrow> s
               | Some sh \<Rightarrow> s\<lparr>st_settings := st_settings sh, st_silences := st_silences sh\<rparr>);
          settings = st_settings s;
          cx = \<lparr> cx_cluster_name = unwrap_or [] cluster_name,
                 cx_dashboard_url = unwrap_or [] (nf_dashboard_url settings),
                 cx_texts = tx, cx_now_ms = now \<rparr>;
          disabled = nf_disabled_conditions settings;
          enabled = filter (\<lambda>c. \<not> switched_off disabled (cn_id c)) conditions;
          (book, changes, expired) =
            book_evaluate sha256 enabled now may_resolve (book_switch_off disabled now (st_book s));
          s = s\<lparr>st_history := archive (st_history s) expired\<rparr>;
          (book, messages) = notify_plan book changes settings (st_silences s) cx;
          s = s\<lparr>st_book := book, st_outbox := enqueue_all messages (st_outbox s)\<rparr>;
          s = s\<lparr>st_outbox := enqueue_all (digest s cx) (st_outbox s)\<rparr>
      in s\<lparr>st_silences := filter (\<lambda>sl. now < sl_until_ms sl) (st_silences s),
           st_outbox := prune now (st_outbox s)\<rparr>)"

definition notifier_evaluate ::
    "(string \<Rightarrow> string) \<Rightarrow> texts \<Rightarrow> duty_io \<Rightarrow> host_slot \<Rightarrow> int \<Rightarrow> (string, 'ip membership) result
     \<Rightarrow> string option \<times> condition list \<Rightarrow> int \<Rightarrow> ('f notifier, string, bool option) effect" where
  \<comment> \<open>\<open>Some False\<close> is the cluster's store, \<open>Some True\<close> this host's own\<close>
  "notifier_evaluate sha256 tx io host started_ms membership current now = (\<lambda>n.
     case membership of
       Err e \<Rightarrow> (Err e, n)
     | Ok m \<Rightarrow>
         let (cluster_name, conditions) = current;
             may_resolve = (STARTUP_GRACE_MS \<le> now - started_ms);
             run = (\<lambda>is_local shared.
               and_next (with_store is_local (store_update (di_update io) (\<lambda>s.
                   Ok ((), evaluate_state sha256 tx cluster_name conditions now may_resolve shared s))))
                 (\<lambda>_. returns (Ok (Some is_local))))
         in if mb_quorate m
            then and_next (merge_local io) (\<lambda>_.
                   if duty m \<noteq> Some host then returns (Ok None) else run False None) n
            else run True (if di_read_shared io = None then Some (no_store n) else None) n)"

subsection \<open>Sending and the Dashboard's calls\<close>

definition send_results ::
    "(string \<Rightarrow> (string, 'f mail_transport) result) \<Rightarrow> string option \<Rightarrow> int \<Rightarrow> 'f notify_state
     \<Rightarrow> (string, (string \<times> outcome) list) result" where
  \<comment> \<open>what \<open>send\<close> hands to Postmark and gets back\<close>
  "send_results connect token now s =
     (case (token, nf_sender (st_settings s)) of
        (Some token, Some sender) \<Rightarrow>
          if he_unauthorized (ob_health (st_outbox s)) \<or> outbox_due now (st_outbox s) = [] then Ok []
          else and_then (connect token) (\<lambda>call.
                 Ok (send_due (email_send call) sender 0 (outbox_due now (st_outbox s))))
      | _ \<Rightarrow> Ok [])"

definition record_results :: "(string \<times> outcome) list \<Rightarrow> int \<Rightarrow> 'f notify_state \<Rightarrow> 'f notify_state" where
  "record_results results now s =
     s\<lparr>st_outbox := fold (\<lambda>(key, out). record_outcome key out now) results (st_outbox s)\<rparr>"

definition notifier_send ::
    "(string \<Rightarrow> (string, 'f mail_transport) result) \<Rightarrow> string option \<Rightarrow> store_io \<Rightarrow> bool \<Rightarrow> int \<Rightarrow> int
     \<Rightarrow> ('f notifier, string, unit) effect" where
  \<comment> \<open>the clock is read before and after sending\<close>
  "notifier_send connect read_error io is_local now now_after = (\<lambda>n.
     case read_error of
       Some e \<Rightarrow> (Err e, n)
     | None \<Rightarrow>
         (case send_results connect (no_token n) now (if is_local then no_local n else no_store n) of
            Err e \<Rightarrow> (Err e, n)
          | Ok [] \<Rightarrow> (Ok (), n)
          | Ok results \<Rightarrow>
              with_store is_local (store_update io (\<lambda>s. Ok ((), record_results results now_after s))) n))"

definition acknowledge_state ::
    "string \<Rightarrow> string \<Rightarrow> int \<Rightarrow> 'f notify_state \<Rightarrow> (string, alert \<times> 'f notify_state) result" where
  "acknowledge_state i by_whom now s =
     (case book_acknowledge i by_whom now (st_book s) of
        (Err e, _) \<Rightarrow> Err e
      | (Ok a, book) \<Rightarrow> Ok (a, s\<lparr>st_book := book\<rparr>))"

definition notifier_acknowledge ::
    "store_io \<Rightarrow> bool \<Rightarrow> string \<Rightarrow> string \<Rightarrow> int \<Rightarrow> ('f notifier, api_error, alert) effect" where
  "notifier_acknowledge io quorate i by_whom now = (\<lambda>n.
     case with_store (\<not> quorate) (store_update io (acknowledge_state i by_whom now)) n of
       (r, t) \<Rightarrow> (map_err (error_new NotFound) r, t))"

record save_silence =
  ss_condition :: "string option"
  ss_resource :: "string option"
  ss_host :: "host_slot option"
  ss_until_ms :: int
  ss_reason :: string

definition new_silence :: "string \<Rightarrow> save_silence \<Rightarrow> string \<Rightarrow> int \<Rightarrow> (api_error, silence) result" where
  \<comment> \<open>the checks of \<open>save_silence\<close>, with the random identifier\<close>
  "new_silence i request by_whom now =
     and_then (require (now < ss_until_ms request \<and> ss_until_ms request - now \<le> MAX_SILENCE_MS)
                 ''a silence ends in the future, within 90 days'') (\<lambda>_.
     let reason = trim (ss_reason request) in
     and_then (require (reason \<noteq> [] \<and> length reason \<le> 200) ''give a reason of up to 200 characters'') (\<lambda>_.
     and_then (try_for_each (\<lambda>field. case field of
                   None \<Rightarrow> Ok ()
                 | Some t \<Rightarrow> require (t \<noteq> [] \<and> length t \<le> 200) ''a condition or resource is 1 to 200 characters'')
                 [ss_condition request, ss_resource request]) (\<lambda>_.
       Ok \<lparr> sl_id = i, sl_condition = ss_condition request, sl_resource = ss_resource request,
            sl_host = ss_host request, sl_until_ms = ss_until_ms request, sl_reason = reason,
            sl_created_by = by_whom, sl_created_ms = now \<rparr>)))"

definition notifier_save_silence ::
    "store_io \<Rightarrow> string \<Rightarrow> save_silence \<Rightarrow> string \<Rightarrow> int \<Rightarrow> ('f notifier, api_error, silence) effect" where
  "notifier_save_silence io i request by_whom now =
     and_next (returns (new_silence i request by_whom now)) (\<lambda>silence n.
       case with_store False (store_update io (\<lambda>s. Ok (silence, s\<lparr>st_silences := st_silences s @ [silence]\<rparr>))) n of
         (r, t) \<Rightarrow> (map_err (error_new Internal) r, t))"

definition delete_silence_state :: "string \<Rightarrow> 'f notify_state \<Rightarrow> (string, silence \<times> 'f notify_state) result" where
  "delete_silence_state i s =
     (case find (\<lambda>j. sl_id (st_silences s ! j) = i) [0..<length (st_silences s)] of
        None \<Rightarrow> Err (''no silence '' @ i)
      | Some j \<Rightarrow> Ok (st_silences s ! j, s\<lparr>st_silences := remove_at j (st_silences s)\<rparr>))"

definition notifier_delete_silence :: "store_io \<Rightarrow> string \<Rightarrow> ('f notifier, api_error, silence) effect" where
  "notifier_delete_silence io i = (\<lambda>n.
     case with_store False (store_update io (delete_silence_state i)) n of
       (r, t) \<Rightarrow> (map_err (error_new NotFound) r, t))"

definition save_settings_state ::
    "notify_settings \<Rightarrow> u64 option \<Rightarrow> int \<Rightarrow> 'f notify_state \<Rightarrow> (string, unit \<times> 'f notify_state) result" where
  "save_settings_state settings expected_revision now s =
     (if st_settings_revision s \<noteq> expected_revision then Err ''conflict''
      else Ok ((), s\<lparr>st_settings := settings, st_outbox := retry_sender now (st_outbox s)\<rparr>))"

definition notifier_save_settings ::
    "(string \<Rightarrow> string) \<Rightarrow> store_io \<Rightarrow> string option \<Rightarrow> notify_settings \<Rightarrow> u64 option \<Rightarrow> int
     \<Rightarrow> ('f notifier, api_error, u64) effect" where
  \<comment> \<open>\<open>read_error\<close> is what reading the revision back comes to\<close>
  "notifier_save_settings debug io read_error settings expected_revision now =
     and_next (returns (validate_settings debug settings)) (\<lambda>_ n.
       case with_store False (store_update io (save_settings_state settings expected_revision now)) n of
         (Ok _, t) \<Rightarrow>
           (case read_error of
              Some e \<Rightarrow> (Err (error_new Internal e), t)
            | None \<Rightarrow> (Ok (unwrap_or 0 (st_settings_revision (no_store t))), t))
       | (Err e, t) \<Rightarrow>
           (Err (if e = ''conflict''
                 then error_new Conflict ''the notification settings changed since they were read; reload and try again''
                 else error_new Internal e), t))"

definition MAX_TOKEN :: nat where
  "MAX_TOKEN = 200"

definition store_set_token :: "string option \<Rightarrow> string \<Rightarrow> ('f notifier, string, unit) effect" where
  \<comment> \<open>\<open>secret_error\<close> is what removing or writing the file comes to\<close>
  "store_set_token secret_error token = (\<lambda>n.
     let token = trim token in
     if token \<noteq> [] \<and> (MAX_TOKEN < length token \<or> \<not> list_all is_ascii_graphic token)
     then (Err ''a Postmark server token is up to 200 printable characters with no spaces'', n)
     else case secret_error of
            Some e \<Rightarrow> (Err e, n)
          | None \<Rightarrow> (Ok (), n\<lparr>no_token := (if token = [] then None else Some token)\<rparr>))"

definition authorize_state :: "'f notify_state \<Rightarrow> 'f notify_state" where
  "authorize_state s =
     s\<lparr>st_outbox := (st_outbox s)\<lparr>ob_health := (ob_health (st_outbox s))\<lparr>he_unauthorized := False\<rparr>\<rparr>\<rparr>"

definition notifier_set_token ::
    "string option \<Rightarrow> store_io \<Rightarrow> bool \<Rightarrow> string \<Rightarrow> ('f notifier, api_error, unit) effect" where
  "notifier_set_token secret_error io quorate token = (\<lambda>n.
     case store_set_token secret_error token n of
       (Err e, n) \<Rightarrow> (Err (error_new Invalid e), n)
     | (Ok _, n) \<Rightarrow>
         (case with_store (\<not> quorate) (store_update io (\<lambda>s. Ok ((), authorize_state s))) n of
            (r, t) \<Rightarrow> (map_err (error_new Internal) r, t)))"

definition notifier_release_held :: "store_io \<Rightarrow> bool \<Rightarrow> int \<Rightarrow> ('f notifier, api_error, unit) effect" where
  \<comment> \<open>the end of \<open>create_templates\<close>, once the templates exist\<close>
  "notifier_release_held io quorate now = (\<lambda>n.
     case with_store (\<not> quorate)
            (store_update io (\<lambda>s. Ok ((), s\<lparr>st_outbox := release_held now (st_outbox s)\<rparr>))) n of
       (r, t) \<Rightarrow> (map_err (error_new Internal) r, t))"

definition notify_view_alerts :: "'f notify_state \<Rightarrow> alert list \<times> alert list" where
  \<comment> \<open>the alerts and the history \<open>view\<close> shows\<close>
  "notify_view_alerts s =
     (sort_key (\<lambda>a. - al_opened_ms a) (st_book s), take HISTORY_SHOWN (st_history s))"

end
