(* ===== verification/Spec2Isabelle.thy ===== *)
theory Spec2Isabelle
  imports Storage_Capacity Storage_Checks Storage_Journal Backup_Lifetime Backup_Restore
    Registry_Resources Auth_Guarantees Jobs_Guarantees Jobs_Schedules Notify_Guarantees
begin

text \<open>
  A verification development for BMAC (src/v3), a system that runs a small Proxmox VE cluster:
  storage pools on ZFS, virtual machines with staging copies, backups to appliances, and a daemon on
  every host with a web front end.

  \<^bold>\<open>The program and how its parts interact.\<close>
  \<^item> \<^verbatim>\<open>bmac-core\<close> holds the identifiers every other crate speaks in: host slots, VM
    numbers, guest names, disk identities, byte counts.
  \<^item> \<^verbatim>\<open>bmac-storage\<close> decides about pools: which layouts are allowed for which disks
    (\<^verbatim>\<open>layout.rs\<close>, \<^verbatim>\<open>checks.rs\<close>), where partitions go (\<^verbatim>\<open>partition.rs\<close>), how much a block of VM data
    takes on each vdev (\<^verbatim>\<open>geometry.rs\<close>), whether VM disks and their growth fit every host they are
    placed on (\<^verbatim>\<open>capacity.rs\<close>), and what has been done to a pool (\<^verbatim>\<open>journal.rs\<close>).
  \<^item> \<^verbatim>\<open>bmac-backup\<close> decides about points in time (PITs): how long each is kept here and on an
    appliance (\<^verbatim>\<open>retention.rs\<close>), which snapshots and bookmarks the chains still need
    (\<^verbatim>\<open>lifetime.rs\<close>), how healthy an appliance is (\<^verbatim>\<open>states.rs\<close>), what is recorded of a PIT
    (\<^verbatim>\<open>manifest.rs\<close>) and how one is restored (\<^verbatim>\<open>restore.rs\<close>).
  \<^item> \<^verbatim>\<open>bmac-registry\<close> keeps the records of the guests of the cluster and their states.
  \<^item> \<^verbatim>\<open>bmacd\<close>, the daemon, logs users in with Proxmox's own accounts (\<^verbatim>\<open>auth/\<close>), turns a
    launch into a job that holds locks on what it changes (\<^verbatim>\<open>operations.rs\<close>), keeps the records of all
    jobs in a directory every host shares (\<^verbatim>\<open>jobs.rs\<close>), and carries out what the libraries decide.

  \<^bold>\<open>The theories.\<close> Each opens with a text that says what it holds.
  \<^descr> Foundations. \<open>Rust_Prelude\<close> models what the sources use of the language:
    \<^verbatim>\<open>Result\<close> is a sum with the error on the left, a panic is \<open>None\<close>, machine integers are words,
    with saturating and checked arithmetic; the collections \<open>unat_ops\<close> and \<open>result_ops\<close> carry the
    proofs. \<open>Rust_Text\<close> models strings as lists of bytes (UTF-8), with splitting, trimming, lines and
    numbers, and the locales \<open>text_form\<close> and \<open>exact_text_form\<close> for a type that is parsed and
    displayed. \<open>Rust_BTree\<close> models ordered maps by the locale \<open>ordered_map\<close>. The locales
    \<open>total_preorder\<close> and \<open>state_machine\<close> state what comparisons and step relations promise.
  \<^descr> bmac-core. \<open>Core_Ids\<close> (\<^verbatim>\<open>ids.rs\<close>), \<open>Core_Units\<close> (\<^verbatim>\<open>units.rs\<close>), \<open>Core_Disk\<close> (\<^verbatim>\<open>disk.rs\<close>):
    every parser, display and check; which texts are accepted, and that identifiers survive their
    text form.
  \<^descr> bmac-storage. \<open>Storage_Layout\<close>, \<open>Storage_Geometry\<close>, \<open>Storage_Capacity\<close>,
    \<open>Storage_Partition\<close>, \<open>Storage_Checks\<close>, \<open>Storage_Journal\<close>, one per source file: the checks allow
    exactly the layouts that satisfy the stated conditions; the word arithmetic computes the
    allocation of ZFS without overflow; what growth and placement allow leaves the reserve free on
    every host, and no more would; the journal keeps its invariant under every operation, numbers are
    never reused, and its file is replaced whole or not at all.
  \<^descr> bmac-backup. \<open>Backup_Retention\<close>, \<open>Backup_Lifetime\<close>, \<open>Backup_Appliance\<close>
    (\<^verbatim>\<open>states.rs\<close>, \<^verbatim>\<open>settings.rs\<close>), \<open>Backup_Names\<close> (\<^verbatim>\<open>names.rs\<close>), \<open>Backup_Json\<close>, \<open>Backup_Manifest\<close>
    and \<open>Backup_Config\<close> (\<^verbatim>\<open>manifest.rs\<close>), \<open>Backup_Restore\<close> (\<^verbatim>\<open>restore.rs\<close>): the loops compute the
    declarative specification of what is kept; a policy change that is not reported as weaker keeps
    everything; no chain loses both its snapshot and its bookmark, and nothing else is kept; the
    digest of a manifest binds all of it; a restored VM is cut off as asked, and each disk is restored
    the cheapest way its snapshots allow.
  \<^descr> bmac-registry. \<open>Registry_State\<close> (\<^verbatim>\<open>state.rs\<close>): the enumerations by the locale
    \<open>text_enum\<close>, the life of a guest as a step relation. \<open>Registry_Resources\<close> (\<^verbatim>\<open>resource.rs\<close>): the
    validator accepts exactly the registries with unique identities and sound staging guests.
  \<^descr> bmacd. \<open>Auth_Tokens\<close> and \<open>Auth_Sessions\<close> (\<^verbatim>\<open>auth/sessions.rs\<close>), \<open>Auth_Accounts\<close>
    (\<^verbatim>\<open>auth/accounts.rs\<close>), \<open>Auth_Limits\<close> (\<^verbatim>\<open>auth/limits.rs\<close>), \<open>Auth_Proxmox\<close> (\<^verbatim>\<open>auth/proxmox.rs\<close>),
    \<open>Auth_Login\<close> (\<^verbatim>\<open>auth/mod.rs\<close>, \<^verbatim>\<open>auth/revocations.rs\<close>, \<^verbatim>\<open>audit.rs\<close>), \<open>Auth_Guarantees\<close> (theorems
    about traces of all of them): a session exists only for a user Proxmox granted, with the role of
    the account; ended sessions stay ended; the table survives a restart; the limiter answers like a
    log of all attempts; and the upkeep ends exactly what has to end. \<open>Api_Errors\<close>
    (\<^verbatim>\<open>bmac-proto/src/api.rs\<close>) has the errors and how operations with effects are put together.
    \<open>Jobs_Operations\<close> (\<^verbatim>\<open>operations.rs\<close>) has the operations, their checks and the preparation of a
    launch, with the theorems in \<open>Jobs_Launch\<close>: which launches are accepted, that no value becomes an
    option of a script, and that locks are paths that conflict when one is a prefix of the other.
    \<open>Jobs_Cluster\<close> (\<^verbatim>\<open>cluster.rs\<close>) has the membership, \<open>Jobs_Records\<close> (\<^verbatim>\<open>jobs.rs\<close>) every operation on
    the records. \<open>Jobs_Lifecycle\<close> states the life of a job as steps on the directory and proves that
    every operation makes only such steps, whatever fails; \<open>Jobs_Guarantees\<close> draws the consequences:
    no two unfinished jobs hold the same resource, a launch is admitted once, only the lease's holder
    finishes a job, finished records never change, and a sweep leaves nothing stale.

  \<^bold>\<open>State and effects.\<close> A struct is a record, an enum a datatype, and a method that
  changes its object takes and returns the record. What comes from outside is a parameter: the time
  zone (a function from times to days), SHA-256, serde, UUIDs, the text of an IP address, random
  bytes, Proxmox's answers. System calls, the database and the cluster file system may fail: a flag
  or a function of the operation says which call does. A \<^verbatim>\<open>HashMap\<close> is an ordered map whose order
  no theorem uses.

  \<^bold>\<open>Bounds.\<close> Sizes and counters are words of the width the sources use. Times are integers; the
  theorems hold wherever the sources' signed 64-bit arithmetic does not overflow, which is more than
  a hundred million years around the epoch. Retention assumes days in the range of the calendar
  library (\<open>days_in_range\<close>), \<open>addition_numbers_fresh\<close> that the last number is not the largest word,
  the geometry theorems at most \<^verbatim>\<open>2 ^ 32\<close> members and blocks of at most 128 KiB, as
  \<open>layout_validate\<close> and \<open>BlockSize\<close> enforce. All loops of the sources are recursions that are proved
  to end; only the search of \<open>disk_name\<close> runs over an unbounded range, and the model stops it after
  one name more than are taken, which is proved to be enough. No definition uses fuel.

  \<^bold>\<open>Not modelled.\<close> Formatting with floating-point numbers (sizes shown to users), the
  messages of layout findings, the connections to Proxmox and between hosts, the web front end, the
  installer and deployer (which run commands on hosts), and the workflows of \<^verbatim>\<open>bmacd\<close> and
  \<^verbatim>\<open>bmac-backupd\<close> that carry out decisions: they are sequences of commands whose effect is in the
  systems they call. Methods that wait for I/O are one step each, so requests that run at the same
  time are not interleaved within a method.

  \<^bold>\<open>Next.\<close> The validators of single registry records (\<^verbatim>\<open>check.rs\<close>, \<^verbatim>\<open>policy.rs\<close>), the events of a
  job and its supervisor, the lock of the cluster file system (\<^verbatim>\<open>bmac-pmxcfs\<close>), and the grants of an
  appliance.
\<close>

end
